(* ===== verification/RG_Prelude.thy ===== *)
theory RG_Prelude
  imports Complex_Main
begin

text \<open>
  Shared vocabulary of the RiskGuard development: the types that name the
  program's values (timestamps as whole seconds since the UTC epoch, position
  tickets as Python integers, risk percentages as reals, the float of the
  source read without rounding), the position and snapshot records the
  trading-engine reader hands to both enforcers, the \<open>timedelta\<close> arithmetic
  the source uses, and generic lemmas on lists and finite sets that the
  component theories share.
\<close>

type_synonym timestamp = int
type_synonym ticket = int

named_theorems rg_simps "unfolding rules of the RiskGuard model used by the component proofs"

subsection \<open>Positions and snapshots\<close>

text \<open>
  \<open>reader.snapshot()\<close> returns a dictionary with the aggregate exposure and a
  list of position dictionaries. A position keeps the keys the enforcers read:
  \<open>ticket\<close>, \<open>symbol\<close>, \<open>type\<close> (the side), \<open>volume\<close> and \<open>open_time\<close>.
  A missing or falsy \<open>open_time\<close> is \<open>None\<close>.
\<close>

record position =
  pos_ticket :: ticket
  pos_symbol :: string
  pos_type :: int
  pos_volume :: real
  pos_open_time :: "timestamp option"

record snapshot =
  total_risk_pct :: real
  snap_positions :: "position list"

definition tickets_of :: "position list \<Rightarrow> ticket set" where
  "tickets_of ps = pos_ticket ` set ps"

text \<open>\<open>timedelta(minutes = m)\<close> in seconds.\<close>

definition minutes :: "int \<Rightarrow> int" where
  "minutes m = 60 * m"

declare minutes_def [rg_simps]

text \<open>
  The later of an optional expiry and a new one: what the kill switch keeps
  when it is armed, and what the news loop keeps in \<open>max_until\<close>.
\<close>

definition opt_max :: "'a::linorder option \<Rightarrow> 'a \<Rightarrow> 'a option" where
  "opt_max m u = Some (case m of None \<Rightarrow> u | Some v \<Rightarrow> max v u)"

definition opt_join :: "'a::linorder option \<Rightarrow> 'a option \<Rightarrow> 'a option" where
  "opt_join mu k = (case mu of None \<Rightarrow> k | Some u \<Rightarrow> opt_max k u)"

subsection \<open>Python strings\<close>

text \<open>
  \<open>str.isspace\<close> on the characters below 256 (the model's strings): the
  ASCII blanks 9--13 and 32, the separators 28--31, NEL (133) and NBSP (160);
  \<open>str.strip()\<close> with no argument removes them at both ends.
\<close>

definition py_isspace :: "char \<Rightarrow> bool" where
  "py_isspace c = (let k = (of_char c :: nat) in (9 \<le> k \<and> k \<le> 13) \<or> (28 \<le> k \<and> k \<le> 32) \<or> k = 133 \<or> k = 160)"

definition py_strip :: "string \<Rightarrow> string" where
  "py_strip s = rev (dropWhile py_isspace (rev (dropWhile py_isspace s)))"

text \<open>\<open>str()\<close> of an integer.\<close>

fun py_str_nat :: "nat \<Rightarrow> string" where
  "py_str_nat n = (if n < 10 then [] else py_str_nat (n div 10)) @ [char_of (48 + n mod 10)]"

definition py_str_int :: "int \<Rightarrow> string" where
  "py_str_int i = (if i < 0 then CHR ''-'' # py_str_nat (nat (- i)) else py_str_nat (nat i))"

subsection \<open>Generic lemmas\<close>

lemma fold_opt_max:
  "fold (\<lambda>u m. opt_max m u) xs m0 =
     (if xs = [] then m0 else Some (Max (set xs \<union> set_option m0)))"
proof (induction xs arbitrary: m0)
  case Nil
  then show ?case by simp
next
  case (Cons x xs)
  have "fold (\<lambda>u m. opt_max m u) (x # xs) m0 = fold (\<lambda>u m. opt_max m u) xs (opt_max m0 x)"
    by simp
  also have "\<dots> = (if xs = [] then opt_max m0 x else Some (Max (set xs \<union> set_option (opt_max m0 x))))"
    by (rule Cons.IH)
  also have "\<dots> = Some (Max (set (x # xs) \<union> set_option m0))"
    by (cases "xs = []"; cases m0)
       (simp_all add: opt_max_def Max_insert max.commute max.left_commute)
  finally show ?case by simp
qed

lemma opt_max_opt_join:
  "opt_max (opt_join mu k) u = opt_join (opt_max mu u) k"
  by (auto simp: opt_max_def opt_join_def max.assoc max.left_commute split: option.splits)

lemma opt_join_fold_opt_max:
  "opt_join (fold (\<lambda>u m. opt_max m u) xs None) k = fold (\<lambda>u m. opt_max m u) xs k"
  unfolding fold_opt_max
  by (cases "xs = []"; cases k) (simp_all add: opt_join_def opt_max_def Max_insert max.commute)

lemma opt_max_not_None [simp]: "opt_max m u \<noteq> None"
  by (simp add: opt_max_def)



lemma tickets_of_simps [simp]:
  "tickets_of [] = {}"
  "tickets_of (p # ps) = insert (pos_ticket p) (tickets_of ps)"
  by (simp_all add: tickets_of_def)

lemma finite_tickets_of [simp]: "finite (tickets_of ps)"
  by (simp add: tickets_of_def)

lemma set_sorted_list_of_tickets [simp]:
  "set (sorted_list_of_set (tickets_of ps)) = tickets_of ps"
  by simp

lemma sorted_list_of_set_empty_iff:
  "finite A \<Longrightarrow> (sorted_list_of_set A = []) = (A = {})"
  by simp

lemma filter_mem_set_disjoint:
  "set (filter (\<lambda>x. x \<notin> B) xs) \<inter> B = {}"
  by auto

lemma map_filter_subset:
  "set (map f (filter P xs)) \<subseteq> f ` set xs"
  by auto

lemma dropWhile_all: "(\<forall>x\<in>set (dropWhile P xs). P x) = (dropWhile P xs = [])"
  by (induction xs) auto

lemma py_strip_Nil_iff: "(py_strip s = []) = (\<forall>c\<in>set s. py_isspace c)"
  by (simp add: py_strip_def dropWhile_all [symmetric]) (simp add: dropWhile_all dropWhile_eq_Nil_conv)

end
