(* ===== verification/State_Store.thy ===== *)
theory State_Store
  imports RG_Prelude
begin

text \<open>
  The persistent state of the aggregate-risk enforcer
  (\<open>src/RiskguardV1.1/limits/limits.py\<close>, \<open>_load_state\<close> and \<open>_save_state\<close>,
  the file \<open>.riskguard_limits.json\<close>). The code reads the dictionary only
  through \<open>get\<close> with a default (\<open>baseline_tickets\<close> or \<open>[]\<close>,
  \<open>block_attempts\<close> 0, \<open>last_attempt_at\<close> parsed or \<open>None\<close>,
  \<open>risk_block_active\<close> \<open>False\<close>), so a dictionary with a key missing
  behaves as the one holding the default: the record below holds the four
  values the code reads, and \<open>{}\<close> is \<open>empty_limits_state\<close>.
  The file is missing, unreadable (not JSON, or truncated by a write that was
  interrupted: \<open>_save_state\<close> opens the file with mode \<open>"w"\<close> and writes in
  place, with no temporary file and rename), or holds a dictionary.
\<close>

record limits_state =
  baseline_tickets :: "ticket list"
  block_attempts :: int
  last_attempt_at :: "timestamp option"
  risk_block_active :: bool

definition empty_limits_state :: limits_state where
  "empty_limits_state =
     \<lparr>baseline_tickets = [], block_attempts = 0, last_attempt_at = None, risk_block_active = False\<rparr>"

datatype state_file = NoFile | Corrupt | Json limits_state

definition load_state :: "state_file \<Rightarrow> limits_state" where
  "load_state f = (case f of NoFile \<Rightarrow> empty_limits_state | Corrupt \<Rightarrow> empty_limits_state | Json d \<Rightarrow> d)"

definition save_state :: "limits_state \<Rightarrow> state_file" where
  "save_state d = Json d"

text \<open>
  A process killed while \<open>json.dump\<close> writes leaves the truncated file in place:
  the next \<open>json.load\<close> raises and \<open>_load_state\<close> answers \<open>{}\<close>.
\<close>

definition save_state_interrupted :: "limits_state \<Rightarrow> state_file" where
  "save_state_interrupted d = Corrupt"

subsection \<open>Lemmas\<close>

lemma load_save_state [simp]: "load_state (save_state d) = d"
  by (simp add: load_state_def save_state_def)

lemma load_state_NoFile [simp]: "load_state NoFile = empty_limits_state"
  by (simp add: load_state_def)

lemma load_state_Corrupt [simp]: "load_state Corrupt = empty_limits_state"
  by (simp add: load_state_def)

lemma empty_limits_state_sel [simp]:
  "baseline_tickets empty_limits_state = []"
  "block_attempts empty_limits_state = 0"
  "last_attempt_at empty_limits_state = None"
  "risk_block_active empty_limits_state = False"
  by (simp_all add: empty_limits_state_def)

end
