(* ===== verification/Kill_Switch.thy ===== *)
theory Kill_Switch
  imports RG_Prelude
begin

text \<open>
  The kill switch (\<open>limits/kill_switch.py\<close>: \<open>set_kill_until\<close>, \<open>kill_status\<close>,
  \<open>maybe_reenable_autotrade\<close>). Its source is not part of the repository's files,
  so the three operations are modelled from the specification (section 4.2): the
  persisted record holds one optional expiry; arming keeps the later of the
  current and the requested expiry; the switch is active while the expiry lies
  strictly in the future; re-enabling fires once, when the expiry has passed,
  and clears it. The external "enable AutoTrading" effect of re-enabling is the
  boolean the operation returns; the world theory applies it.
\<close>

record kill_state =
  ks_until :: "timestamp option"

definition ks_empty :: kill_state where
  "ks_empty = \<lparr>ks_until = None\<rparr>"

definition set_kill_until :: "timestamp \<Rightarrow> kill_state \<Rightarrow> kill_state" where
  "set_kill_until t ks =
     (case ks_until ks of
        None \<Rightarrow> ks\<lparr>ks_until := Some t\<rparr>
      | Some u \<Rightarrow> if u < t then ks\<lparr>ks_until := Some t\<rparr> else ks)"

text \<open>\<open>kill_status()["active"]\<close>.\<close>

definition kill_active :: "timestamp \<Rightarrow> kill_state \<Rightarrow> bool" where
  "kill_active now ks = (case ks_until ks of None \<Rightarrow> False | Some u \<Rightarrow> now < u)"

text \<open>\<open>maybe_reenable_autotrade()\<close>: whether it fired, and the new record.\<close>

definition maybe_reenable_autotrade :: "timestamp \<Rightarrow> kill_state \<Rightarrow> bool \<times> kill_state" where
  "maybe_reenable_autotrade now ks =
     (case ks_until ks of
        None \<Rightarrow> (False, ks)
      | Some u \<Rightarrow> if u \<le> now then (True, ks\<lparr>ks_until := None\<rparr>) else (False, ks))"

text \<open>Arming with a list of expiries, one call after the other.\<close>

definition arm_all :: "timestamp list \<Rightarrow> kill_state \<Rightarrow> kill_state" where
  "arm_all ts ks = fold set_kill_until ts ks"

subsection \<open>Lemmas\<close>

lemma ks_until_set_kill_until [simp]:
  "ks_until (set_kill_until t ks) =
     Some (case ks_until ks of None \<Rightarrow> t | Some u \<Rightarrow> max u t)"
  by (auto simp: set_kill_until_def max_def split: option.splits)

lemma ks_until_set_kill_until_opt_max:
  "ks_until (set_kill_until t ks) = opt_max (ks_until ks) t"
  by (simp add: opt_max_def)

lemma kill_active_update [simp]:
  "kill_active now (ks\<lparr>ks_until := x\<rparr>) = (case x of None \<Rightarrow> False | Some u \<Rightarrow> now < u)"
  by (simp add: kill_active_def)

lemma set_kill_until_inactive:
  "\<not> kill_active now ks \<Longrightarrow> now < t \<Longrightarrow> set_kill_until t ks = ks\<lparr>ks_until := Some t\<rparr>"
  by (auto simp: kill_active_def set_kill_until_def split: option.splits)

lemma kill_active_set_kill_until:
  "now < t \<Longrightarrow> kill_active now (set_kill_until t ks)"
  by (auto simp: kill_active_def split: option.splits)

lemma kill_active_mono_arm:
  "kill_active now ks \<Longrightarrow> kill_active now (set_kill_until t ks)"
  by (auto simp: kill_active_def split: option.splits)

lemma ks_until_arm_all:
  "ks_until (arm_all ts ks) =
     (case ks_until ks of
        None \<Rightarrow> (if ts = [] then None else Some (Max (set ts)))
      | Some u \<Rightarrow> Some (Max (insert u (set ts))))"
proof (induction ts arbitrary: ks)
  case Nil
  then show ?case by (simp add: arm_all_def split: option.splits)
next
  case (Cons t ts)
  have "arm_all (t # ts) ks = arm_all ts (set_kill_until t ks)"
    by (simp add: arm_all_def)
  moreover have "Max (insert (max u t) (set ts)) = max u (Max (insert t (set ts)))" for u
    by (cases "ts = []") (simp_all add: max.assoc)
  ultimately show ?case using Cons.IH
    by (auto split: option.splits)
qed

lemma maybe_reenable_fired_clears:
  "maybe_reenable_autotrade now ks = (True, ks') \<Longrightarrow> ks_until ks' = None"
  by (auto simp: maybe_reenable_autotrade_def split: option.splits if_splits)

lemma maybe_reenable_idle:
  "ks_until ks = None \<Longrightarrow> maybe_reenable_autotrade now ks = (False, ks)"
  by (simp add: maybe_reenable_autotrade_def)

lemma maybe_reenable_not_fired:
  "maybe_reenable_autotrade now ks = (False, ks') \<Longrightarrow> ks' = ks"
  by (auto simp: maybe_reenable_autotrade_def split: option.splits if_splits)

lemma maybe_reenable_fired_iff:
  "fst (maybe_reenable_autotrade now ks) \<longleftrightarrow> (\<exists>u. ks_until ks = Some u \<and> u \<le> now)"
  by (auto simp: maybe_reenable_autotrade_def split: option.splits)

lemmas kill_switch_defs [rg_simps] =
  kill_active_def maybe_reenable_autotrade_def set_kill_until_def ks_empty_def

end
