(* ===== verification/Broker.thy ===== *)
theory Broker
  imports RG_Prelude
begin

text \<open>
  The trading engine as the enforcers see it: its open positions and its
  AutoTrading flag. \<open>close_position_full\<close> (\<open>limits/guard.py\<close>) and
  \<open>ensure_autotrading_on\<close>/\<open>ensure_autotrading_off\<close> (\<open>limits/uia.py\<close>) are not
  among the repository's files; they are modelled from the specification
  (section 6): a close request succeeds or fails by the broker's answer, which is
  a parameter \<open>closer\<close> of the model; a ticket that is no longer open is a failed
  close, never a crash; a successful close removes the position.
\<close>

record engine =
  eng_positions :: "position list"
  eng_autotrading :: bool

definition close_position_full ::
  "(position \<Rightarrow> bool) \<Rightarrow> position \<Rightarrow> engine \<Rightarrow> bool \<times> engine" where
  "close_position_full closer p e =
     (if pos_ticket p \<in> tickets_of (eng_positions e) \<and> closer p
      then (True, e\<lparr>eng_positions := filter (\<lambda>q. pos_ticket q \<noteq> pos_ticket p) (eng_positions e)\<rparr>)
      else (False, e))"

definition ensure_autotrading_on :: "engine \<Rightarrow> engine" where
  "ensure_autotrading_on e = e\<lparr>eng_autotrading := True\<rparr>"

definition ensure_autotrading_off :: "engine \<Rightarrow> engine" where
  "ensure_autotrading_off e = e\<lparr>eng_autotrading := False\<rparr>"

subsection \<open>Lemmas\<close>

lemma close_position_full_autotrading [simp]:
  "eng_autotrading (snd (close_position_full c p e)) = eng_autotrading e"
  by (simp add: close_position_full_def)

lemma close_position_full_ok_gone:
  "close_position_full c p e = (True, e') \<Longrightarrow> pos_ticket p \<notin> tickets_of (eng_positions e')"
  by (auto simp: close_position_full_def tickets_of_def split: if_splits)

lemma close_position_full_positions_subset:
  "set (eng_positions (snd (close_position_full c p e))) \<subseteq> set (eng_positions e)"
  by (auto simp: close_position_full_def)

lemma close_position_full_positions_only:
  "eng_positions e1 = eng_positions e2 \<Longrightarrow>
     fst (close_position_full c p e1) = fst (close_position_full c p e2)
     \<and> eng_positions (snd (close_position_full c p e1)) = eng_positions (snd (close_position_full c p e2))"
  by (simp add: close_position_full_def)

lemma close_position_full_fail:
  "\<not> fst (close_position_full c p e) \<Longrightarrow> snd (close_position_full c p e) = e"
  by (auto simp: close_position_full_def split: if_splits)

lemmas broker_defs [rg_simps] =
  close_position_full_def ensure_autotrading_on_def ensure_autotrading_off_def

end
