(* ===== verification/World.thy ===== *)
theory World
  imports State_Store Kill_Switch Broker
begin

text \<open>
  The state one tick of RiskGuard reads and changes: the limits state file, the
  kill-switch record and the trading engine. The aggregate enforcer and the
  news enforcer both take a world and return the next one; they share the
  kill-switch record and the engine and own nothing else in common.
\<close>

record world =
  w_limits :: state_file
  w_kill :: kill_state
  w_engine :: engine

definition w_close :: "(position \<Rightarrow> bool) \<Rightarrow> position \<Rightarrow> world \<Rightarrow> bool \<times> world" where
  "w_close closer p w =
     (let (ok, e') = close_position_full closer p (w_engine w) in (ok, w\<lparr>w_engine := e'\<rparr>))"

definition w_arm :: "timestamp \<Rightarrow> world \<Rightarrow> world" where
  "w_arm t w = w\<lparr>w_kill := set_kill_until t (w_kill w)\<rparr>"

text \<open>
  \<open>maybe_reenable_autotrade()\<close> with its external effect: when it fires it
  clears the expiry and switches AutoTrading back on.
\<close>

definition w_maybe_reenable :: "timestamp \<Rightarrow> world \<Rightarrow> bool \<times> world" where
  "w_maybe_reenable now w =
     (let (fired, ks') = maybe_reenable_autotrade now (w_kill w)
      in (fired, w\<lparr>w_kill := ks',
                   w_engine := (if fired then ensure_autotrading_on (w_engine w) else w_engine w)\<rparr>))"

subsection \<open>Lemmas\<close>

lemma w_close_frame [simp]:
  "w_limits (snd (w_close c p w)) = w_limits w"
  "w_kill (snd (w_close c p w)) = w_kill w"
  by (simp_all add: w_close_def split: prod.splits)

lemma w_close_engine:
  "w_engine (snd (w_close c p w)) = snd (close_position_full c p (w_engine w))"
  "fst (w_close c p w) = fst (close_position_full c p (w_engine w))"
  by (simp_all add: w_close_def split: prod.splits)

lemma w_arm_frame [simp]:
  "w_limits (w_arm t w) = w_limits w"
  "w_engine (w_arm t w) = w_engine w"
  "w_kill (w_arm t w) = set_kill_until t (w_kill w)"
  by (simp_all add: w_arm_def)

lemma w_maybe_reenable_frame [simp]:
  "w_limits (snd (w_maybe_reenable now w)) = w_limits w"
  by (simp add: w_maybe_reenable_def split: prod.splits)

lemma w_maybe_reenable_kill:
  "w_kill (snd (w_maybe_reenable now w)) = snd (maybe_reenable_autotrade now (w_kill w))"
  "fst (w_maybe_reenable now w) = fst (maybe_reenable_autotrade now (w_kill w))"
  by (simp_all add: w_maybe_reenable_def split: prod.splits)

end
