(* ===== verification/Risk_Limits.thy ===== *)
theory Risk_Limits
  imports World
begin

text \<open>
  The aggregate-risk enforcer, \<open>enforce_aggregate_risk\<close> and
  \<open>risk_block_status\<close> of \<open>src/RiskguardV1.1/limits/limits.py\<close>. One call is
  one tick: it loads the persisted state, decays a stale attempt counter, and
  then takes one of three branches, in the code's order: the first run (empty
  baseline) records the current tickets and closes nothing; a risk at or below
  the threshold rolls the baseline forward and may end a block; a risk above
  the threshold closes every ticket outside the baseline, counts one attempt per
  such ticket and arms the kill switch once the attempts reach the maximum.
  Every \<open>_now_utc()\<close> of one call is the same instant \<open>now\<close>.
\<close>

record limits_params =
  threshold_pct :: real
  max_block_attempts :: int
  block_minutes :: int

text \<open>The \<open>1e-9\<close> of the threshold comparison.\<close>

definition risk_epsilon :: real where
  "risk_epsilon = 1 / 1000000000"

text \<open>\<open>max(1, int(block_minutes)) * 60\<close> seconds.\<close>

definition block_window :: "int \<Rightarrow> int" where
  "block_window bm = minutes (max 1 bm)"

text \<open>
  The report dictionary. The \<open>closed\<close> and \<open>failed\<close> entries of the source carry
  the ticket, the symbol and the broker's answer; the model keeps the ticket.
\<close>

record limits_report =
  rep_now :: timestamp
  rep_threshold_pct :: real
  rep_total_risk_pct :: real
  rep_positions :: nat
  rep_baseline_tickets :: "ticket list"
  new_tickets_detected :: "ticket list"
  rep_closed :: "ticket list"
  rep_failed :: "ticket list"
  attempts_before :: int
  attempts_after :: int
  risk_block_active_before :: bool
  risk_block_active_after :: bool
  kill_switch_active_before :: bool
  kill_switch_active_after :: bool
  kill_switch_until_before :: "timestamp option"
  kill_switch_until_after :: "timestamp option"
  kill_switch_armed_now :: bool
  rep_block_minutes :: int

subsection \<open>The steps of one call\<close>

text \<open>Lines 83--88: forget attempts that are older than the block window.\<close>

definition decay_attempts :: "int \<Rightarrow> timestamp \<Rightarrow> limits_state \<Rightarrow> limits_state" where
  "decay_attempts bm now st =
     (case last_attempt_at st of
        None \<Rightarrow> st
      | Some t \<Rightarrow>
          if 0 < block_attempts st \<and> block_window bm \<le> now - t
          then st\<lparr>block_attempts := 0, last_attempt_at := None\<rparr> else st)"

text \<open>Lines 90--109: the report before any branch.\<close>

definition initial_report ::
  "limits_params \<Rightarrow> timestamp \<Rightarrow> snapshot \<Rightarrow> limits_state \<Rightarrow> bool \<Rightarrow> bool \<Rightarrow> kill_state
   \<Rightarrow> limits_report" where
  "initial_report prm now snap st rba kab ks =
     \<lparr>rep_now = now, rep_threshold_pct = threshold_pct prm,
      rep_total_risk_pct = total_risk_pct snap,
      rep_positions = card (tickets_of (snap_positions snap)),
      rep_baseline_tickets = baseline_tickets st,
      new_tickets_detected = [], rep_closed = [], rep_failed = [],
      attempts_before = block_attempts st, attempts_after = block_attempts st,
      risk_block_active_before = rba, risk_block_active_after = rba,
      kill_switch_active_before = kab, kill_switch_active_after = kab,
      kill_switch_until_before = ks_until ks, kill_switch_until_after = ks_until ks,
      kill_switch_armed_now = False, rep_block_minutes = block_minutes prm\<rparr>"

text \<open>Lines 111--120: the first run records the current tickets and closes nothing.\<close>

definition first_run ::
  "snapshot \<Rightarrow> limits_state \<Rightarrow> bool \<Rightarrow> limits_report \<Rightarrow> world \<Rightarrow> limits_report \<times> world" where
  "first_run snap st rba rep w =
     (let st' = st\<lparr>baseline_tickets := sorted_list_of_set (tickets_of (snap_positions snap)),
                   risk_block_active := rba\<rparr>
      in (rep\<lparr>rep_baseline_tickets := baseline_tickets st', attempts_after := block_attempts st,
              risk_block_active_after := rba\<rparr>,
          w\<lparr>w_limits := save_state st'\<rparr>))"

text \<open>
  Lines 122--137: the risk is within the threshold. A block whose kill switch
  has expired ends with a clean reset; the baseline becomes the current tickets.
\<close>

definition risk_ok_branch ::
  "snapshot \<Rightarrow> limits_state \<Rightarrow> bool \<Rightarrow> bool \<Rightarrow> limits_report \<Rightarrow> world \<Rightarrow> limits_report \<times> world" where
  "risk_ok_branch snap st rba kab rep w =
     (let reset = (rba \<and> \<not> kab);
          st1 = (if reset then st\<lparr>block_attempts := 0, last_attempt_at := None\<rparr> else st);
          rba' = (if reset then False else rba);
          st' = st1\<lparr>baseline_tickets := sorted_list_of_set (tickets_of (snap_positions snap)),
                    risk_block_active := rba'\<rparr>
      in (rep\<lparr>rep_baseline_tickets := baseline_tickets st', attempts_after := block_attempts st',
              risk_block_active_after := rba'\<rparr>,
          w\<lparr>w_limits := save_state st'\<rparr>))"

text \<open>Lines 140--141: the tickets of the snapshot outside the baseline.\<close>

definition new_tickets :: "snapshot \<Rightarrow> ticket list \<Rightarrow> ticket list" where
  "new_tickets snap baseline =
     filter (\<lambda>t. t \<notin> set baseline) (sorted_list_of_set (tickets_of (snap_positions snap)))"

text \<open>
  Lines 144--159: one close request per position of the snapshot whose ticket
  is new, in the snapshot's order; a failure does not stop the others.
\<close>

fun close_new_tickets ::
  "(position \<Rightarrow> bool) \<Rightarrow> ticket list \<Rightarrow> position list \<Rightarrow> world
   \<Rightarrow> ticket list \<times> ticket list \<times> world" where
  "close_new_tickets c new [] w = ([], [], w)"
| "close_new_tickets c new (p # ps) w =
     (if pos_ticket p \<notin> set new then close_new_tickets c new ps w
      else (let (ok, w1) = w_close c p w;
                (cl, fl, w2) = close_new_tickets c new ps w1
            in if ok then (pos_ticket p # cl, fl, w2) else (cl, pos_ticket p # fl, w2)))"

text \<open>
  Lines 139--198: the risk exceeds the threshold. The new tickets are those of
  the snapshot outside the baseline (the source iterates a Python set; the
  model takes them in ascending order). Each counts one attempt; at the maximum
  the block is on and, unless the kill switch is already active, it is armed
  for the block window. An active kill switch always reads as a block. The
  baseline is saved unchanged.
\<close>

definition risk_exceeded_branch ::
  "limits_params \<Rightarrow> timestamp \<Rightarrow> snapshot \<Rightarrow> (position \<Rightarrow> bool) \<Rightarrow> limits_state
   \<Rightarrow> bool \<Rightarrow> bool \<Rightarrow> limits_report \<Rightarrow> world \<Rightarrow> limits_report \<times> world" where
  "risk_exceeded_branch prm now snap c st rba kab rep w =
     (let new = new_tickets snap (baseline_tickets st);
          (cl, fl, w1) = close_new_tickets c new (snap_positions snap) w;
          attempts = (if new = [] then block_attempts st else block_attempts st + int (length new));
          last = (if new = [] then last_attempt_at st else Some now);
          trip = (max_block_attempts prm \<le> attempts);
          arm = (trip \<and> \<not> kab);
          w2 = (if arm then w_arm (now + block_window (block_minutes prm)) w1 else w1);
          ks_act = kill_active now (w_kill w2);
          rba' = (rba \<or> trip \<or> ks_act);
          st' = st\<lparr>block_attempts := attempts, last_attempt_at := last, risk_block_active := rba'\<rparr>
      in (rep\<lparr>new_tickets_detected := new, rep_closed := cl, rep_failed := fl,
              attempts_after := attempts, risk_block_active_after := rba',
              kill_switch_active_after := ks_act, kill_switch_until_after := ks_until (w_kill w2),
              kill_switch_armed_now := arm\<rparr>,
          w2\<lparr>w_limits := save_state st'\<rparr>))"

subsection \<open>The whole call\<close>

definition enforce_aggregate_risk ::
  "limits_params \<Rightarrow> timestamp \<Rightarrow> snapshot \<Rightarrow> (position \<Rightarrow> bool) \<Rightarrow> world
   \<Rightarrow> limits_report \<times> world" where
  "enforce_aggregate_risk prm now snap c w =
     (let st0 = load_state (w_limits w);
          kab = kill_active now (w_kill w);
          rba = (risk_block_active st0 \<or> kab);
          st = decay_attempts (block_minutes prm) now st0;
          rep = initial_report prm now snap st rba kab (w_kill w)
      in if baseline_tickets st = [] then first_run snap st rba rep w
         else if total_risk_pct snap \<le> threshold_pct prm + risk_epsilon
         then risk_ok_branch snap st rba kab rep w
         else risk_exceeded_branch prm now snap c st rba kab rep w)"

text \<open>\<open>risk_block_status()\<close> (lines 200--210).\<close>

record block_status =
  bs_risk_block_active :: bool
  bs_block_attempts :: int
  bs_baseline_tickets :: "ticket list"
  bs_kill_switch_active :: bool
  bs_kill_switch_until :: "timestamp option"

definition risk_block_status :: "timestamp \<Rightarrow> world \<Rightarrow> block_status" where
  "risk_block_status now w =
     (let st = load_state (w_limits w); ks = w_kill w
      in \<lparr>bs_risk_block_active = (risk_block_active st \<or> kill_active now ks),
          bs_block_attempts = block_attempts st,
          bs_baseline_tickets = baseline_tickets st,
          bs_kill_switch_active = kill_active now ks,
          bs_kill_switch_until = ks_until ks\<rparr>)"

text \<open>A sequence of ticks, each with its instant and its snapshot.\<close>

fun limits_run ::
  "limits_params \<Rightarrow> (position \<Rightarrow> bool) \<Rightarrow> (timestamp \<times> snapshot) list \<Rightarrow> world
   \<Rightarrow> limits_report list \<times> world" where
  "limits_run prm c [] w = ([], w)"
| "limits_run prm c ((now, snap) # ts) w =
     (let (r, w1) = enforce_aggregate_risk prm now snap c w;
          (rs, w2) = limits_run prm c ts w1
      in (r # rs, w2))"

subsection \<open>Example data\<close>

text \<open>
  Concrete inputs for the scenarios of the specification (section 8) and for
  the witnesses: positions on EURUSD, the default parameters of the source
  (\<open>AGGREGATE_MAX_RISK\<close> 5.0, \<open>AGGREGATE_MAX_ATTEMPTS\<close> 3,
  \<open>AGGREGATE_BLOCK_MINUTES\<close> 60), a world with no state file and one with a
  given state.
\<close>

definition ex_pos :: "ticket \<Rightarrow> position" where
  "ex_pos t = \<lparr>pos_ticket = t, pos_symbol = ''EURUSD'', pos_type = 0, pos_volume = 1,
                pos_open_time = None\<rparr>"

definition ex_snap :: "real \<Rightarrow> ticket list \<Rightarrow> snapshot" where
  "ex_snap r ts = \<lparr>total_risk_pct = r, snap_positions = map ex_pos ts\<rparr>"

definition ex_params :: limits_params where
  "ex_params = \<lparr>threshold_pct = 5, max_block_attempts = 3, block_minutes = 60\<rparr>"

definition ex_world :: "ticket list \<Rightarrow> world" where
  "ex_world ts = \<lparr>w_limits = NoFile, w_kill = ks_empty,
     w_engine = \<lparr>eng_positions = map ex_pos ts, eng_autotrading = True\<rparr>\<rparr>"

definition ex_world_at :: "limits_state \<Rightarrow> kill_state \<Rightarrow> ticket list \<Rightarrow> world" where
  "ex_world_at st ks ts = \<lparr>w_limits = save_state st, w_kill = ks,
     w_engine = \<lparr>eng_positions = map ex_pos ts, eng_autotrading = True\<rparr>\<rparr>"

definition ex_state :: "ticket list \<Rightarrow> int \<Rightarrow> timestamp option \<Rightarrow> bool \<Rightarrow> limits_state" where
  "ex_state b a l rb = \<lparr>baseline_tickets = b, block_attempts = a, last_attempt_at = l,
                        risk_block_active = rb\<rparr>"

subsection \<open>Lemmas on the steps\<close>

lemma decay_attempts_sel [simp]:
  "baseline_tickets (decay_attempts bm now st) = baseline_tickets st"
  "risk_block_active (decay_attempts bm now st) = risk_block_active st"
  by (simp_all add: decay_attempts_def split: option.splits)

lemma decay_attempts_stale:
  "0 < block_attempts st \<Longrightarrow> last_attempt_at st = Some t \<Longrightarrow> block_window bm \<le> now - t \<Longrightarrow>
     decay_attempts bm now st = st\<lparr>block_attempts := 0, last_attempt_at := None\<rparr>"
  by (simp add: decay_attempts_def)

lemma block_window_pos: "0 < block_window bm"
  by (simp add: block_window_def minutes_def)

lemma set_new_tickets [simp]:
  "set (new_tickets snap b) = tickets_of (snap_positions snap) - set b"
  by (auto simp: new_tickets_def)

lemma new_tickets_Nil_iff [simp]:
  "new_tickets snap b = [] \<longleftrightarrow> tickets_of (snap_positions snap) \<subseteq> set b"
  by (metis Diff_eq_empty_iff set_empty set_new_tickets)

lemma length_new_tickets:
  "length (new_tickets snap b) = card (tickets_of (snap_positions snap) - set b)"
proof -
  have "distinct (new_tickets snap b)" by (simp add: new_tickets_def)
  then show ?thesis by (metis distinct_card set_new_tickets)
qed

lemma initial_report_sel [simp]:
  "rep_closed (initial_report prm now snap st rba kab ks) = []"
  "rep_failed (initial_report prm now snap st rba kab ks) = []"
  "new_tickets_detected (initial_report prm now snap st rba kab ks) = []"
  "attempts_before (initial_report prm now snap st rba kab ks) = block_attempts st"
  "risk_block_active_before (initial_report prm now snap st rba kab ks) = rba"
  "kill_switch_active_before (initial_report prm now snap st rba kab ks) = kab"
  by (simp_all add: initial_report_def)

text \<open>One step of the close loop, as an elimination rule for the proofs by induction.\<close>

lemma close_new_tickets_step:
  assumes "pos_ticket p \<in> set new" "close_new_tickets c new (p # ps) w = (cl, fl, w')"
  obtains ok w1 cl1 fl1 where "w_close c p w = (ok, w1)" "close_new_tickets c new ps w1 = (cl1, fl1, w')"
    "cl = (if ok then pos_ticket p # cl1 else cl1)" "fl = (if ok then fl1 else pos_ticket p # fl1)"
proof -
  obtain ok w1 where w1: "w_close c p w = (ok, w1)" by fastforce
  obtain cl1 fl1 w2 where r: "close_new_tickets c new ps w1 = (cl1, fl1, w2)"
    by (cases "close_new_tickets c new ps w1")
  from assms w1 r have "w2 = w'" "cl = (if ok then pos_ticket p # cl1 else cl1)"
    "fl = (if ok then fl1 else pos_ticket p # fl1)"
    by (auto split: if_splits)
  with w1 r that show ?thesis by blast
qed

lemma close_new_tickets_frame:
  "close_new_tickets c new ps w = (cl, fl, w') \<Longrightarrow> w_limits w' = w_limits w \<and> w_kill w' = w_kill w"
proof (induction ps arbitrary: w cl fl w')
  case Nil
  then show ?case by simp
next
  case (Cons p ps)
  show ?case
  proof (cases "pos_ticket p \<in> set new")
    case False
    with Cons show ?thesis by simp
  next
    case True
    from this Cons.prems obtain ok w1 cl1 fl1 where
      "w_close c p w = (ok, w1)" "close_new_tickets c new ps w1 = (cl1, fl1, w')"
      by (rule close_new_tickets_step)
    with Cons.IH show ?thesis by (metis snd_conv w_close_frame)
  qed
qed

lemma close_new_tickets_tickets:
  "close_new_tickets c new ps w = (cl, fl, w') \<Longrightarrow> set cl \<union> set fl = set new \<inter> tickets_of ps"
proof (induction ps arbitrary: w cl fl w')
  case Nil
  then show ?case by simp
next
  case (Cons p ps)
  show ?case
  proof (cases "pos_ticket p \<in> set new")
    case False
    with Cons show ?thesis by auto
  next
    case True
    from this Cons.prems obtain ok w1 cl1 fl1 where
      "w_close c p w = (ok, w1)" "close_new_tickets c new ps w1 = (cl1, fl1, w')"
      "cl = (if ok then pos_ticket p # cl1 else cl1)" "fl = (if ok then fl1 else pos_ticket p # fl1)"
      by (rule close_new_tickets_step)
    with Cons.IH True show ?thesis by auto
  qed
qed

subsection \<open>The three branches\<close>

text \<open>The branch a call takes, with the values it hands to the branch.\<close>

lemma enforce_aggregate_risk_cases:
  fixes prm now snap c w
  defines "st0 \<equiv> load_state (w_limits w)"
  defines "kab \<equiv> kill_active now (w_kill w)"
  defines "st \<equiv> decay_attempts (block_minutes prm) now st0"
  defines "rep \<equiv> initial_report prm now snap st (risk_block_active st0 \<or> kab) kab (w_kill w)"
  obtains (first) "baseline_tickets st0 = []"
      "enforce_aggregate_risk prm now snap c w = first_run snap st (risk_block_active st0 \<or> kab) rep w"
  | (ok) "baseline_tickets st0 \<noteq> []" "total_risk_pct snap \<le> threshold_pct prm + risk_epsilon"
      "enforce_aggregate_risk prm now snap c w =
         risk_ok_branch snap st (risk_block_active st0 \<or> kab) kab rep w"
  | (over) "baseline_tickets st0 \<noteq> []" "threshold_pct prm + risk_epsilon < total_risk_pct snap"
      "enforce_aggregate_risk prm now snap c w =
         risk_exceeded_branch prm now snap c st (risk_block_active st0 \<or> kab) kab rep w"
  unfolding st0_def kab_def st_def rep_def enforce_aggregate_risk_def Let_def
  by (cases "baseline_tickets (load_state (w_limits w)) = []";
      cases "total_risk_pct snap \<le> threshold_pct prm + risk_epsilon") (simp_all add: not_le)

lemma first_run_result:
  assumes "first_run snap st rba rep w = (r, w')"
  shows "rep_closed r = rep_closed rep" "rep_failed r = rep_failed rep"
    "new_tickets_detected r = new_tickets_detected rep"
    "attempts_before r = attempts_before rep" "attempts_after r = block_attempts st"
    "risk_block_active_after r = rba" "w_kill w' = w_kill w" "w_engine w' = w_engine w"
    "w_limits w' = save_state (st\<lparr>baseline_tickets := sorted_list_of_set (tickets_of (snap_positions snap)),
        risk_block_active := rba\<rparr>)"
  using assms [symmetric] by (simp_all add: first_run_def Let_def)

lemma risk_ok_branch_result:
  assumes "risk_ok_branch snap st rba kab rep w = (r, w')"
  shows "rep_closed r = rep_closed rep" "rep_failed r = rep_failed rep"
    "new_tickets_detected r = new_tickets_detected rep"
    "attempts_before r = attempts_before rep"
    "attempts_after r = (if rba \<and> \<not> kab then 0 else block_attempts st)"
    "risk_block_active_after r = (rba \<and> kab)" "w_kill w' = w_kill w" "w_engine w' = w_engine w"
    "w_limits w' = save_state (st\<lparr>block_attempts := (if rba \<and> \<not> kab then 0 else block_attempts st),
        last_attempt_at := (if rba \<and> \<not> kab then None else last_attempt_at st),
        baseline_tickets := sorted_list_of_set (tickets_of (snap_positions snap)),
        risk_block_active := (rba \<and> kab)\<rparr>)"
  using assms [symmetric] by (simp_all add: risk_ok_branch_def Let_def) auto

lemma risk_exceeded_branch_result:
  assumes cnt: "close_new_tickets c (new_tickets snap (baseline_tickets st)) (snap_positions snap) w
                  = (cl, fl, w1)"
    and br: "risk_exceeded_branch prm now snap c st rba kab rep w = (r, w')"
  defines "new \<equiv> new_tickets snap (baseline_tickets st)"
  defines "att \<equiv> (if new = [] then block_attempts st else block_attempts st + int (length new))"
  defines "arm \<equiv> max_block_attempts prm \<le> att \<and> \<not> kab"
  defines "w2 \<equiv> (if arm then w_arm (now + block_window (block_minutes prm)) w1 else w1)"
  shows "rep_closed r = cl" "rep_failed r = fl" "new_tickets_detected r = new"
    "attempts_after r = att" "attempts_before r = attempts_before rep"
    "kill_switch_armed_now r = arm"
    "risk_block_active_after r = (rba \<or> max_block_attempts prm \<le> att \<or> kill_active now (w_kill w2))"
    "w_kill w' = w_kill w2" "w_engine w' = w_engine w2"
    "w_limits w' = save_state (st\<lparr>block_attempts := att,
        last_attempt_at := (if new = [] then last_attempt_at st else Some now),
        risk_block_active := (rba \<or> max_block_attempts prm \<le> att \<or> kill_active now (w_kill w2))\<rparr>)"
  unfolding new_def att_def arm_def w2_def using br [symmetric]
  by (simp_all add: risk_exceeded_branch_def cnt Let_def)

lemma decay_attempts_idem:
  "decay_attempts bm now (decay_attempts bm now st) = decay_attempts bm now st"
  by (auto simp: decay_attempts_def split: option.splits)

lemma decay_attempts_zero:
  "block_attempts st \<le> 0 \<Longrightarrow> decay_attempts bm now st = st"
  by (simp add: decay_attempts_def split: option.splits)

lemma decay_attempts_update:
  "decay_attempts bm now (st\<lparr>baseline_tickets := b, risk_block_active := x\<rparr>) =
     (decay_attempts bm now st)\<lparr>baseline_tickets := b, risk_block_active := x\<rparr>"
  by (simp add: decay_attempts_def split: option.splits)

text \<open>
  What one call closes and which baseline it saves, whichever branch it takes:
  only an over-threshold call with a non-empty baseline closes anything, and
  then exactly the tickets outside the baseline; every other call saves the
  current tickets as the baseline.
\<close>

lemma enforce_closes_new_only:
  assumes run: "enforce_aggregate_risk prm now snap c w = (r, w')"
  shows "if baseline_tickets (load_state (w_limits w)) \<noteq> []
            \<and> threshold_pct prm + risk_epsilon < total_risk_pct snap
         then set (rep_closed r) \<union> set (rep_failed r) =
                tickets_of (snap_positions snap) - set (baseline_tickets (load_state (w_limits w)))
              \<and> baseline_tickets (load_state (w_limits w')) = baseline_tickets (load_state (w_limits w))
         else rep_closed r = [] \<and> rep_failed r = []
              \<and> baseline_tickets (load_state (w_limits w')) =
                  sorted_list_of_set (tickets_of (snap_positions snap))"
proof (cases rule: enforce_aggregate_risk_cases [where prm = prm and now = now and snap = snap
      and c = c and w = w])
  case first
  then show ?thesis by (simp add: first_run_result [OF trans [OF first(2) [symmetric] run]])
next
  case ok
  then show ?thesis by (simp add: risk_ok_branch_result [OF trans [OF ok(3) [symmetric] run]])
next
  case over
  let ?st = "decay_attempts (block_minutes prm) now (load_state (w_limits w))"
  obtain cl fl w1 where cnt: "close_new_tickets c (new_tickets snap (baseline_tickets ?st))
      (snap_positions snap) w = (cl, fl, w1)"
    by (cases "close_new_tickets c (new_tickets snap (baseline_tickets ?st)) (snap_positions snap) w")
  have "set cl \<union> set fl =
      set (new_tickets snap (baseline_tickets ?st)) \<inter> tickets_of (snap_positions snap)"
    using cnt by (rule close_new_tickets_tickets)
  with over show ?thesis
    by (auto simp: risk_exceeded_branch_result [OF cnt trans [OF over(3) [symmetric] run]])
qed

lemmas limits_example_defs =
  ex_pos_def ex_snap_def ex_params_def ex_world_def ex_world_at_def ex_state_def

section \<open>Properties of the aggregate enforcer\<close>

text \<open>
  C1. Over the threshold, with a baseline on record, a call issues a close
  request for exactly the tickets of the snapshot outside the baseline (each
  one closed or failed), adds one attempt per such ticket, and keeps the
  baseline as it was.
\<close>

theorem enforce_exceeded_closes_new:
  assumes run: "enforce_aggregate_risk prm now snap c w = (r, w')"
    and base: "baseline_tickets (load_state (w_limits w)) \<noteq> []"
    and over: "threshold_pct prm + risk_epsilon < total_risk_pct snap"
  shows "set (rep_closed r) \<union> set (rep_failed r) =
           tickets_of (snap_positions snap) - set (baseline_tickets (load_state (w_limits w)))
         \<and> attempts_after r = attempts_before r
             + int (card (tickets_of (snap_positions snap)
                          - set (baseline_tickets (load_state (w_limits w)))))
         \<and> baseline_tickets (load_state (w_limits w')) = baseline_tickets (load_state (w_limits w))"
proof (cases rule: enforce_aggregate_risk_cases [where prm = prm and now = now and snap = snap
      and c = c and w = w])
  case first
  with base show ?thesis by simp
next
  case ok
  with over show ?thesis by simp
next
  case over
  let ?st = "decay_attempts (block_minutes prm) now (load_state (w_limits w))"
  obtain cl fl w1 where cnt: "close_new_tickets c (new_tickets snap (baseline_tickets ?st))
      (snap_positions snap) w = (cl, fl, w1)"
    by (cases "close_new_tickets c (new_tickets snap (baseline_tickets ?st)) (snap_positions snap) w")
  have "set cl \<union> set fl =
      set (new_tickets snap (baseline_tickets ?st)) \<inter> tickets_of (snap_positions snap)"
    using cnt by (rule close_new_tickets_tickets)
  then show ?thesis
    by (auto simp: risk_exceeded_branch_result [OF cnt trans [OF over(3) [symmetric] run]]
        length_new_tickets)
qed

theorem enforce_exceeded_closes_new_witness:
  "baseline_tickets (load_state (w_limits (ex_world_at (ex_state [1, 2] 0 None False) ks_empty [1, 2, 100])))
     \<noteq> []
   \<and> threshold_pct ex_params + risk_epsilon < total_risk_pct (ex_snap 7 [1, 2, 100])
   \<and> set (rep_closed (fst (enforce_aggregate_risk ex_params 1010 (ex_snap 7 [1, 2, 100]) (\<lambda>_. True)
           (ex_world_at (ex_state [1, 2] 0 None False) ks_empty [1, 2, 100]))))
     \<union> set (rep_failed (fst (enforce_aggregate_risk ex_params 1010 (ex_snap 7 [1, 2, 100]) (\<lambda>_. True)
           (ex_world_at (ex_state [1, 2] 0 None False) ks_empty [1, 2, 100])))) = {100}"
proof -
  have h: "baseline_tickets (load_state (w_limits (ex_world_at (ex_state [1, 2] 0 None False) ks_empty
      [1, 2, 100]))) \<noteq> []"
    "threshold_pct ex_params + risk_epsilon < total_risk_pct (ex_snap 7 [1, 2, 100])"
    by (simp_all add: limits_example_defs risk_epsilon_def)
  from enforce_exceeded_closes_new [OF surjective_pairing h] h show ?thesis
    by (simp add: limits_example_defs insert_Diff_if)
qed

text \<open>
  C2. Over the threshold, while the kill switch is not active, the block is on
  after the call exactly when it was recorded as on or the attempts have reached
  the maximum; reaching the maximum arms the kill switch until \<open>now\<close> plus the
  block window; below the maximum the kill switch is left as it was.
\<close>

theorem enforce_block_trip:
  assumes run: "enforce_aggregate_risk prm now snap c w = (r, w')"
    and base: "baseline_tickets (load_state (w_limits w)) \<noteq> []"
    and over: "threshold_pct prm + risk_epsilon < total_risk_pct snap"
    and idle: "\<not> kill_active now (w_kill w)"
  shows "(risk_block_active_after r \<longleftrightarrow>
            risk_block_active (load_state (w_limits w)) \<or> max_block_attempts prm \<le> attempts_after r)
         \<and> (max_block_attempts prm \<le> attempts_after r \<longrightarrow>
              ks_until (w_kill w') = Some (now + block_window (block_minutes prm)))
         \<and> (attempts_after r < max_block_attempts prm \<longrightarrow> w_kill w' = w_kill w)"
proof (cases rule: enforce_aggregate_risk_cases [where prm = prm and now = now and snap = snap
      and c = c and w = w])
  case first
  with base show ?thesis by simp
next
  case ok
  with over show ?thesis by simp
next
  case over
  let ?st = "decay_attempts (block_minutes prm) now (load_state (w_limits w))"
  obtain cl fl w1 where cnt: "close_new_tickets c (new_tickets snap (baseline_tickets ?st))
      (snap_positions snap) w = (cl, fl, w1)"
    by (cases "close_new_tickets c (new_tickets snap (baseline_tickets ?st)) (snap_positions snap) w")
  have k1: "w_kill w1 = w_kill w"
    using close_new_tickets_frame [OF cnt] by simp
  have later: "now < now + block_window (block_minutes prm)"
    by (simp add: block_window_pos)
  note res = risk_exceeded_branch_result [OF cnt trans [OF over(3) [symmetric] run]]
  show ?thesis
  proof (cases "max_block_attempts prm \<le> attempts_after r")
    case True
    with idle later k1 res show ?thesis
      by (simp add: set_kill_until_inactive)
  next
    case False
    with idle k1 res show ?thesis by simp
  qed
qed

theorem enforce_block_trip_witness:
  "baseline_tickets (load_state (w_limits (ex_world_at (ex_state [1, 2] 2 (Some 1000) False) ks_empty
      [1, 2, 100]))) \<noteq> []
   \<and> threshold_pct ex_params + risk_epsilon < total_risk_pct (ex_snap 7 [1, 2, 100])
   \<and> \<not> kill_active 1010 (w_kill (ex_world_at (ex_state [1, 2] 2 (Some 1000) False) ks_empty [1, 2, 100]))
   \<and> risk_block_active_after (fst (enforce_aggregate_risk ex_params 1010 (ex_snap 7 [1, 2, 100])
        (\<lambda>_. True) (ex_world_at (ex_state [1, 2] 2 (Some 1000) False) ks_empty [1, 2, 100])))
   \<and> ks_until (w_kill (snd (enforce_aggregate_risk ex_params 1010 (ex_snap 7 [1, 2, 100])
        (\<lambda>_. True) (ex_world_at (ex_state [1, 2] 2 (Some 1000) False) ks_empty [1, 2, 100]))))
     = Some (1010 + block_window 60)"
proof -
  let ?w = "ex_world_at (ex_state [1, 2] 2 (Some 1000) False) ks_empty [1, 2, 100]"
  let ?e = "enforce_aggregate_risk ex_params 1010 (ex_snap 7 [1, 2, 100]) (\<lambda>_. True) ?w"
  have h: "baseline_tickets (load_state (w_limits ?w)) \<noteq> []"
    "threshold_pct ex_params + risk_epsilon < total_risk_pct (ex_snap 7 [1, 2, 100])"
    "\<not> kill_active 1010 (w_kill ?w)"
    by (simp_all add: limits_example_defs risk_epsilon_def kill_active_def ks_empty_def)
  have att: "max_block_attempts ex_params \<le> attempts_after (fst ?e)" "block_minutes ex_params = 60"
    by code_simp+
  have "(risk_block_active_after (fst ?e) \<longleftrightarrow>
          risk_block_active (load_state (w_limits ?w)) \<or> max_block_attempts ex_params \<le> attempts_after (fst ?e))
        \<and> (max_block_attempts ex_params \<le> attempts_after (fst ?e) \<longrightarrow>
             ks_until (w_kill (snd ?e)) = Some (1010 + block_window (block_minutes ex_params)))
        \<and> (attempts_after (fst ?e) < max_block_attempts ex_params \<longrightarrow> w_kill (snd ?e) = w_kill ?w)"
    by (rule enforce_block_trip [where prm = ex_params and now = 1010 and snap = "ex_snap 7 [1, 2, 100]"
          and c = "\<lambda>_. True" and w = ?w, OF surjective_pairing h])
  with h att show ?thesis by simp
qed

text \<open>
  C3. A position present when the enforcer first observes the account is never
  treated as a violation on the next call, whatever the risk then and whatever
  happened to the engine and the kill switch in between: the first call closes
  nothing and the second closes none of the tickets of the first snapshot.
\<close>

theorem enforce_first_observation_tolerated:
  assumes fresh: "baseline_tickets (load_state (w_limits w)) = []"
    and tick1: "enforce_aggregate_risk prm now1 snap1 c w = (r1, w1)"
    and between: "w_limits v = w_limits w1"
    and tick2: "enforce_aggregate_risk prm now2 snap2 c' v = (r2, w2)"
  shows "rep_closed r1 = [] \<and> rep_failed r1 = []
         \<and> (set (rep_closed r2) \<union> set (rep_failed r2)) \<inter> tickets_of (snap_positions snap1) = {}"
proof -
  from enforce_closes_new_only [OF tick1] fresh
  have r1: "rep_closed r1 = [] \<and> rep_failed r1 = []"
    and b1: "set (baseline_tickets (load_state (w_limits v))) = tickets_of (snap_positions snap1)"
    by (simp_all add: between)
  from enforce_closes_new_only [OF tick2] b1 r1 show ?thesis
    by (auto split: if_splits)
qed

theorem enforce_first_observation_tolerated_witness:
  "baseline_tickets (load_state (w_limits (ex_world [1, 2, 100]))) = []
   \<and> rep_closed (fst (enforce_aggregate_risk ex_params 1000 (ex_snap 3 [1, 2]) (\<lambda>_. True)
        (ex_world [1, 2, 100]))) = []
   \<and> (set (rep_closed (fst (enforce_aggregate_risk ex_params 1010 (ex_snap 7 [1, 2, 100]) (\<lambda>_. True)
          (snd (enforce_aggregate_risk ex_params 1000 (ex_snap 3 [1, 2]) (\<lambda>_. True) (ex_world [1, 2, 100]))))))
      \<union> set (rep_failed (fst (enforce_aggregate_risk ex_params 1010 (ex_snap 7 [1, 2, 100]) (\<lambda>_. True)
          (snd (enforce_aggregate_risk ex_params 1000 (ex_snap 3 [1, 2]) (\<lambda>_. True) (ex_world [1, 2, 100])))))))
     \<inter> tickets_of (snap_positions (ex_snap 3 [1, 2])) = {}"
proof -
  have h: "baseline_tickets (load_state (w_limits (ex_world [1, 2, 100]))) = []"
    by (simp add: ex_world_def)
  from enforce_first_observation_tolerated [OF h surjective_pairing refl surjective_pairing] h
  show ?thesis by blast
qed

text \<open>
  C4. A call never leaves a ticket it tried to close (closed or failed) in the
  baseline it saves.
\<close>

theorem enforce_closed_not_in_baseline:
  "case enforce_aggregate_risk prm now snap c w of (r, w') \<Rightarrow>
     (set (rep_closed r) \<union> set (rep_failed r)) \<inter> set (baseline_tickets (load_state (w_limits w'))) = {}"
proof (cases "enforce_aggregate_risk prm now snap c w")
  case (Pair r w')
  from enforce_closes_new_only [OF Pair] show ?thesis
    by (auto simp: Pair split: if_splits)
qed

text \<open>
  C5. While the kill switch is active, a call reports the risk block as on and
  saves it as on, whichever branch it takes: the two signals are or-ed.
\<close>

theorem enforce_kill_forces_block:
  assumes kab: "kill_active now (w_kill w)" and run: "enforce_aggregate_risk prm now snap c w = (r, w')"
  shows "risk_block_active_after r \<and> risk_block_active (load_state (w_limits w'))"
proof (cases rule: enforce_aggregate_risk_cases [where prm = prm and now = now and snap = snap
      and c = c and w = w])
  case first
  with kab show ?thesis by (simp add: first_run_result [OF trans [OF first(2) [symmetric] run]])
next
  case ok
  with kab show ?thesis by (simp add: risk_ok_branch_result [OF trans [OF ok(3) [symmetric] run]])
next
  case over
  let ?st = "decay_attempts (block_minutes prm) now (load_state (w_limits w))"
  obtain cl fl w1 where cnt: "close_new_tickets c (new_tickets snap (baseline_tickets ?st))
      (snap_positions snap) w = (cl, fl, w1)"
    by (cases "close_new_tickets c (new_tickets snap (baseline_tickets ?st)) (snap_positions snap) w")
  with kab show ?thesis
    by (simp add: risk_exceeded_branch_result [OF cnt trans [OF over(3) [symmetric] run]])
qed

theorem enforce_kill_forces_block_witness:
  "kill_active 1010 (w_kill (ex_world_at (ex_state [1] 0 None False) \<lparr>ks_until = Some 5000\<rparr> [1]))
   \<and> risk_block_active_after (fst (enforce_aggregate_risk ex_params 1010 (ex_snap 3 [1]) (\<lambda>_. True)
       (ex_world_at (ex_state [1] 0 None False) \<lparr>ks_until = Some 5000\<rparr> [1])))"
proof -
  have h: "kill_active 1010 (w_kill (ex_world_at (ex_state [1] 0 None False) \<lparr>ks_until = Some 5000\<rparr> [1]))"
    by (simp add: ex_world_at_def kill_active_def)
  from enforce_kill_forces_block [OF h surjective_pairing] h show ?thesis by simp
qed

text \<open>
  C6. Attempts older than the block window are forgotten: when the recorded
  attempts are positive and the last one lies at least the block window back,
  the call starts from zero attempts and ends with one attempt per new ticket it
  detected in this call.
\<close>

theorem enforce_decay:
  assumes run: "enforce_aggregate_risk prm now snap c w = (r, w')"
    and pending: "0 < block_attempts (load_state (w_limits w))"
    and last: "last_attempt_at (load_state (w_limits w)) = Some t"
    and stale: "block_window (block_minutes prm) \<le> now - t"
  shows "attempts_before r = 0 \<and> attempts_after r = int (length (new_tickets_detected r))"
proof -
  have dec: "decay_attempts (block_minutes prm) now (load_state (w_limits w)) =
      (load_state (w_limits w))\<lparr>block_attempts := 0, last_attempt_at := None\<rparr>"
    using pending last stale by (rule decay_attempts_stale)
  show ?thesis
  proof (cases rule: enforce_aggregate_risk_cases [where prm = prm and now = now and snap = snap
        and c = c and w = w])
    case first
    then show ?thesis by (simp add: first_run_result [OF trans [OF first(2) [symmetric] run]] dec)
  next
    case ok
    then show ?thesis by (simp add: risk_ok_branch_result [OF trans [OF ok(3) [symmetric] run]] dec)
  next
    case over
    let ?st = "decay_attempts (block_minutes prm) now (load_state (w_limits w))"
    obtain cl fl w1 where cnt: "close_new_tickets c (new_tickets snap (baseline_tickets ?st))
        (snap_positions snap) w = (cl, fl, w1)"
      by (cases "close_new_tickets c (new_tickets snap (baseline_tickets ?st)) (snap_positions snap) w")
    then show ?thesis
      by (simp add: risk_exceeded_branch_result [OF cnt trans [OF over(3) [symmetric] run]] dec)
  qed
qed

theorem enforce_decay_witness:
  "0 < block_attempts (load_state (w_limits (ex_world_at (ex_state [1] 2 (Some 0) False) ks_empty [1, 100])))
   \<and> last_attempt_at (load_state (w_limits (ex_world_at (ex_state [1] 2 (Some 0) False) ks_empty [1, 100])))
       = Some 0
   \<and> block_window (block_minutes ex_params) \<le> 4000 - 0
   \<and> attempts_before (fst (enforce_aggregate_risk ex_params 4000 (ex_snap 7 [1, 100]) (\<lambda>_. True)
        (ex_world_at (ex_state [1] 2 (Some 0) False) ks_empty [1, 100]))) = 0"
proof -
  have h: "0 < block_attempts (load_state (w_limits (ex_world_at (ex_state [1] 2 (Some 0) False) ks_empty
      [1, 100])))"
    "last_attempt_at (load_state (w_limits (ex_world_at (ex_state [1] 2 (Some 0) False) ks_empty [1, 100])))
       = Some 0"
    "block_window (block_minutes ex_params) \<le> 4000 - 0"
    by (simp_all add: limits_example_defs block_window_def minutes_def)
  from enforce_decay [OF surjective_pairing h] h show ?thesis by simp
qed

text \<open>
  C7. Two calls in succession at the same instant with an unchanged snapshot
  whose risk is within the threshold, the first with a baseline on record:
  the second call changes nothing (state file, kill switch, engine), closes
  nothing and keeps the attempts the first one left.
\<close>

theorem enforce_risk_ok_idempotent:
  assumes tick1: "enforce_aggregate_risk prm now snap c w = (r1, w1)"
    and base: "baseline_tickets (load_state (w_limits w)) \<noteq> []"
    and within: "total_risk_pct snap \<le> threshold_pct prm + risk_epsilon"
    and tick2: "enforce_aggregate_risk prm now snap c' w1 = (r2, w2)"
  shows "w2 = w1 \<and> rep_closed r2 = [] \<and> rep_failed r2 = []
         \<and> attempts_before r2 = attempts_after r1 \<and> attempts_after r2 = attempts_after r1"
proof -
  define st0 where "st0 = load_state (w_limits w)"
  define kab where "kab = kill_active now (w_kill w)"
  define rba where "rba = (risk_block_active st0 \<or> kab)"
  define st where "st = decay_attempts (block_minutes prm) now st0"
  define st1 where "st1 = st\<lparr>block_attempts := (if rba \<and> \<not> kab then 0 else block_attempts st),
        last_attempt_at := (if rba \<and> \<not> kab then None else last_attempt_at st),
        baseline_tickets := sorted_list_of_set (tickets_of (snap_positions snap)),
        risk_block_active := (rba \<and> kab)\<rparr>"
  have b1: "risk_ok_branch snap st rba kab (initial_report prm now snap st rba kab (w_kill w)) w = (r1, w1)"
    using tick1 base within unfolding st_def st0_def rba_def kab_def
    by (simp add: enforce_aggregate_risk_def Let_def)
  note res1 = risk_ok_branch_result [OF b1]
  have s1: "w_limits w1 = save_state st1" by (simp add: res1 st1_def)
  then have l1: "load_state (w_limits w1) = st1" by simp
  have k1: "w_kill w1 = w_kill w" "w_engine w1 = w_engine w" by (simp_all add: res1)
  have d1: "decay_attempts (block_minutes prm) now st1 = st1"
  proof (cases "rba \<and> \<not> kab")
    case True
    then show ?thesis by (simp add: st1_def decay_attempts_zero)
  next
    case False
    have "st1 = st\<lparr>baseline_tickets := sorted_list_of_set (tickets_of (snap_positions snap)),
        risk_block_active := (rba \<and> kab)\<rparr>"
      using False unfolding st1_def by (simp only: if_False if_not_P) simp
    then show ?thesis by (simp add: decay_attempts_update st_def decay_attempts_idem)
  qed
  have kab1: "kill_active now (w_kill w1) = kab" by (simp add: k1 kab_def)
  have rb1: "(risk_block_active st1 \<or> kab) = kab"
    by (auto simp: st1_def rba_def)
  have fix1: "st1\<lparr>baseline_tickets := sorted_list_of_set (tickets_of (snap_positions snap)),
      risk_block_active := kab\<rparr> = st1"
    unfolding st1_def rba_def by (cases kab) simp_all
  have main: "rep_closed r2 = [] \<and> rep_failed r2 = [] \<and> w_limits w2 = w_limits w1
      \<and> w_kill w2 = w_kill w1 \<and> w_engine w2 = w_engine w1
      \<and> attempts_before r2 = block_attempts st1 \<and> attempts_after r2 = block_attempts st1"
  proof (cases rule: enforce_aggregate_risk_cases [where prm = prm and now = now
      and snap = snap and c = c' and w = w1])
    case first
    note res2 = first_run_result [OF trans [OF first(2) [symmetric] tick2]]
    have "w_limits w2 = save_state st1"
      by (simp add: res2 l1 d1 kab1 rb1 fix1)
    then show ?thesis by (simp add: res2 l1 d1 kab1 rb1 s1)
  next
    case ok
    note res2 = risk_ok_branch_result [OF trans [OF ok(3) [symmetric] tick2]]
    have "w_limits w2 = save_state st1"
      by (simp add: res2 l1 d1 kab1 rb1 fix1)
    then show ?thesis by (simp add: res2 l1 d1 kab1 rb1 s1)
  next
    case over
    with within show ?thesis by simp
  qed
  then have "w2 = w1" by (simp add: world.equality)
  moreover have "attempts_after r1 = block_attempts st1" by (simp add: res1 st1_def)
  ultimately show ?thesis using main by simp
qed

theorem enforce_risk_ok_idempotent_witness:
  "baseline_tickets (load_state (w_limits (ex_world_at (ex_state [1] 1 (Some 900) False) ks_empty [1, 2])))
     \<noteq> []
   \<and> total_risk_pct (ex_snap 3 [1, 2]) \<le> threshold_pct ex_params + risk_epsilon
   \<and> snd (enforce_aggregate_risk ex_params 1000 (ex_snap 3 [1, 2]) (\<lambda>_. True)
        (snd (enforce_aggregate_risk ex_params 1000 (ex_snap 3 [1, 2]) (\<lambda>_. True)
          (ex_world_at (ex_state [1] 1 (Some 900) False) ks_empty [1, 2]))))
     = snd (enforce_aggregate_risk ex_params 1000 (ex_snap 3 [1, 2]) (\<lambda>_. True)
          (ex_world_at (ex_state [1] 1 (Some 900) False) ks_empty [1, 2]))"
proof -
  have h: "baseline_tickets (load_state (w_limits (ex_world_at (ex_state [1] 1 (Some 900) False) ks_empty
      [1, 2]))) \<noteq> []"
    "total_risk_pct (ex_snap 3 [1, 2]) \<le> threshold_pct ex_params + risk_epsilon"
    by (simp_all add: limits_example_defs risk_epsilon_def)
  from enforce_risk_ok_idempotent [OF surjective_pairing h surjective_pairing] h show ?thesis by simp
qed

section \<open>Scenarios\<close>






end
