(* ===== verification/Calendar.thy ===== *)
theory Calendar
  imports RG_Prelude
begin

text \<open>
  The proleptic Gregorian calendar of Python's \<open>datetime\<close> module, as the
  persisted datetimes of the aggregate enforcer use it: \<open>_is_leap\<close>,
  \<open>_days_in_month\<close>, \<open>_days_before_month\<close>, \<open>_days_before_year\<close> and
  \<open>_ymd2ord\<close>, the ordinal of a date, day 1 being 0001-01-01; and the range
  checks of the \<open>date\<close> constructor. The lemmas give the length of each year and
  month, which the reading and printing of dates rely on.
\<close>

definition is_leap :: "int \<Rightarrow> bool" where
  "is_leap y = (y mod 4 = 0 \<and> (y mod 100 \<noteq> 0 \<or> y mod 400 = 0))"

definition days_in_month :: "int \<Rightarrow> int \<Rightarrow> int" where
  "days_in_month y m =
     (if m = 2 \<and> is_leap y then 29 else [31, 28, 31, 30, 31, 30, 31, 31, 30, 31, 30, 31] ! nat (m - 1))"

definition days_before_month :: "int \<Rightarrow> int \<Rightarrow> int" where
  "days_before_month y m =
     [0, 31, 59, 90, 120, 151, 181, 212, 243, 273, 304, 334] ! nat (m - 1)
     + (if 2 < m \<and> is_leap y then 1 else 0)"

definition days_before_year :: "int \<Rightarrow> int" where
  "days_before_year y = (let z = y - 1 in z * 365 + z div 4 - z div 100 + z div 400)"

definition ymd2ord :: "int \<Rightarrow> int \<Rightarrow> int \<Rightarrow> int" where
  "ymd2ord y m d = days_before_year y + days_before_month y m + d"

definition valid_date :: "int \<Rightarrow> int \<Rightarrow> int \<Rightarrow> bool" where
  "valid_date y m d = (1 \<le> y \<and> y \<le> 9999 \<and> 1 \<le> m \<and> m \<le> 12 \<and> 1 \<le> d \<and> d \<le> days_in_month y m)"

subsection \<open>Lemmas\<close>

lemma div_pred:
  assumes "0 < (k::int)"
  shows "(y - 1) div k = (if y mod k = 0 then y div k - 1 else y div k)"
proof -
  have y: "k * (y div k) + y mod k = y" by (rule mult_div_mod_eq)
  have r: "0 \<le> y mod k" "y mod k < k" using assms by simp_all
  show ?thesis
  proof (cases "y mod k = 0")
    case True
    have "(y - 1) div k = y div k - 1"
      by (rule int_div_pos_eq [where r = "k - 1"]) (use True y assms in \<open>simp_all add: algebra_simps\<close>)
    with True show ?thesis by simp
  next
    case False
    have "(y - 1) div k = y div k"
      by (rule int_div_pos_eq [where r = "y mod k - 1"]) (use False y r in \<open>simp_all add: algebra_simps\<close>)
    with False show ?thesis by simp
  qed
qed

lemma mod_dvd_trans:
  assumes "(y::int) mod a = 0" and "b dvd a"
  shows "y mod b = 0"
proof -
  from assms(1) have "a dvd y" by (simp add: dvd_eq_mod_eq_0)
  with assms(2) have "b dvd y" by (rule dvd_trans)
  then show ?thesis by (simp add: dvd_eq_mod_eq_0)
qed

lemma days_before_year_step:
  "days_before_year (y + 1) = days_before_year y + (if is_leap y then 366 else 365)"
  using mod_dvd_trans [of y 100 4] mod_dvd_trans [of y 400 100]
  by (auto simp: days_before_year_def Let_def is_leap_def div_pred)


lemma days_before_year_less: "days_before_year y < days_before_year (y + 1)"
  by (simp add: days_before_year_step)

lemma days_before_year_add:
  "days_before_year y + 365 * int k \<le> days_before_year (y + int k)"
proof (induction k)
  case 0
  then show ?case by simp
next
  case (Suc k)
  have step: "days_before_year (y + int k) + 365 \<le> days_before_year (y + int (Suc k))"
    using days_before_year_step [of "y + int k"] by (simp add: ac_simps)
  have "365 * int (Suc k) = 365 * int k + 365" by simp
  with Suc.IH step show ?case by linarith
qed

lemma days_before_year_strict_mono:
  assumes "a < b"
  shows "days_before_year a < days_before_year b"
proof -
  obtain k where k: "b = a + int (Suc k)" using assms by (metis add.commute zless_iff_Suc_zadd)
  have "days_before_year a + 365 * int (Suc k) \<le> days_before_year b"
    unfolding k by (rule days_before_year_add)
  then show ?thesis by simp
qed

lemma days_before_year_mono_iff [simp]:
  "days_before_year a < days_before_year b \<longleftrightarrow> a < b"
  by (metis days_before_year_strict_mono linorder_neqE_linordered_idom order_less_asym)

lemma days_before_year_le_iff [simp]:
  "days_before_year a \<le> days_before_year b \<longleftrightarrow> a \<le> b"
  by (meson days_before_year_mono_iff not_le)

lemma month_cases:
  "1 \<le> m \<Longrightarrow> m \<le> (12::int) \<Longrightarrow>
     m = 1 \<or> m = 2 \<or> m = 3 \<or> m = 4 \<or> m = 5 \<or> m = 6 \<or> m = 7 \<or> m = 8 \<or> m = 9 \<or> m = 10
     \<or> m = 11 \<or> m = 12"
  by arith

lemma days_before_month_step:
  "1 \<le> m \<Longrightarrow> m < 12 \<Longrightarrow> days_before_month y (m + 1) = days_before_month y m + days_in_month y m"
  by (drule month_cases, simp) (auto simp: days_before_month_def days_in_month_def)

lemma days_before_month_1 [simp]: "days_before_month y 1 = 0"
  by (simp add: days_before_month_def)

lemma year_length:
  "days_before_month y 12 + days_in_month y 12 = days_before_year (y + 1) - days_before_year y"
  by (simp add: days_before_month_def days_in_month_def days_before_year_step)

lemma days_in_month_bounds:
  "1 \<le> m \<Longrightarrow> m \<le> 12 \<Longrightarrow> 28 \<le> days_in_month y m \<and> days_in_month y m \<le> 31"
  by (drule month_cases, simp) (auto simp: days_in_month_def)

end
