(* ===== verification/Iso_Time.thy ===== *)
theory Iso_Time
  imports Calendar
begin

text \<open>
  The datetimes the aggregate enforcer persists: \<open>_now_utc().isoformat()\<close>
  writes them and \<open>_from_iso_any\<close> (\<open>datetime.fromisoformat\<close>) reads them back
  (\<open>src/RiskguardV1.1/limits/limits.py\<close>, lines 37--48 and 164). A datetime is
  the proleptic Gregorian calendar of Python's \<open>datetime\<close> module: the ordinal
  of a date is \<open>_ymd2ord\<close>, day 1 being 0001-01-01; a timestamp is whole
  seconds since 1970-01-01T00:00:00 UTC, whose ordinal is 719163. The ordinal
  is turned back into a date by a search for the year and the month, which is
  what \<open>_ord2ymd\<close> computes in closed form. The reader follows the grammar of
  \<open>fromisoformat\<close> of Python 3.7--3.10, the versions the code's replacement of a
  trailing \<open>Z\<close> is written for: \<open>YYYY-MM-DD\<close>, any one separator character,
  then \<open>HH[:MM[:SS[.fff[fff]]]]\<close> and an optional offset \<open>+HH:MM[:SS[.ffffff]]\<close>
  or \<open>-...\<close>; its digits are ASCII digits, as the C implementation requires.
  A datetime with an offset is aware; its timestamp is the UTC instant, rounded
  down to the second. The code's datetimes carry microseconds; a timestamp of
  the model is a whole second, so \<open>isoformat\<close> prints none.
\<close>

text \<open>The year of ordinal \<open>n\<close>: the \<open>y\<close> with \<open>days_before_year y < n \<le> days_before_year (y + 1)\<close>.\<close>

function year_up :: "int \<Rightarrow> int \<Rightarrow> int" where
  "year_up n y = (if days_before_year (y + 1) < n then year_up n (y + 1) else y)"
  by pat_completeness auto
termination
proof (relation "measure (\<lambda>(n, y). nat (n - days_before_year (y + 1)))")
  fix n y :: int
  assume "days_before_year (y + 1) < n"
  moreover have "days_before_year (y + 1) < days_before_year (y + 1 + 1)" by simp
  ultimately show "((n, y + 1), n, y) \<in> measure (\<lambda>(n, y). nat (n - days_before_year (y + 1)))"
    by simp
qed simp

function year_down :: "int \<Rightarrow> int \<Rightarrow> int" where
  "year_down n y = (if n \<le> days_before_year y then year_down n (y - 1) else y)"
  by pat_completeness auto
termination
proof (relation "measure (\<lambda>(n, y). nat (days_before_year y - n + 1))")
  fix n y :: int
  assume "n \<le> days_before_year y"
  moreover have "days_before_year (y - 1) < days_before_year y" by simp
  ultimately show "((n, y - 1), n, y) \<in> measure (\<lambda>(n, y). nat (days_before_year y - n + 1))"
    by (simp del: days_before_year_mono_iff days_before_year_le_iff)
qed simp

declare year_up.simps [simp del] year_down.simps [simp del]

definition year_of :: "int \<Rightarrow> int" where
  "year_of n = year_up n (year_down n (n * 400 div 146097 + 1))"

text \<open>The month and day of the \<open>r\<close>-th day of year \<open>y\<close>, counting from month \<open>m\<close>.\<close>

function md_search :: "int \<Rightarrow> int \<Rightarrow> int \<Rightarrow> int \<times> int" where
  "md_search y m r =
     (if m < 12 \<and> days_in_month y m < r then md_search y (m + 1) (r - days_in_month y m) else (m, r))"
  by pat_completeness auto
termination
  by (relation "measure (\<lambda>(y, m, r). nat (12 - m))") auto

declare md_search.simps [simp del]

definition ord2ymd :: "int \<Rightarrow> int \<times> int \<times> int" where
  "ord2ymd n = (let y = year_of n in (y, md_search y 1 (n - days_before_year y)))"

definition epoch_ord :: int where
  "epoch_ord = 719163"

subsection \<open>Printing: \<open>isoformat()\<close> of an aware UTC datetime\<close>

definition digit_char :: "int \<Rightarrow> char" where
  "digit_char d = char_of (48 + nat d)"

text \<open>\<open>'%0wd' % v\<close> for \<open>0 \<le> v < 10 ^ w\<close>: the last \<open>w\<close> decimal digits.\<close>

primrec zpad :: "nat \<Rightarrow> int \<Rightarrow> string" where
  "zpad 0 v = []"
| "zpad (Suc w) v = zpad w (v div 10) @ [digit_char (v mod 10)]"

definition isoformat_utc :: "timestamp \<Rightarrow> string" where
  "isoformat_utc t =
     (let (y, m, d) = ord2ymd (t div 86400 + epoch_ord); s = t mod 86400
      in zpad 4 y @ ''-'' @ zpad 2 m @ ''-'' @ zpad 2 d @ ''T''
         @ zpad 2 (s div 3600) @ '':'' @ zpad 2 (s mod 3600 div 60) @ '':'' @ zpad 2 (s mod 60)
         @ ''+00:00'')"

subsection \<open>Reading: \<open>datetime.fromisoformat\<close>\<close>

definition digit_val :: "char \<Rightarrow> int option" where
  "digit_val c = (let k = (of_char c :: nat) in if 48 \<le> k \<and> k \<le> 57 then Some (int k - 48) else None)"

text \<open>A field of ASCII digits, read as a decimal number.\<close>

fun parse_digits :: "string \<Rightarrow> int option" where
  "parse_digits [] = Some 0"
| "parse_digits (c # cs) =
     (case digit_val c of None \<Rightarrow> None
      | Some d \<Rightarrow> map_option (\<lambda>v. d * 10 ^ length cs + v) (parse_digits cs))"

declare parse_digits.simps [simp]

definition parse_field :: "string \<Rightarrow> int option" where
  "parse_field s = (if s = [] then None else parse_digits s)"

text \<open>\<open>_parse_isoformat_date\<close>: \<open>YYYY-MM-DD\<close>.\<close>

definition parse_iso_date :: "string \<Rightarrow> (int \<times> int \<times> int) option" where
  "parse_iso_date s =
     (if length s = 10 \<and> s ! 4 = CHR ''-'' \<and> s ! 7 = CHR ''-'' then
        (case (parse_field (take 4 s), parse_field (take 2 (drop 5 s)), parse_field (drop 8 s)) of
           (Some y, Some m, Some d) \<Rightarrow> Some (y, m, d) | _ \<Rightarrow> None)
      else None)"

text \<open>
  \<open>_parse_hh_mm_ss_ff\<close>: up to three two-digit fields separated by colons,
  then an optional fraction of three or six digits, read as microseconds.
\<close>

fun parse_hms :: "nat \<Rightarrow> string \<Rightarrow> (int list \<times> string) option" where
  "parse_hms k s =
     (if length s < 2 then None
      else case parse_field (take 2 s) of None \<Rightarrow> None
        | Some v \<Rightarrow>
            (let rest = drop 2 s
             in if rest = [] \<or> 2 \<le> k then Some ([v], rest)
                else if hd rest \<noteq> CHR '':'' then None
                else map_option (\<lambda>(vs, r). (v # vs, r)) (parse_hms (Suc k) (tl rest))))"

declare parse_hms.simps [simp del]

definition parse_hh_mm_ss_ff :: "string \<Rightarrow> (int \<times> int \<times> int \<times> int) option" where
  "parse_hh_mm_ss_ff s =
     (case parse_hms 0 s of None \<Rightarrow> None
      | Some (vs, rest) \<Rightarrow>
          (let comps = vs @ replicate (3 - length vs) 0
           in if rest = [] then Some (comps ! 0, comps ! 1, comps ! 2, 0)
              else if hd rest \<noteq> CHR ''.'' \<or> length (tl rest) \<notin> {3, 6} then None
              else case parse_field (tl rest) of None \<Rightarrow> None
                | Some f \<Rightarrow> Some (comps ! 0, comps ! 1, comps ! 2,
                                  if length (tl rest) = 3 then f * 1000 else f)))"

text \<open>
  \<open>_parse_isoformat_time\<close>: the offset starts at the first \<open>-\<close> or, without
  one, at the first \<open>+\<close>. The offset is the signed duration in microseconds, or
  \<open>None\<close> for a naive time.
\<close>

definition parse_iso_time :: "string \<Rightarrow> ((int \<times> int \<times> int \<times> int) \<times> int option) option" where
  "parse_iso_time s =
     (if length s < 2 then None
      else let tz = (if CHR ''-'' \<in> set s then CHR ''-'' else CHR ''+'')
      in if tz \<notin> set s then map_option (\<lambda>c. (c, None)) (parse_hh_mm_ss_ff s)
         else let timestr = takeWhile (\<lambda>c. c \<noteq> tz) s;
                  tzstr = tl (dropWhile (\<lambda>c. c \<noteq> tz) s);
                  sign = (if tz = CHR ''-'' then -1 else 1)
         in if length tzstr \<notin> {5, 8, 15} then None
            else case (parse_hh_mm_ss_ff timestr, parse_hh_mm_ss_ff tzstr) of
                   (Some c, Some (oh, om, os, ous)) \<Rightarrow>
                     Some (c, Some (sign * (((oh * 60 + om) * 60 + os) * 1000000 + ous)))
                 | _ \<Rightarrow> None)"

text \<open>The range checks of the \<open>datetime\<close> and \<open>timezone\<close> constructors.\<close>

definition valid_time :: "int \<times> int \<times> int \<times> int \<Rightarrow> bool" where
  "valid_time c = (case c of (h, mi, s, us) \<Rightarrow>
     0 \<le> h \<and> h < 24 \<and> 0 \<le> mi \<and> mi < 60 \<and> 0 \<le> s \<and> s < 60 \<and> 0 \<le> us \<and> us < 1000000)"

definition valid_offset :: "int option \<Rightarrow> bool" where
  "valid_offset off = (case off of None \<Rightarrow> True | Some ofs \<Rightarrow> \<bar>ofs\<bar> < 24 * 3600 * 1000000)"

text \<open>
  \<open>datetime.fromisoformat\<close>: the instant in microseconds since the epoch
  (the UTC instant of an aware datetime; the wall-clock reading taken as UTC for
  a naive one) and whether the datetime is aware.
\<close>

definition fromisoformat :: "string \<Rightarrow> (int \<times> bool) option" where
  "fromisoformat s =
     (case parse_iso_date (take 10 s) of None \<Rightarrow> None
      | Some (y, m, d) \<Rightarrow>
          (let tstr = drop 11 s;
               tm = (if tstr = [] then Some ((0, 0, 0, 0), None) else parse_iso_time tstr)
           in case tm of None \<Rightarrow> None
              | Some ((h, mi, sec, us), off) \<Rightarrow>
                  if valid_date y m d \<and> valid_time (h, mi, sec, us) \<and> valid_offset off
                  then Some (((ymd2ord y m d - epoch_ord) * 86400 + h * 3600 + mi * 60 + sec) * 1000000
                              + us - (case off of None \<Rightarrow> 0 | Some ofs \<Rightarrow> ofs),
                             off \<noteq> None)
                  else None))"

text \<open>
  The range of \<open>datetime\<close>: a timestamp is printable and readable when its
  day lies in the years \<open>MINYEAR = 1\<close> to \<open>MAXYEAR = 9999\<close>.
\<close>

definition datetime_range :: "timestamp \<Rightarrow> bool" where
  "datetime_range t = (1 \<le> t div 86400 + epoch_ord \<and> t div 86400 + epoch_ord \<le> days_before_year 10000)"

text \<open>\<open>str.replace\<close> of a one-character string.\<close>

definition replace_char :: "char \<Rightarrow> string \<Rightarrow> string \<Rightarrow> string" where
  "replace_char c new s = concat (map (\<lambda>x. if x = c then new else [x]) s)"

subsection \<open>Lemmas: the year, month and day of an ordinal\<close>

lemma year_down_post: "days_before_year (year_down n y) < n"
proof (induction n y rule: year_down.induct)
  case (1 n y)
  then show ?case by (cases "n \<le> days_before_year y") (simp_all add: year_down.simps [of n y])
qed

lemma year_up_post:
  "days_before_year y < n \<Longrightarrow> days_before_year (year_up n y) < n \<and> n \<le> days_before_year (year_up n y + 1)"
proof (induction n y rule: year_up.induct)
  case (1 n y)
  then show ?case by (cases "days_before_year (y + 1) < n") (simp_all add: year_up.simps [of n y])
qed

lemma year_of_bounds: "days_before_year (year_of n) < n \<and> n \<le> days_before_year (year_of n + 1)"
  unfolding year_of_def by (rule year_up_post [OF year_down_post])

lemma year_of_unique:
  assumes "days_before_year y < n" "n \<le> days_before_year (y + 1)"
  shows "year_of n = y"
proof (rule ccontr)
  assume ne: "year_of n \<noteq> y"
  from year_of_bounds [of n] assms show False
  proof (cases "year_of n < y")
    case True
    then have "days_before_year (year_of n + 1) \<le> days_before_year y" by simp
    with year_of_bounds [of n] assms show False by linarith
  next
    case False
    with ne have "y + 1 \<le> year_of n" by simp
    then have "days_before_year (y + 1) \<le> days_before_year (year_of n)" by simp
    with year_of_bounds [of n] assms show False by linarith
  qed
qed

lemma md_search_correct:
  assumes "1 \<le> m" "m \<le> 12" "1 \<le> r" "days_before_month y m + r \<le> days_before_year (y + 1) - days_before_year y"
    and "md_search y m r = (m', d)"
  shows "m \<le> m' \<and> m' \<le> 12 \<and> 1 \<le> d \<and> d \<le> days_in_month y m'
    \<and> days_before_month y m' + d = days_before_month y m + r"
  using assms
proof (induction y m r rule: md_search.induct)
  case (1 y m r)
  show ?case
  proof (cases "m < 12 \<and> days_in_month y m < r")
    case True
    have "md_search y (m + 1) (r - days_in_month y m) = (m', d)"
      using True "1.prems"(5) by (simp add: md_search.simps [of y m r])
    moreover have "days_before_month y (m + 1) = days_before_month y m + days_in_month y m"
      using True "1.prems"(1) by (simp add: days_before_month_step)
    ultimately show ?thesis using "1.IH" [OF True] True "1.prems"(1-4) by fastforce
  next
    case False
    then have md: "m' = m" "d = r" using "1.prems"(5) by (auto simp add: md_search.simps [of y m r])
    have "r \<le> days_in_month y m"
    proof (cases "m < 12")
      case True
      with False show ?thesis by simp
    next
      case False
      with "1.prems"(2,4) year_length [of y] show ?thesis by simp
    qed
    with md "1.prems"(1-3) show ?thesis by simp
  qed
qed

lemma ord2ymd_correct:
  assumes "ord2ymd n = (y, m, d)"
  shows "ymd2ord y m d = n \<and> 1 \<le> m \<and> m \<le> 12 \<and> 1 \<le> d \<and> d \<le> days_in_month y m
    \<and> days_before_year y < n \<and> n \<le> days_before_year (y + 1)"
proof -
  have y: "y = year_of n" and md: "md_search y 1 (n - days_before_year y) = (m, d)"
    using assms by (auto simp add: ord2ymd_def Let_def)
  have b: "days_before_year y < n" "n \<le> days_before_year (y + 1)"
    using year_of_bounds [of n] y by simp_all
  from md_search_correct [OF _ _ _ _ md] b show ?thesis by (simp add: ymd2ord_def)
qed

lemma ord2ymd_range:
  assumes "ord2ymd n = (y, m, d)" "1 \<le> n" "n \<le> days_before_year 10000"
  shows "valid_date y m d"
proof -
  note c = ord2ymd_correct [OF assms(1)]
  have "1 \<le> y"
  proof (rule ccontr)
    assume "\<not> 1 \<le> y"
    then have "days_before_year (y + 1) \<le> days_before_year 1" by simp
    with c assms(2) show False by (simp add: days_before_year_def)
  qed
  moreover have "y \<le> 9999"
  proof (rule ccontr)
    assume "\<not> y \<le> 9999"
    then have "days_before_year 10000 \<le> days_before_year y" by simp
    with c assms(3) show False by linarith
  qed
  ultimately show ?thesis using c by (simp add: valid_date_def)
qed

subsection \<open>Lemmas: decimal fields\<close>

lemma length_zpad [simp]: "length (zpad w v) = w"
  by (induction w arbitrary: v) simp_all

lemma digit_val_digit_char [simp]: "0 \<le> d \<Longrightarrow> d \<le> 9 \<Longrightarrow> digit_val (digit_char d) = Some d"
  by (simp add: digit_val_def digit_char_def)

lemma zpad_digit: "c \<in> set (zpad w v) \<Longrightarrow> digit_val c \<noteq> None"
  by (induction w arbitrary: v) auto

lemma parse_digits_snoc:
  "parse_digits (xs @ [c]) =
     (case parse_digits xs of None \<Rightarrow> None | Some v \<Rightarrow> map_option (\<lambda>d. 10 * v + d) (digit_val c))"
  by (induction xs) (auto split: option.splits simp: algebra_simps option.map_comp comp_def)

lemma parse_digits_zpad: "0 \<le> v \<Longrightarrow> v < 10 ^ w \<Longrightarrow> parse_digits (zpad w v) = Some v"
proof (induction w arbitrary: v)
  case (Suc w)
  then have "parse_digits (zpad w (v div 10)) = Some (v div 10)" by simp
  then show ?case by (simp add: parse_digits_snoc)
qed simp

lemma parse_field_zpad: "0 < w \<Longrightarrow> 0 \<le> v \<Longrightarrow> v < 10 ^ w \<Longrightarrow> parse_field (zpad w v) = Some v"
proof -
  assume "0 < w" "0 \<le> v" "v < 10 ^ w"
  moreover from \<open>0 < w\<close> have "zpad w v \<noteq> []" using length_zpad [of w v] by (metis length_0_conv not_less0 less_irrefl)
  ultimately show ?thesis by (simp add: parse_field_def parse_digits_zpad)
qed

lemma nondigits: "digit_val CHR ''-'' = None" "digit_val CHR ''+'' = None" "digit_val CHR '':'' = None"
  by (simp_all add: digit_val_def)

lemma zpad_nondigit [simp]:
  "CHR ''-'' \<notin> set (zpad w v)" "CHR ''+'' \<notin> set (zpad w v)" "CHR '':'' \<notin> set (zpad w v)"
  using zpad_digit nondigits by metis+

lemma zpad_takeWhile:
  "digit_val c = None \<Longrightarrow> takeWhile (\<lambda>x. x \<noteq> c) (zpad w v @ ys) = zpad w v @ takeWhile (\<lambda>x. x \<noteq> c) ys"
  by (rule takeWhile_append2) (metis zpad_digit)

lemma zpad_dropWhile:
  "digit_val c = None \<Longrightarrow> dropWhile (\<lambda>x. x \<noteq> c) (zpad w v @ ys) = dropWhile (\<lambda>x. x \<noteq> c) ys"
  by (rule dropWhile_append2) (metis zpad_digit)

subsection \<open>Lemmas: reading back what \<open>isoformat\<close> prints\<close>

lemma parse_iso_date_zpad:
  assumes "0 \<le> y" "y < 10000" "0 \<le> m" "m < 100" "0 \<le> d" "d < 100"
  shows "parse_iso_date (zpad 4 y @ CHR ''-'' # zpad 2 m @ CHR ''-'' # zpad 2 d) = Some (y, m, d)"
  using assms by (simp add: parse_iso_date_def nth_append parse_field_zpad)

lemma parse_hh_mm_ss_ff_zpad:
  assumes "0 \<le> a" "a < 100" "0 \<le> b" "b < 100" "0 \<le> c" "c < 100"
  shows "parse_hh_mm_ss_ff (zpad 2 a @ CHR '':'' # zpad 2 b @ CHR '':'' # zpad 2 c) = Some (a, b, c, 0)"
  using assms
  by (simp add: parse_hh_mm_ss_ff_def parse_hms.simps [of 0] parse_hms.simps [of "Suc 0"]
      parse_hms.simps [of "Suc (Suc 0)"] parse_field_zpad)

lemma parse_hh_mm_ss_ff_zero: "parse_hh_mm_ss_ff ''00:00'' = Some (0, 0, 0, 0)"
  by (simp add: parse_hh_mm_ss_ff_def parse_hms.simps [of 0] parse_hms.simps [of "Suc 0"]
      parse_field_def digit_val_def)

lemma parse_iso_time_utc:
  assumes "0 \<le> a" "a < 100" "0 \<le> b" "b < 100" "0 \<le> c" "c < 100"
  shows "parse_iso_time (zpad 2 a @ CHR '':'' # zpad 2 b @ CHR '':'' # zpad 2 c @ ''+00:00'') = Some ((a, b, c, 0), Some 0)"
proof -
  have tw: "takeWhile (\<lambda>x. x \<noteq> CHR ''+'') (zpad 2 a @ CHR '':'' # zpad 2 b @ CHR '':'' # zpad 2 c @ ''+00:00'')
      = zpad 2 a @ CHR '':'' # zpad 2 b @ CHR '':'' # zpad 2 c"
    by (simp add: zpad_takeWhile nondigits)
  have dw: "dropWhile (\<lambda>x. x \<noteq> CHR ''+'') (zpad 2 a @ CHR '':'' # zpad 2 b @ CHR '':'' # zpad 2 c @ ''+00:00'')
      = ''+00:00''"
    by (simp add: zpad_dropWhile nondigits)
  show ?thesis using assms
    by (simp add: parse_iso_time_def Let_def tw dw parse_hh_mm_ss_ff_zpad parse_hh_mm_ss_ff_zero)
qed

lemma isoformat_utc_split:
  assumes "ord2ymd (t div 86400 + epoch_ord) = (y, m, d)"
  shows "isoformat_utc t =
     (zpad 4 y @ ''-'' @ zpad 2 m @ ''-'' @ zpad 2 d) @ ''T'' @
     (zpad 2 (t mod 86400 div 3600) @ CHR '':'' # zpad 2 (t mod 86400 mod 3600 div 60) @ CHR '':''
        # zpad 2 (t mod 86400 mod 60) @ ''+00:00'')"
  using assms by (simp add: isoformat_utc_def Let_def)

lemma seconds_of_day:
  fixes t :: int
  shows "(t div 86400 * 86400 + t mod 86400 div 3600 * 3600 + t mod 86400 mod 3600 div 60 * 60
           + t mod 86400 mod 60) = t"
proof -
  have a: "t mod 86400 mod 3600 = t mod 3600" by (rule mod_mod_cancel) simp
  have b: "t mod 86400 mod 60 = t mod 60" by (rule mod_mod_cancel) simp
  have c: "t mod 3600 mod 60 = t mod 60" by (rule mod_mod_cancel) simp
  have "t mod 3600 div 60 * 60 + t mod 3600 mod 60 = t mod 3600" by (rule div_mult_mod_eq)
  moreover have "t mod 86400 div 3600 * 3600 + t mod 86400 mod 3600 = t mod 86400" by (rule div_mult_mod_eq)
  moreover have "t div 86400 * 86400 + t mod 86400 = t" by (rule div_mult_mod_eq)
  ultimately show ?thesis unfolding a b using c by linarith
qed

lemma fromisoformat_aware:
  assumes "length ds = 10" "parse_iso_date ds = Some (y, m, d)" "ts \<noteq> []"
    "parse_iso_time ts = Some ((h, mi, s, us), Some ofs)"
    "valid_date y m d" "valid_time (h, mi, s, us)" "valid_offset (Some ofs)"
  shows "fromisoformat (ds @ c # ts) =
           Some (((ymd2ord y m d - epoch_ord) * 86400 + h * 3600 + mi * 60 + s) * 1000000 + us - ofs, True)"
  using assms by (simp add: fromisoformat_def)

lemma fromisoformat_isoformat_utc:
  assumes "datetime_range t"
  shows "fromisoformat (isoformat_utc t) = Some (t * 1000000, True)"
proof -
  obtain y m d where o: "ord2ymd (t div 86400 + epoch_ord) = (y, m, d)" by (cases "ord2ymd (t div 86400 + epoch_ord)") auto
  have vd: "valid_date y m d" using ord2ymd_range [OF o] assms by (simp add: datetime_range_def)
  have ymd: "ymd2ord y m d = t div 86400 + epoch_ord" using ord2ymd_correct [OF o] by simp
  have d31: "d \<le> 31" using vd days_in_month_bounds [of m y] by (simp add: valid_date_def)
  define ds where "ds = zpad 4 y @ CHR ''-'' # zpad 2 m @ CHR ''-'' # zpad 2 d"
  define ts where "ts = zpad 2 (t mod 86400 div 3600) @ CHR '':'' # zpad 2 (t mod 86400 mod 3600 div 60) @ CHR '':''
        # zpad 2 (t mod 86400 mod 60) @ ''+00:00''"
  have split: "isoformat_utc t = ds @ CHR ''T'' # ts" by (simp add: isoformat_utc_split [OF o] ds_def ts_def)
  have D: "parse_iso_date ds = Some (y, m, d)"
    unfolding ds_def using vd d31 by (intro parse_iso_date_zpad) (simp_all add: valid_date_def)
  have s: "0 \<le> t mod 86400" "t mod 86400 < 86400" by simp_all
  have h: "t mod 86400 div 3600 < 24" using s by linarith
  have h0: "0 \<le> t mod 86400 div 3600" by simp
  have "t mod 86400 mod 3600 \<le> 3599" using pos_mod_bound [of 3600 "t mod 86400"] by linarith
  then have mi: "t mod 86400 mod 3600 div 60 < 60" "0 \<le> t mod 86400 mod 3600 div 60"
    using zdiv_mono1 [of "t mod 86400 mod 3600" 3599 60] by simp_all
  have sc: "t mod 86400 mod 60 < 60" "0 \<le> t mod 86400 mod 60"
    using pos_mod_bound [of 60 "t mod 86400"] pos_mod_sign [of 60 "t mod 86400"] by linarith+
  have T: "parse_iso_time ts = Some ((t mod 86400 div 3600, t mod 86400 mod 3600 div 60, t mod 86400 mod 60, 0), Some 0)"
    unfolding ts_def by (rule parse_iso_time_utc) (use h h0 mi sc in linarith)+
  have vt: "valid_time (t mod 86400 div 3600, t mod 86400 mod 3600 div 60, t mod 86400 mod 60, 0)"
    using h h0 mi sc by (simp add: valid_time_def)
  have "fromisoformat (isoformat_utc t) =
      Some (((ymd2ord y m d - epoch_ord) * 86400 + t mod 86400 div 3600 * 3600 + t mod 86400 mod 3600 div 60 * 60
        + t mod 86400 mod 60) * 1000000 + 0 - 0, True)"
    unfolding split by (rule fromisoformat_aware [OF _ D _ T vd vt]) (simp_all add: ds_def ts_def valid_offset_def)
  also have "\<dots> = Some (t * 1000000, True)"
    using seconds_of_day [of t] by (simp only: ymd add_diff_cancel_right' diff_zero add_0_right)
  finally show ?thesis .
qed

end
