(* ===== verification/State_Json.thy ===== *)
theory State_Json
  imports Risk_Limits Iso_Time
begin

text \<open>
  The aggregate enforcer at the level of the JSON file it persists
  (\<open>src/RiskguardV1.1/limits/limits.py\<close>, \<open>_load_state\<close>, \<open>_from_iso_any\<close> and
  \<open>enforce_aggregate_risk\<close>, lines 24--198). \<open>_load_state\<close> returns whatever
  \<open>json.load\<close> reads, the call reads four keys of it through \<open>dict.get\<close>,
  \<open>int()\<close>, truthiness and \<open>_from_iso_any\<close>, and writes back the keys it
  changes, keeping every other key. Each read can raise on a file that is JSON
  but not the dictionary the code expects; the raise leaves the call before any
  close request or write. The theory holds the JSON values, the Python
  conversions the call applies to them, the enforcer over them, its
  abstraction to the record of \<open>State_Store\<close>, and the typing of a state file.
\<close>

subsection \<open>JSON values and the Python operations on them\<close>

text \<open>
  A value \<open>json.load\<close> returns. A float is a real (the model has no infinity
  or NaN); a string is a list of characters below 256; an object is the
  dictionary as the list of its entries in insertion order.
\<close>

datatype json = JNull | JBool bool | JInt int | JFloat real | JStr string
  | JArr "json list" | JObj "(string \<times> json) list"

datatype py_error = AttributeError | TypeError | ValueError

text \<open>The error monad: the first exception raised ends the call.\<close>

definition bind_err :: "py_error + 'a \<Rightarrow> ('a \<Rightarrow> py_error + 'b) \<Rightarrow> py_error + 'b" where
  "bind_err x f = (case x of Inl e \<Rightarrow> Inl e | Inr a \<Rightarrow> f a)"

text \<open>\<open>d.get(k, default)\<close> and \<open>d[k] = v\<close> on the entries of a dictionary.\<close>

definition dict_get :: "(string \<times> json) list \<Rightarrow> string \<Rightarrow> json \<Rightarrow> json" where
  "dict_get kvs k dflt = (case map_of kvs k of None \<Rightarrow> dflt | Some v \<Rightarrow> v)"

definition dict_set :: "string \<Rightarrow> json \<Rightarrow> (string \<times> json) list \<Rightarrow> (string \<times> json) list" where
  "dict_set k v kvs =
     (if k \<in> fst ` set kvs then map (\<lambda>(k', v'). if k' = k then (k, v) else (k', v')) kvs
      else kvs @ [(k, v)])"

text \<open>\<open>bool(v)\<close>.\<close>

fun py_truthy :: "json \<Rightarrow> bool" where
  "py_truthy JNull = False"
| "py_truthy (JBool b) = b"
| "py_truthy (JInt i) = (i \<noteq> 0)"
| "py_truthy (JFloat r) = (r \<noteq> 0)"
| "py_truthy (JStr s) = (s \<noteq> [])"
| "py_truthy (JArr xs) = (xs \<noteq> [])"
| "py_truthy (JObj kvs) = (kvs \<noteq> [])"

text \<open>
  The digits of an integer literal of \<open>int(str)\<close> in base 10: digits with
  single underscores between them.
\<close>

fun digits_us :: "string \<Rightarrow> bool" where
  "digits_us [] = False"
| "digits_us (c # cs) =
     (digit_val c \<noteq> None \<and>
      (case cs of [] \<Rightarrow> True | d # ds \<Rightarrow> if d = CHR ''_'' then digits_us ds else digits_us cs))"

text \<open>\<open>int(s)\<close> for a string: blanks around, an optional sign, the digits.\<close>

definition parse_int_str :: "string \<Rightarrow> int option" where
  "parse_int_str s =
     (let t = py_strip s;
          (sg, body) = (if t \<noteq> [] \<and> hd t = CHR ''-'' then (-1, tl t)
                        else if t \<noteq> [] \<and> hd t = CHR ''+'' then (1, tl t) else (1, t))
      in if digits_us body then map_option (\<lambda>v. sg * v) (parse_digits (filter (\<lambda>c. c \<noteq> CHR ''_'') body))
         else None)"

text \<open>\<open>int(v)\<close>: a float is truncated towards zero.\<close>

fun py_int :: "json \<Rightarrow> py_error + int" where
  "py_int (JBool b) = Inr (if b then 1 else 0)"
| "py_int (JInt i) = Inr i"
| "py_int (JFloat r) = Inr (if 0 \<le> r then \<lfloor>r\<rfloor> else \<lceil>r\<rceil>)"
| "py_int (JStr s) = (case parse_int_str s of None \<Rightarrow> Inl ValueError | Some i \<Rightarrow> Inr i)"
| "py_int JNull = Inl TypeError"
| "py_int (JArr xs) = Inl TypeError"
| "py_int (JObj kvs) = Inl TypeError"

text \<open>\<open>iter(v)\<close>: a list its elements, a string its characters, a dictionary its keys.\<close>

fun py_iter :: "json \<Rightarrow> py_error + json list" where
  "py_iter (JArr xs) = Inr xs"
| "py_iter (JStr s) = Inr (map (\<lambda>c. JStr [c]) s)"
| "py_iter (JObj kvs) = Inr (map (\<lambda>kv. JStr (fst kv)) kvs)"
| "py_iter _ = Inl TypeError"

fun py_ints :: "json list \<Rightarrow> py_error + int list" where
  "py_ints [] = Inr []"
| "py_ints (x # xs) = bind_err (py_int x) (\<lambda>i. bind_err (py_ints xs) (\<lambda>is. Inr (i # is)))"

text \<open>Line 140: \<open>set(int(x) for x in baseline)\<close>, as the list it is built from.\<close>

definition baseline_ints :: "json \<Rightarrow> py_error + int list" where
  "baseline_ints b = bind_err (py_iter b) py_ints"

text \<open>
  \<open>_from_iso_any\<close> (lines 40--48): no datetime for a value that is not a
  string or is blank; a trailing \<open>Z\<close> turns every \<open>Z\<close> into \<open>+00:00\<close>; a
  string \<open>fromisoformat\<close> refuses is no datetime either.
\<close>

definition from_iso_any :: "json \<Rightarrow> (int \<times> bool) option" where
  "from_iso_any v =
     (case v of
        JStr s \<Rightarrow>
          if py_strip s = [] then None
          else if last s = CHR ''Z'' then fromisoformat (replace_char (CHR ''Z'') ''+00:00'' s)
          else fromisoformat s
      | _ \<Rightarrow> None)"

subsection \<open>The state file and one call over it\<close>

datatype json_file = JNoFile | JUnreadable | JFile json

text \<open>\<open>_load_state\<close> (lines 24--31).\<close>

definition load_json :: "json_file \<Rightarrow> json" where
  "load_json f = (case f of JFile v \<Rightarrow> v | _ \<Rightarrow> JObj [])"

text \<open>
  Lines 83--88 with the reads before them: with attempts and a datetime, the
  idle time is \<open>_now_utc() - last_attempt_at\<close>, which raises \<open>TypeError\<close> for a
  naive datetime; the comparison is made on microseconds.
\<close>

definition json_decay ::
  "int \<Rightarrow> timestamp \<Rightarrow> int \<Rightarrow> (int \<times> bool) option \<Rightarrow> (string \<times> json) list
   \<Rightarrow> py_error + int \<times> (string \<times> json) list" where
  "json_decay bm now attempts last_at kvs =
     (case last_at of
        Some (us, aware) \<Rightarrow>
          if 0 < attempts then
            (if \<not> aware then Inl TypeError
             else if block_window bm * 1000000 \<le> now * 1000000 - us
             then Inr (0, dict_set ''last_attempt_at'' JNull (dict_set ''block_attempts'' (JInt 0) kvs))
             else Inr (attempts, kvs))
          else Inr (attempts, kvs)
      | None \<Rightarrow> Inr (attempts, kvs))"

text \<open>Lines 111--120.\<close>

definition json_first_run ::
  "snapshot \<Rightarrow> (string \<times> json) list \<Rightarrow> int \<Rightarrow> bool \<Rightarrow> limits_report \<Rightarrow> world
   \<Rightarrow> limits_report \<times> json_file \<times> world" where
  "json_first_run snap kvs attempts rba rep w =
     (let cur = sorted_list_of_set (tickets_of (snap_positions snap));
          kvs' = dict_set ''risk_block_active'' (JBool rba)
                   (dict_set ''block_attempts'' (JInt attempts)
                     (dict_set ''baseline_tickets'' (JArr (map JInt cur)) kvs))
      in (rep\<lparr>rep_baseline_tickets := cur, attempts_after := attempts, risk_block_active_after := rba\<rparr>,
          JFile (JObj kvs'), w))"

text \<open>Lines 122--137.\<close>

definition json_risk_ok ::
  "snapshot \<Rightarrow> (string \<times> json) list \<Rightarrow> int \<Rightarrow> bool \<Rightarrow> bool \<Rightarrow> limits_report \<Rightarrow> world
   \<Rightarrow> limits_report \<times> json_file \<times> world" where
  "json_risk_ok snap kvs attempts rba kab rep w =
     (let reset = (rba \<and> \<not> kab);
          attempts' = (if reset then 0 else attempts);
          kvs1 = (if reset then dict_set ''last_attempt_at'' JNull kvs else kvs);
          rba' = (if reset then False else rba);
          cur = sorted_list_of_set (tickets_of (snap_positions snap));
          kvs' = dict_set ''risk_block_active'' (JBool rba')
                   (dict_set ''block_attempts'' (JInt attempts')
                     (dict_set ''baseline_tickets'' (JArr (map JInt cur)) kvs1))
      in (rep\<lparr>rep_baseline_tickets := cur, attempts_after := attempts', risk_block_active_after := rba'\<rparr>,
          JFile (JObj kvs'), w))"

text \<open>
  Lines 139--198: the baseline is read as integers first, which may raise; the
  closes, the count and the kill switch are those of \<open>Risk_Limits\<close>; the
  datetime of the attempt is written with \<open>isoformat()\<close>.
\<close>

definition json_risk_exceeded ::
  "limits_params \<Rightarrow> timestamp \<Rightarrow> snapshot \<Rightarrow> (position \<Rightarrow> bool) \<Rightarrow> (string \<times> json) list
   \<Rightarrow> json \<Rightarrow> int \<Rightarrow> bool \<Rightarrow> bool \<Rightarrow> limits_report \<Rightarrow> world
   \<Rightarrow> py_error + limits_report \<times> json_file \<times> world" where
  "json_risk_exceeded prm now snap c kvs baseline attempts rba kab rep w =
     bind_err (baseline_ints baseline) (\<lambda>bs.
       let new = filter (\<lambda>t. t \<notin> set bs) (sorted_list_of_set (tickets_of (snap_positions snap)));
           (cl, fl, w1) = close_new_tickets c new (snap_positions snap) w;
           attempts' = (if new = [] then attempts else attempts + int (length new));
           kvs1 = (if new = [] then kvs else dict_set ''last_attempt_at'' (JStr (isoformat_utc now)) kvs);
           kvs2 = dict_set ''block_attempts'' (JInt attempts') kvs1;
           trip = (max_block_attempts prm \<le> attempts');
           arm = (trip \<and> \<not> kab);
           w2 = (if arm then w_arm (now + block_window (block_minutes prm)) w1 else w1);
           ks_act = kill_active now (w_kill w2);
           rba' = (rba \<or> trip \<or> ks_act);
           kvs3 = dict_set ''risk_block_active'' (JBool rba') kvs2
       in Inr (rep\<lparr>rep_baseline_tickets := bs, new_tickets_detected := new, rep_closed := cl,
                   rep_failed := fl, attempts_after := attempts', risk_block_active_after := rba',
                   kill_switch_active_after := ks_act, kill_switch_until_after := ks_until (w_kill w2),
                   kill_switch_armed_now := arm\<rparr>,
                JFile (JObj kvs3), w2))"

text \<open>
  One call (lines 67--198). The dictionary \<open>st\<close> must be a JSON object: \<open>get\<close>
  on any other value raises \<open>AttributeError\<close>. The report's baseline entry,
  which the source fills with the raw value, is filled by each branch.
\<close>

definition enforce_json ::
  "limits_params \<Rightarrow> timestamp \<Rightarrow> snapshot \<Rightarrow> (position \<Rightarrow> bool) \<Rightarrow> json_file \<Rightarrow> world
   \<Rightarrow> py_error + limits_report \<times> json_file \<times> world" where
  "enforce_json prm now snap c f w =
     (case load_json f of
        JObj kvs \<Rightarrow>
          (let b0 = dict_get kvs ''baseline_tickets'' JNull;
               baseline = (if py_truthy b0 then b0 else JArr [])
           in bind_err (py_int (dict_get kvs ''block_attempts'' (JInt 0))) (\<lambda>attempts0.
              let last_at = from_iso_any (dict_get kvs ''last_attempt_at'' JNull);
                  kab = kill_active now (w_kill w);
                  rba = (py_truthy (dict_get kvs ''risk_block_active'' (JBool False)) \<or> kab)
              in bind_err (json_decay (block_minutes prm) now attempts0 last_at kvs) (\<lambda>(attempts, kvs1).
                 let rep = initial_report prm now snap
                             \<lparr>baseline_tickets = [], block_attempts = attempts,
                              last_attempt_at = None, risk_block_active = rba\<rparr> rba kab (w_kill w)
                 in if \<not> py_truthy baseline then Inr (json_first_run snap kvs1 attempts rba rep w)
                    else if total_risk_pct snap \<le> threshold_pct prm + risk_epsilon
                    then Inr (json_risk_ok snap kvs1 attempts rba kab rep w)
                    else json_risk_exceeded prm now snap c kvs1 baseline attempts rba kab rep w)))
      | _ \<Rightarrow> Inl AttributeError)"

subsection \<open>Abstraction and typing\<close>

text \<open>
  The state the code reads from a dictionary: the baseline as the integers of
  a truthy value, the attempts as \<open>int()\<close> of the value, the datetime of an
  aware value rounded up to the second (the decay compares the idle time with a
  whole number of seconds, so rounding up keeps the comparison exact), and the
  truthiness of the block flag.
\<close>

definition ceil_sec :: "int \<Rightarrow> timestamp" where
  "ceil_sec us = - ((- us) div 1000000)"

definition abs_state :: "(string \<times> json) list \<Rightarrow> limits_state" where
  "abs_state kvs =
     \<lparr>baseline_tickets =
        (let b = dict_get kvs ''baseline_tickets'' JNull
         in if py_truthy b then projr (baseline_ints b) else []),
      block_attempts = projr (py_int (dict_get kvs ''block_attempts'' (JInt 0))),
      last_attempt_at =
        (case from_iso_any (dict_get kvs ''last_attempt_at'' JNull) of
           Some (us, True) \<Rightarrow> Some (ceil_sec us) | _ \<Rightarrow> None),
      risk_block_active = py_truthy (dict_get kvs ''risk_block_active'' (JBool False))\<rparr>"

definition abs_file :: "json_file \<Rightarrow> state_file" where
  "abs_file f =
     (case f of JNoFile \<Rightarrow> NoFile | JUnreadable \<Rightarrow> Corrupt
      | JFile (JObj kvs) \<Rightarrow> Json (abs_state kvs) | JFile _ \<Rightarrow> Corrupt)"

text \<open>
  A dictionary is typed when every read of the call succeeds on it: a truthy
  baseline iterates to integers, the attempts convert with \<open>int()\<close>, and a
  naive datetime never meets a positive attempt count. A file is typed when it
  is missing, unreadable, or holds a typed dictionary.
\<close>

definition baseline_ok :: "(string \<times> json) list \<Rightarrow> bool" where
  "baseline_ok kvs =
     (let b = dict_get kvs ''baseline_tickets'' JNull in py_truthy b \<longrightarrow> \<not> isl (baseline_ints b))"

definition last_ok :: "int \<Rightarrow> (string \<times> json) list \<Rightarrow> bool" where
  "last_ok a kvs =
     (0 < a \<longrightarrow> (case from_iso_any (dict_get kvs ''last_attempt_at'' JNull) of
                     Some (_, aware) \<Rightarrow> aware | None \<Rightarrow> True))"

definition dict_typed :: "(string \<times> json) list \<Rightarrow> bool" where
  "dict_typed kvs =
     (baseline_ok kvs \<and>
      (case py_int (dict_get kvs ''block_attempts'' (JInt 0)) of Inl _ \<Rightarrow> False | Inr a \<Rightarrow> last_ok a kvs))"

definition file_typed :: "json_file \<Rightarrow> bool" where
  "file_typed f = (case f of JFile (JObj kvs) \<Rightarrow> dict_typed kvs | JFile _ \<Rightarrow> False | _ \<Rightarrow> True)"

subsection \<open>The watcher over the file\<close>

text \<open>
  \<open>risk_block_status()\<close> (lines 200--210) over the file: \<open>get\<close> needs a
  dictionary and \<open>int()\<close> may raise. The baseline entry, which the source
  returns raw, is the baseline as the call reads it.
\<close>

definition json_block_status :: "timestamp \<Rightarrow> json_file \<Rightarrow> kill_state \<Rightarrow> py_error + block_status" where
  "json_block_status now f ks =
     (case load_json f of
        JObj kvs \<Rightarrow>
          bind_err (py_int (dict_get kvs ''block_attempts'' (JInt 0))) (\<lambda>a.
            Inr \<lparr>bs_risk_block_active = (py_truthy (dict_get kvs ''risk_block_active'' (JBool False)) \<or> kill_active now ks),
                 bs_block_attempts = a,
                 bs_baseline_tickets = baseline_tickets (abs_state kvs),
                 bs_kill_switch_active = kill_active now ks,
                 bs_kill_switch_until = ks_until ks\<rparr>)
      | _ \<Rightarrow> Inl AttributeError)"

text \<open>
  \<open>main()\<close> of \<open>src/RiskGuardv0.0.2/limits/limits_watch.py\<close> (lines 21--65):
  each pass calls the enforcer and then \<open>risk_block_status()\<close>, and reports
  the pass when it saw new, closed or failed tickets or when the status pair
  (attempts, block) differs from the last one reported. The loop catches only
  \<open>KeyboardInterrupt\<close>: an exception of either call ends \<open>main()\<close>. The model
  takes the passes as a list of instants and snapshots and returns the reports
  passed to \<open>notify_limits\<close>, the exception that ended the loop if one did,
  and the file and world after the last pass.
\<close>

record watch_state =
  prev_attempts :: "int option"
  prev_block :: "bool option"

definition watch_changed :: "limits_report \<Rightarrow> block_status \<Rightarrow> watch_state \<Rightarrow> bool \<times> watch_state" where
  "watch_changed r bs ws =
     (let st_changed = (prev_attempts ws \<noteq> Some (bs_block_attempts bs) \<or> prev_block ws \<noteq> Some (bs_risk_block_active bs));
          ws' = (if st_changed then \<lparr>prev_attempts = Some (bs_block_attempts bs), prev_block = Some (bs_risk_block_active bs)\<rparr>
                 else ws)
      in (new_tickets_detected r \<noteq> [] \<or> rep_closed r \<noteq> [] \<or> rep_failed r \<noteq> [] \<or> st_changed, ws'))"

fun watch_loop ::
  "limits_params \<Rightarrow> (position \<Rightarrow> bool) \<Rightarrow> (timestamp \<times> snapshot) list \<Rightarrow> watch_state \<Rightarrow> json_file \<Rightarrow> world
   \<Rightarrow> limits_report list \<times> py_error option \<times> json_file \<times> world" where
  "watch_loop prm c [] ws f w = ([], None, f, w)"
| "watch_loop prm c ((now, snap) # ts) ws f w =
     (case enforce_json prm now snap c f w of
        Inl e \<Rightarrow> ([], Some e, f, w)
      | Inr (r, f1, w1) \<Rightarrow>
          (case json_block_status now f1 (w_kill w1) of
             Inl e \<Rightarrow> ([], Some e, f1, w1)
           | Inr bs \<Rightarrow>
               (let (ch, ws') = watch_changed r bs ws;
                    (ns, e, f2, w2) = watch_loop prm c ts ws' f1 w1
                in (if ch then r # ns else ns, e, f2, w2))))"

subsection \<open>Example data\<close>

text \<open>
  State files for the witnesses: one as the call writes it (baseline 1, one
  attempt 13 minutes before the instant 1700000000, that is
  2023-11-14T22:13:20Z, an extra key), one written by hand with the values as
  strings and a \<open>Z\<close> suffix, and the passes of a watcher.
\<close>

definition ex_json_state :: json_file where
  "ex_json_state = JFile (JObj [(''baseline_tickets'', JArr [JInt 1]), (''block_attempts'', JInt 1),
     (''last_attempt_at'', JStr ''2023-11-14T22:00:00+00:00''), (''risk_block_active'', JBool False),
     (''note'', JStr ''kept'')])"

definition ex_json_state2 :: json_file where
  "ex_json_state2 = JFile (JObj [(''baseline_tickets'', JArr [JStr ''1'']), (''block_attempts'', JStr '' 2 ''),
     (''last_attempt_at'', JStr ''2023-11-14T21:30:00Z''), (''risk_block_active'', JInt 0)])"

definition ex_ticks :: "(timestamp \<times> snapshot) list" where
  "ex_ticks = [(1700000000, ex_snap 6 [1, 2]), (1700000060, ex_snap 6 [1, 2, 3]), (1700000120, ex_snap 2 [1])]"

definition ex_watch0 :: watch_state where
  "ex_watch0 = \<lparr>prev_attempts = None, prev_block = None\<rparr>"

subsection \<open>Lemmas: dictionaries, conversions and datetimes\<close>

lemma bind_err_simps [simp]:
  "bind_err (Inl e) f = Inl e"
  "bind_err (Inr a) f = f a"
  by (simp_all add: bind_err_def)

lemma bind_err_Inr_iff:
  "(bind_err x f = Inr b) = (\<exists>a. x = Inr a \<and> f a = Inr b)"
  by (cases x) simp_all

lemma map_of_replace:
  "map_of (map (\<lambda>(k', v'). if k' = k then (k, v) else (k', v')) kvs) =
     (if k \<in> fst ` set kvs then (map_of kvs)(k \<mapsto> v) else map_of kvs)"
  by (induction kvs) (auto simp: fun_eq_iff)

lemma map_of_dict_set [simp]: "map_of (dict_set k v kvs) = (map_of kvs)(k \<mapsto> v)"
proof (cases "k \<in> fst ` set kvs")
  case False
  then have "map_of kvs k = None" by (simp add: map_of_eq_None_iff)
  with False show ?thesis by (auto simp: dict_set_def fun_eq_iff map_add_def split: option.splits)
qed (simp add: dict_set_def map_of_replace)

lemma dict_get_set [simp]:
  "dict_get (dict_set k v kvs) k' d = (if k' = k then v else dict_get kvs k' d)"
  by (simp add: dict_get_def)

lemma dict_get_Nil [simp]: "dict_get [] k d = d"
  by (simp add: dict_get_def)

lemma py_ints_length: "py_ints xs = Inr ns \<Longrightarrow> length ns = length xs"
  by (induction xs arbitrary: ns) (auto simp: bind_err_Inr_iff)

lemma py_ints_map_JInt [simp]: "py_ints (map JInt xs) = Inr xs"
  by (induction xs) simp_all

lemma baseline_ints_JArr_JInt [simp]: "baseline_ints (JArr (map JInt xs)) = Inr xs"
  by (simp add: baseline_ints_def)

lemma baseline_ints_truthy:
  "py_truthy b \<Longrightarrow> baseline_ints b = Inr bs \<Longrightarrow> bs \<noteq> []"
  by (cases b) (auto simp: baseline_ints_def bind_err_Inr_iff dest: py_ints_length)

text \<open>The decay compares microseconds; rounding the datetime up to the second keeps it.\<close>

lemma ceil_sec_window:
  "(W * 1000000 \<le> now * 1000000 - us) = (W \<le> now - ceil_sec us)"
proof -
  define q where "q = (- us) div 1000000"
  define r where "r = (- us) mod 1000000"
  have "- us = q * 1000000 + r" unfolding q_def r_def by (rule div_mult_mod_eq [symmetric])
  moreover have "0 \<le> r" "r < 1000000" unfolding r_def by simp_all
  moreover have "ceil_sec us = - q" unfolding ceil_sec_def q_def ..
  ultimately have lo: "us \<le> ceil_sec us * 1000000" and hi: "ceil_sec us * 1000000 < us + 1000000"
    by linarith+
  show ?thesis
  proof
    assume "W * 1000000 \<le> now * 1000000 - us"
    with hi have "(ceil_sec us - 1) * 1000000 < (now - W) * 1000000" by (simp add: algebra_simps)
    then show "W \<le> now - ceil_sec us" by simp
  next
    assume "W \<le> now - ceil_sec us"
    then have "W * 1000000 \<le> (now - ceil_sec us) * 1000000" by simp
    with lo show "W * 1000000 \<le> now * 1000000 - us" by (simp add: algebra_simps)
  qed
qed

lemma ceil_sec_whole [simp]: "ceil_sec (t * 1000000) = t"
  by (simp add: ceil_sec_def)

lemma isoformat_utc_shape: "last (isoformat_utc t) = CHR ''0''" "CHR ''+'' \<in> set (isoformat_utc t)"
  by (cases "ord2ymd (t div 86400 + epoch_ord)"; simp add: isoformat_utc_def Let_def)+

lemma from_iso_any_isoformat_utc: "from_iso_any (JStr (isoformat_utc t)) = fromisoformat (isoformat_utc t)"
proof -
  have "\<not> py_isspace CHR ''+''" by (simp add: py_isspace_def)
  then have "py_strip (isoformat_utc t) \<noteq> []" using isoformat_utc_shape(2) py_strip_Nil_iff by blast
  then show ?thesis by (simp add: from_iso_any_def isoformat_utc_shape(1))
qed


subsection \<open>Lemmas: the abstraction of the written keys\<close>

lemma from_iso_any_JNull [simp]: "from_iso_any JNull = None"
  by (simp add: from_iso_any_def)

lemma abs_state_Nil [simp]: "abs_state [] = empty_limits_state"
  by (simp add: abs_state_def empty_limits_state_def from_iso_any_def)

lemma load_state_abs_file: "load_json f = JObj kvs \<Longrightarrow> load_state (abs_file f) = abs_state kvs"
  by (cases f) (auto simp: load_json_def abs_file_def load_state_def)

lemma abs_state_set [simp]:
  "abs_state (dict_set ''baseline_tickets'' (JArr (map JInt xs)) kvs) = (abs_state kvs)\<lparr>baseline_tickets := xs\<rparr>"
  "abs_state (dict_set ''block_attempts'' (JInt a) kvs) = (abs_state kvs)\<lparr>block_attempts := a\<rparr>"
  "abs_state (dict_set ''risk_block_active'' (JBool b) kvs) = (abs_state kvs)\<lparr>risk_block_active := b\<rparr>"
  "abs_state (dict_set ''last_attempt_at'' JNull kvs) = (abs_state kvs)\<lparr>last_attempt_at := None\<rparr>"
  by (simp_all add: abs_state_def from_iso_any_def)

lemma abs_state_set_now [simp]:
  "datetime_range t \<Longrightarrow>
     abs_state (dict_set ''last_attempt_at'' (JStr (isoformat_utc t)) kvs) = (abs_state kvs)\<lparr>last_attempt_at := Some t\<rparr>"
  by (simp add: abs_state_def from_iso_any_isoformat_utc fromisoformat_isoformat_utc)

lemma block_attempts_abs_state:
  "py_int (dict_get kvs ''block_attempts'' (JInt 0)) = Inr a \<Longrightarrow> block_attempts (abs_state kvs) = a"
  by (simp add: abs_state_def)

lemma baseline_abs_state:
  "baseline_ok kvs \<Longrightarrow> dict_get kvs ''baseline_tickets'' JNull = b \<Longrightarrow>
     (baseline_tickets (abs_state kvs) = []) = (\<not> py_truthy b)
     \<and> (py_truthy b \<longrightarrow> baseline_ints b = Inr (baseline_tickets (abs_state kvs)))"
  by (cases "baseline_ints b") (auto simp: abs_state_def baseline_ok_def dest: baseline_ints_truthy)

subsection \<open>Lemmas: the decay over the file\<close>

lemma json_decay_refines:
  assumes "py_int (dict_get kvs ''block_attempts'' (JInt 0)) = Inr a"
    and "json_decay bm now a (from_iso_any (dict_get kvs ''last_attempt_at'' JNull)) kvs = Inr (a', kvs1)"
  shows "decay_attempts bm now (abs_state kvs) = abs_state kvs1
    \<and> py_int (dict_get kvs1 ''block_attempts'' (JInt 0)) = Inr a' \<and> last_ok a' kvs1
    \<and> dict_get kvs1 ''baseline_tickets'' JNull = dict_get kvs ''baseline_tickets'' JNull
    \<and> dict_get kvs1 ''risk_block_active'' (JBool False) = dict_get kvs ''risk_block_active'' (JBool False)"
  using assms
  by (cases "from_iso_any (dict_get kvs ''last_attempt_at'' JNull)")
     (auto simp: json_decay_def decay_attempts_def last_ok_def abs_state_def ceil_sec_window
       split: if_splits prod.splits bool.splits)

lemma json_decay_progress:
  "last_ok a kvs \<Longrightarrow> \<exists>a' kvs1. json_decay bm now a (from_iso_any (dict_get kvs ''last_attempt_at'' JNull)) kvs = Inr (a', kvs1)"
  by (auto simp: json_decay_def last_ok_def split: option.splits)

subsection \<open>Lemmas: the close loop does not touch the file\<close>

lemma w_close_limits:
  "w_close c p (w\<lparr>w_limits := x\<rparr>) = (fst (w_close c p w), (snd (w_close c p w))\<lparr>w_limits := x\<rparr>)"
  by (simp add: w_close_def split: prod.splits)

lemma close_new_tickets_limits:
  "close_new_tickets c new ps (w\<lparr>w_limits := x\<rparr>) =
     (case close_new_tickets c new ps w of (cl, fl, w1) \<Rightarrow> (cl, fl, w1\<lparr>w_limits := x\<rparr>))"
proof (induction ps arbitrary: w)
  case (Cons p ps)
  then show ?case by (simp add: w_close_limits split: prod.splits)
qed simp

lemma w_arm_limits: "w_arm t (w\<lparr>w_limits := x\<rparr>) = (w_arm t w)\<lparr>w_limits := x\<rparr>"
  by (simp add: w_arm_def)

subsection \<open>Lemmas: typing of the written keys\<close>

lemma baseline_ok_set [simp]:
  "baseline_ok (dict_set ''baseline_tickets'' (JArr (map JInt xs)) kvs)"
  "k \<noteq> ''baseline_tickets'' \<Longrightarrow> baseline_ok (dict_set k v kvs) = baseline_ok kvs"
  by (simp_all add: baseline_ok_def)

lemma last_ok_set [simp]:
  "k \<noteq> ''last_attempt_at'' \<Longrightarrow> last_ok a (dict_set k v kvs) = last_ok a kvs"
  "last_ok a (dict_set ''last_attempt_at'' JNull kvs)"
  "datetime_range t \<Longrightarrow> last_ok a (dict_set ''last_attempt_at'' (JStr (isoformat_utc t)) kvs)"
  by (simp_all add: last_ok_def from_iso_any_isoformat_utc fromisoformat_isoformat_utc)

lemma last_ok_nonpos: "\<not> 0 < a \<Longrightarrow> last_ok a kvs"
  by (simp add: last_ok_def)

lemma dict_typed_set [simp]:
  "dict_typed (dict_set ''block_attempts'' (JInt a) kvs) = (baseline_ok kvs \<and> last_ok a kvs)"
  "dict_typed (dict_set ''risk_block_active'' v kvs) = dict_typed kvs"
  by (simp_all add: dict_typed_def split: sum.splits)

lemma dict_typed_Nil [simp]: "dict_typed []"
  by (simp add: dict_typed_def baseline_ok_def last_ok_def)

lemma file_typed_load: "file_typed f \<Longrightarrow> load_json f = JObj kvs \<Longrightarrow> dict_typed kvs"
  by (cases f) (auto simp: file_typed_def load_json_def)

lemma dict_typed_parts:
  assumes "dict_typed kvs"
  obtains a where "py_int (dict_get kvs ''block_attempts'' (JInt 0)) = Inr a" "last_ok a kvs" "baseline_ok kvs"
  using assms by (auto simp: dict_typed_def split: sum.splits)

lemma baseline_ok_cong:
  "dict_get kvs1 ''baseline_tickets'' JNull = dict_get kvs ''baseline_tickets'' JNull \<Longrightarrow>
     baseline_ok kvs1 = baseline_ok kvs"
  by (simp add: baseline_ok_def)

subsection \<open>Lemmas: one call over the file\<close>

lemma enforce_json_dict:
  assumes "load_json f = JObj kvs" "py_int (dict_get kvs ''block_attempts'' (JInt 0)) = Inr a0"
    "json_decay (block_minutes prm) now a0 (from_iso_any (dict_get kvs ''last_attempt_at'' JNull)) kvs = Inr (a, kvs1)"
  shows "enforce_json prm now snap c f w =
    (let b0 = dict_get kvs ''baseline_tickets'' JNull; kab = kill_active now (w_kill w);
         rba = (py_truthy (dict_get kvs ''risk_block_active'' (JBool False)) \<or> kab);
         rep = initial_report prm now snap
                 \<lparr>baseline_tickets = [], block_attempts = a, last_attempt_at = None, risk_block_active = rba\<rparr>
                 rba kab (w_kill w)
     in if \<not> py_truthy b0 then Inr (json_first_run snap kvs1 a rba rep w)
        else if total_risk_pct snap \<le> threshold_pct prm + risk_epsilon
        then Inr (json_risk_ok snap kvs1 a rba kab rep w)
        else json_risk_exceeded prm now snap c kvs1 b0 a rba kab rep w)"
  using assms by (simp add: enforce_json_def Let_def)

lemma initial_report_baseline:
  "block_attempts st = block_attempts st' \<Longrightarrow>
     initial_report prm now snap st rba kab ks =
       (initial_report prm now snap st' rba kab ks)\<lparr>rep_baseline_tickets := baseline_tickets st\<rparr>"
  by (simp add: initial_report_def)

lemma json_first_run_refines:
  "a = block_attempts (abs_state kvs1) \<Longrightarrow>
   first_run snap (abs_state kvs1) rba (rep\<lparr>rep_baseline_tickets := b\<rparr>) (w\<lparr>w_limits := x\<rparr>) =
     (case json_first_run snap kvs1 a rba rep w of (r, f', w') \<Rightarrow> (r, w'\<lparr>w_limits := abs_file f'\<rparr>))"
  by (simp add: first_run_def json_first_run_def abs_file_def save_state_def Let_def)

lemma json_risk_ok_refines:
  "a = block_attempts (abs_state kvs1) \<Longrightarrow>
   risk_ok_branch snap (abs_state kvs1) rba kab (rep\<lparr>rep_baseline_tickets := b\<rparr>) (w\<lparr>w_limits := x\<rparr>) =
     (case json_risk_ok snap kvs1 a rba kab rep w of (r, f', w') \<Rightarrow> (r, w'\<lparr>w_limits := abs_file f'\<rparr>))"
  by (simp add: risk_ok_branch_def json_risk_ok_def abs_file_def save_state_def Let_def)

lemma json_risk_exceeded_refines:
  assumes "datetime_range now" "a = block_attempts (abs_state kvs1)"
    "baseline_ints b0 = Inr (baseline_tickets (abs_state kvs1))"
    "json_risk_exceeded prm now snap c kvs1 b0 a rba kab rep w = Inr (r, f', w')"
  shows "risk_exceeded_branch prm now snap c (abs_state kvs1) rba kab
           (rep\<lparr>rep_baseline_tickets := baseline_tickets (abs_state kvs1)\<rparr>) (w\<lparr>w_limits := x\<rparr>) =
         (r, w'\<lparr>w_limits := abs_file f'\<rparr>)"
  using assms
  by (auto simp: risk_exceeded_branch_def json_risk_exceeded_def new_tickets_def abs_file_def save_state_def
      Let_def close_new_tickets_limits w_arm_limits split: prod.splits)

lemma json_first_run_typed:
  "baseline_ok kvs1 \<Longrightarrow> last_ok a kvs1 \<Longrightarrow> file_typed (fst (snd (json_first_run snap kvs1 a rba rep w)))"
  by (simp add: json_first_run_def file_typed_def Let_def)

lemma json_risk_ok_typed:
  "baseline_ok kvs1 \<Longrightarrow> last_ok a kvs1 \<Longrightarrow> file_typed (fst (snd (json_risk_ok snap kvs1 a rba kab rep w)))"
  by (simp add: json_risk_ok_def file_typed_def Let_def last_ok_nonpos)

lemma json_risk_exceeded_typed:
  assumes "datetime_range now" "baseline_ok kvs1" "last_ok a kvs1" "\<not> isl (baseline_ints b0)"
  shows "\<exists>r f' w'. json_risk_exceeded prm now snap c kvs1 b0 a rba kab rep w = Inr (r, f', w') \<and> file_typed f'"
proof -
  obtain bs where "baseline_ints b0 = Inr bs" using assms(4) by (cases "baseline_ints b0") simp_all
  then show ?thesis using assms(1-3)
    by (simp add: json_risk_exceeded_def file_typed_def Let_def split: prod.splits)
qed

lemma enforce_json_setup:
  assumes "file_typed f"
  obtains kvs a0 a kvs1 where "load_json f = JObj kvs"
    "py_int (dict_get kvs ''block_attempts'' (JInt 0)) = Inr a0"
    "json_decay bm now a0 (from_iso_any (dict_get kvs ''last_attempt_at'' JNull)) kvs = Inr (a, kvs1)"
    "decay_attempts bm now (load_state (abs_file f)) = abs_state kvs1"
    "a = block_attempts (abs_state kvs1)" "last_ok a kvs1" "baseline_ok kvs1"
    "dict_get kvs1 ''baseline_tickets'' JNull = dict_get kvs ''baseline_tickets'' JNull"
proof -
  obtain kvs where L: "load_json f = JObj kvs"
    using assms by (cases f) (auto simp: file_typed_def load_json_def split: json.splits)
  then have T: "dict_typed kvs" using assms by (rule file_typed_load [rotated])
  obtain a0 where A: "py_int (dict_get kvs ''block_attempts'' (JInt 0)) = Inr a0" and Lo: "last_ok a0 kvs"
    and B: "baseline_ok kvs" using dict_typed_parts [OF T] by blast
  obtain a kvs1 where D: "json_decay bm now a0 (from_iso_any (dict_get kvs ''last_attempt_at'' JNull)) kvs = Inr (a, kvs1)"
    using json_decay_progress [OF Lo] by blast
  note R = json_decay_refines [OF A D]
  show thesis
  proof (rule that [OF L A D])
    show "decay_attempts bm now (load_state (abs_file f)) = abs_state kvs1"
      using R by (simp add: load_state_abs_file [OF L])
    show "a = block_attempts (abs_state kvs1)" using R by (simp add: block_attempts_abs_state)
    show "baseline_ok kvs1" using R B baseline_ok_cong by blast
  qed (use R in simp_all)
qed

lemma enforce_aggregate_risk_json:
  assumes "load_json f = JObj kvs"
    "decay_attempts (block_minutes prm) now (load_state (abs_file f)) = abs_state kvs1"
  shows "enforce_aggregate_risk prm now snap c (w\<lparr>w_limits := abs_file f\<rparr>) =
    (let kab = kill_active now (w_kill w);
         rba = (py_truthy (dict_get kvs ''risk_block_active'' (JBool False)) \<or> kab);
         st = abs_state kvs1;
         rep = initial_report prm now snap st rba kab (w_kill w)
     in if baseline_tickets st = [] then first_run snap st rba rep (w\<lparr>w_limits := abs_file f\<rparr>)
        else if total_risk_pct snap \<le> threshold_pct prm + risk_epsilon
        then risk_ok_branch snap st rba kab rep (w\<lparr>w_limits := abs_file f\<rparr>)
        else risk_exceeded_branch prm now snap c st rba kab rep (w\<lparr>w_limits := abs_file f\<rparr>))"
proof -
  have "risk_block_active (load_state (abs_file f)) = py_truthy (dict_get kvs ''risk_block_active'' (JBool False))"
    by (simp add: load_state_abs_file [OF assms(1)] abs_state_def)
  moreover have "baseline_tickets (load_state (abs_file f)) = baseline_tickets (abs_state kvs1)"
    using arg_cong [OF assms(2), of baseline_tickets] by simp
  ultimately show ?thesis using assms(2) by (simp add: enforce_aggregate_risk_def Let_def)
qed

lemma enforce_json_progress:
  assumes "file_typed f" "datetime_range now"
  shows "\<exists>r f' w'. enforce_json prm now snap c f w = Inr (r, f', w') \<and> file_typed f'"
proof -
  obtain kvs a0 a kvs1 where L: "load_json f = JObj kvs"
    and A: "py_int (dict_get kvs ''block_attempts'' (JInt 0)) = Inr a0"
    and D: "json_decay (block_minutes prm) now a0 (from_iso_any (dict_get kvs ''last_attempt_at'' JNull)) kvs = Inr (a, kvs1)"
    and lo: "last_ok a kvs1" and bo: "baseline_ok kvs1"
    and bq: "dict_get kvs1 ''baseline_tickets'' JNull = dict_get kvs ''baseline_tickets'' JNull"
    using enforce_json_setup [OF assms(1)] by metis
  note E = enforce_json_dict [OF L A D, of snap c w]
  show ?thesis
  proof (cases "py_truthy (dict_get kvs ''baseline_tickets'' JNull)")
    case True
    then have "\<not> isl (baseline_ints (dict_get kvs ''baseline_tickets'' JNull))"
      using bo bq by (simp add: baseline_ok_def)
    with json_risk_exceeded_typed [OF assms(2) bo lo] True show ?thesis
      using json_risk_ok_typed [OF bo lo] by (simp add: E Let_def) (metis prod_cases3 fst_conv snd_conv)
  next
    case False
    then show ?thesis using json_first_run_typed [OF bo lo] by (simp add: E Let_def) (metis prod_cases3 fst_conv snd_conv)
  qed
qed

lemma enforce_json_refines_step:
  assumes "file_typed f" "datetime_range now" "enforce_json prm now snap c f w = Inr (r, f', w')"
  shows "enforce_aggregate_risk prm now snap c (w\<lparr>w_limits := abs_file f\<rparr>) = (r, w'\<lparr>w_limits := abs_file f'\<rparr>)"
proof -
  obtain kvs a0 a kvs1 where L: "load_json f = JObj kvs"
    and A: "py_int (dict_get kvs ''block_attempts'' (JInt 0)) = Inr a0"
    and D: "json_decay (block_minutes prm) now a0 (from_iso_any (dict_get kvs ''last_attempt_at'' JNull)) kvs = Inr (a, kvs1)"
    and dec: "decay_attempts (block_minutes prm) now (load_state (abs_file f)) = abs_state kvs1"
    and ba: "a = block_attempts (abs_state kvs1)" and bo: "baseline_ok kvs1"
    and bq: "dict_get kvs1 ''baseline_tickets'' JNull = dict_get kvs ''baseline_tickets'' JNull"
    using enforce_json_setup [OF assms(1)] by metis
  define b0 where "b0 = dict_get kvs ''baseline_tickets'' JNull"
  define kab where "kab = kill_active now (w_kill w)"
  define rba where "rba = (py_truthy (dict_get kvs ''risk_block_active'' (JBool False)) \<or> kab)"
  define rep where "rep = initial_report prm now snap
     \<lparr>baseline_tickets = [], block_attempts = a, last_attempt_at = None, risk_block_active = rba\<rparr> rba kab (w_kill w)"
  have rep_abs: "initial_report prm now snap (abs_state kvs1) rba kab (w_kill w) =
      rep\<lparr>rep_baseline_tickets := baseline_tickets (abs_state kvs1)\<rparr>"
    unfolding rep_def by (rule initial_report_baseline) (simp add: ba)
  have B: "(baseline_tickets (abs_state kvs1) = []) = (\<not> py_truthy b0)"
    "py_truthy b0 \<Longrightarrow> baseline_ints b0 = Inr (baseline_tickets (abs_state kvs1))"
    using baseline_abs_state [OF bo bq] by (simp_all add: b0_def)
  have C: "enforce_json prm now snap c f w =
      (if \<not> py_truthy b0 then Inr (json_first_run snap kvs1 a rba rep w)
       else if total_risk_pct snap \<le> threshold_pct prm + risk_epsilon then Inr (json_risk_ok snap kvs1 a rba kab rep w)
       else json_risk_exceeded prm now snap c kvs1 b0 a rba kab rep w)"
    using enforce_json_dict [OF L A D, of snap c w] by (simp add: b0_def kab_def rba_def rep_def Let_def)
  have Ab: "enforce_aggregate_risk prm now snap c (w\<lparr>w_limits := abs_file f\<rparr>) =
      (let rep' = rep\<lparr>rep_baseline_tickets := baseline_tickets (abs_state kvs1)\<rparr>
       in if baseline_tickets (abs_state kvs1) = [] then first_run snap (abs_state kvs1) rba rep' (w\<lparr>w_limits := abs_file f\<rparr>)
          else if total_risk_pct snap \<le> threshold_pct prm + risk_epsilon
          then risk_ok_branch snap (abs_state kvs1) rba kab rep' (w\<lparr>w_limits := abs_file f\<rparr>)
          else risk_exceeded_branch prm now snap c (abs_state kvs1) rba kab rep' (w\<lparr>w_limits := abs_file f\<rparr>))"
    using enforce_aggregate_risk_json [OF L dec, of snap c w]
    by (simp only: Let_def kab_def [symmetric] rba_def [symmetric] rep_abs)
  show ?thesis
  proof (cases "py_truthy b0")
    case False
    with assms(3) C have "json_first_run snap kvs1 a rba rep w = (r, f', w')" by simp
    with json_first_run_refines [OF ba, where snap = snap and rba = rba and rep = rep and
      b = "baseline_tickets (abs_state kvs1)" and w = w and x = "abs_file f"] False show ?thesis by (simp add: Ab B)
  next
    case True
    show ?thesis
    proof (cases "total_risk_pct snap \<le> threshold_pct prm + risk_epsilon")
      case ok: True
      with assms(3) C True have "json_risk_ok snap kvs1 a rba kab rep w = (r, f', w')" by simp
      with json_risk_ok_refines [OF ba, where snap = snap and rba = rba and kab = kab and rep = rep and
      b = "baseline_tickets (abs_state kvs1)" and w = w and x = "abs_file f"] True ok show ?thesis by (simp add: Ab B)
    next
      case ex: False
      with assms(3) C True have "json_risk_exceeded prm now snap c kvs1 b0 a rba kab rep w = Inr (r, f', w')" by simp
      from json_risk_exceeded_refines [OF assms(2) ba B(2) [OF True] this] True ex show ?thesis by (simp add: Ab B)
    qed
  qed
qed

subsection \<open>Lemmas: the watcher\<close>

lemma json_block_status_refines:
  assumes "file_typed f"
  shows "json_block_status now f ks = Inr (risk_block_status now (w\<lparr>w_limits := abs_file f, w_kill := ks\<rparr>))"
proof -
  obtain kvs where L: "load_json f = JObj kvs"
    using assms by (cases f) (auto simp: file_typed_def load_json_def split: json.splits)
  then have T: "dict_typed kvs" using assms by (rule file_typed_load [rotated])
  obtain a where A: "py_int (dict_get kvs ''block_attempts'' (JInt 0)) = Inr a"
    using dict_typed_parts [OF T] by blast
  show ?thesis
    by (simp add: json_block_status_def risk_block_status_def L A load_state_abs_file [OF L]
        block_attempts_abs_state [OF A]) (simp add: abs_state_def)
qed

lemma enforce_json_naive_last:
  assumes "from_iso_any (dict_get kvs ''last_attempt_at'' JNull) = Some (us, False)"
    "py_int (dict_get kvs ''block_attempts'' (JInt 0)) = Inr a" "0 < a"
  shows "enforce_json prm now snap c (JFile (JObj kvs)) w = Inl TypeError"
  using assms by (simp add: enforce_json_def load_json_def json_decay_def)

lemma enforce_json_raises_untyped:
  assumes "\<not> file_typed f"
  shows "\<exists>prm now snap c w. datetime_range now \<and> isl (enforce_json prm now snap c f w)"
proof -
  have r0: "datetime_range 0" by (simp add: datetime_range_def epoch_ord_def days_before_year_def)
  show ?thesis
  proof (cases "\<exists>kvs. load_json f = JObj kvs")
    case False
    then have "isl (enforce_json ex_params 0 (ex_snap 6 []) (\<lambda>_. True) f (ex_world []))"
      by (cases "load_json f") (auto simp: enforce_json_def)
    with r0 show ?thesis by blast
  next
    case True
    then obtain kvs where L: "load_json f = JObj kvs" by blast
    with assms have U: "\<not> dict_typed kvs"
      by (cases f) (auto simp: file_typed_def load_json_def)
    show ?thesis
    proof (cases "py_int (dict_get kvs ''block_attempts'' (JInt 0))")
      case (Inl e)
      then have "isl (enforce_json ex_params 0 (ex_snap 6 []) (\<lambda>_. True) f (ex_world []))"
        by (simp add: enforce_json_def L)
      with r0 show ?thesis by blast
    next
      case (Inr a)
      show ?thesis
      proof (cases "last_ok a kvs")
        case False
        then obtain us where "from_iso_any (dict_get kvs ''last_attempt_at'' JNull) = Some (us, False)" "0 < a"
          by (auto simp: last_ok_def split: option.splits)
        then have "isl (enforce_json ex_params 0 (ex_snap 6 []) (\<lambda>_. True) f (ex_world []))"
          by (simp add: enforce_json_def L Inr json_decay_def)
        with r0 show ?thesis by blast
      next
        case lo: True
        with U Inr have B: "\<not> baseline_ok kvs" by (simp add: dict_typed_def)
        obtain a' kvs1 where D: "json_decay (block_minutes ex_params) 0 a (from_iso_any (dict_get kvs ''last_attempt_at'' JNull)) kvs
            = Inr (a', kvs1)" using json_decay_progress [OF lo] by blast
        obtain e where tr: "py_truthy (dict_get kvs ''baseline_tickets'' JNull)"
          and be: "baseline_ints (dict_get kvs ''baseline_tickets'' JNull) = Inl e"
          using B by (cases "baseline_ints (dict_get kvs ''baseline_tickets'' JNull)") (auto simp: baseline_ok_def)
        have "isl (enforce_json ex_params 0 (ex_snap 6 []) (\<lambda>_. True) f (ex_world []))"
          unfolding enforce_json_dict [OF L Inr D] using tr be
          by (simp add: json_risk_exceeded_def ex_params_def ex_snap_def risk_epsilon_def Let_def)
        with r0 show ?thesis by blast
      qed
    qed
  qed
qed

subsection \<open>Properties of the enforcer over its file\<close>

text \<open>
  C13. On a typed state file, at an instant \<open>datetime\<close> can
  print, the enforcer over the JSON file never raises and implements the
  enforcer of \<open>Risk_Limits\<close> over the abstract state: the report and the
  world are the same, and the file it writes abstracts to the state the
  abstract call saves.
\<close>

theorem enforce_json_refines:
  assumes "file_typed f" "datetime_range now"
  shows "(case enforce_json prm now snap c f w of
            Inl _ \<Rightarrow> False
          | Inr (r, f', w') \<Rightarrow>
              enforce_aggregate_risk prm now snap c (w\<lparr>w_limits := abs_file f\<rparr>) = (r, w'\<lparr>w_limits := abs_file f'\<rparr>))"
proof -
  obtain r f' w' where e: "enforce_json prm now snap c f w = Inr (r, f', w')"
    using enforce_json_progress [OF assms] by blast
  show ?thesis using enforce_json_refines_step [OF assms e] by (simp add: e)
qed

theorem enforce_json_refines_witness:
  "file_typed ex_json_state \<and> datetime_range 1700000000 \<and>
   (case enforce_json ex_params 1700000000 (ex_snap 6 [1, 2]) (\<lambda>_. True) ex_json_state (ex_world [1, 2]) of
      Inl _ \<Rightarrow> False
    | Inr (r, f', w') \<Rightarrow>
        enforce_aggregate_risk ex_params 1700000000 (ex_snap 6 [1, 2]) (\<lambda>_. True)
          ((ex_world [1, 2])\<lparr>w_limits := abs_file ex_json_state\<rparr>) = (r, w'\<lparr>w_limits := abs_file f'\<rparr>))"
proof -
  have t: "file_typed ex_json_state" by code_simp
  have d: "datetime_range 1700000000" by (simp add: datetime_range_def epoch_ord_def days_before_year_def)
  show ?thesis using t d enforce_json_refines [OF t d] by blast
qed

text \<open>
  C14. A state file is typed exactly when no call of the enforcer raises
  on it, whatever the parameters, the instant in range, the snapshot, the
  broker and the world; a typed file is written back typed
  (\<open>enforce_json_progress\<close>).
\<close>

theorem file_typed_iff_never_raises:
  "file_typed f = (\<forall>prm now snap c w. datetime_range now \<longrightarrow> \<not> isl (enforce_json prm now snap c f w))"
proof
  assume "file_typed f"
  then show "\<forall>prm now snap c w. datetime_range now \<longrightarrow> \<not> isl (enforce_json prm now snap c f w)"
  proof (intro allI impI)
    fix prm now snap c w
    assume "datetime_range now"
    then obtain r f' w' where "enforce_json prm now snap c f w = Inr (r, f', w')"
      using enforce_json_progress [OF \<open>file_typed f\<close>] by blast
    then show "\<not> isl (enforce_json prm now snap c f w)" by simp
  qed
next
  assume "\<forall>prm now snap c w. datetime_range now \<longrightarrow> \<not> isl (enforce_json prm now snap c f w)"
  then show "file_typed f" using enforce_json_raises_untyped by blast
qed

theorem file_typed_iff_never_raises_witness:
  "file_typed ex_json_state2 \<and> datetime_range 1700000000 \<and>
   \<not> isl (enforce_json ex_params 1700000000 (ex_snap 6 [1, 2]) (\<lambda>_. True) ex_json_state2 (ex_world [1, 2]))"
proof -
  have t: "file_typed ex_json_state2" by code_simp
  have d: "datetime_range 1700000000" by (simp add: datetime_range_def epoch_ord_def days_before_year_def)
  show ?thesis using t d file_typed_iff_never_raises [of ex_json_state2] by blast
qed

text \<open>
  C15. A watcher started on a typed file, with every pass at an
  instant in range, runs every pass without an exception, leaves a typed file,
  and leaves the world and the abstract state where the sequence of abstract
  calls \<open>limits_run\<close> leaves them.
\<close>

theorem watch_loop_typed:
  assumes "file_typed f" "\<forall>(now, snap) \<in> set ts. datetime_range now"
  shows "\<exists>ns f' w'. watch_loop prm c ts ws f w = (ns, None, f', w') \<and> file_typed f'
           \<and> w'\<lparr>w_limits := abs_file f'\<rparr> = snd (limits_run prm c ts (w\<lparr>w_limits := abs_file f\<rparr>))"
  using assms
proof (induction ts arbitrary: ws f w)
  case Nil
  then show ?case by simp
next
  case (Cons t ts)
  obtain now snap where t: "t = (now, snap)" by fastforce
  with Cons.prems have r: "datetime_range now" and rs: "\<forall>(now, snap) \<in> set ts. datetime_range now" by auto
  obtain r f1 w1 where E: "enforce_json prm now snap c f w = Inr (r, f1, w1)" and T1: "file_typed f1"
    using enforce_json_progress [OF Cons.prems(1) r] by blast
  have R: "enforce_aggregate_risk prm now snap c (w\<lparr>w_limits := abs_file f\<rparr>) = (r, w1\<lparr>w_limits := abs_file f1\<rparr>)"
    by (rule enforce_json_refines_step [OF Cons.prems(1) r E])
  obtain bs where S: "json_block_status now f1 (w_kill w1) = Inr bs"
    using json_block_status_refines [OF T1] by blast
  obtain ch ws' where C: "watch_changed r bs ws = (ch, ws')" by fastforce
  obtain ns f' w' where IH: "watch_loop prm c ts ws' f1 w1 = (ns, None, f', w')" "file_typed f'"
      "w'\<lparr>w_limits := abs_file f'\<rparr> = snd (limits_run prm c ts (w1\<lparr>w_limits := abs_file f1\<rparr>))"
    using Cons.IH [OF T1 rs] by blast
  show ?case
    using IH by (simp add: t E S C R split: prod.splits)
qed

theorem watch_loop_typed_witness:
  "file_typed ex_json_state \<and>
   datetime_range 1700000000 \<and> datetime_range 1700000060 \<and> datetime_range 1700000120 \<and>
   (\<exists>ns f' w'. watch_loop ex_params (\<lambda>_. True) ex_ticks ex_watch0 ex_json_state (ex_world [1, 2]) = (ns, None, f', w')
      \<and> file_typed f' \<and> w'\<lparr>w_limits := abs_file f'\<rparr> =
        snd (limits_run ex_params (\<lambda>_. True) ex_ticks ((ex_world [1, 2])\<lparr>w_limits := abs_file ex_json_state\<rparr>)))"
proof -
  have t: "file_typed ex_json_state" by code_simp
  have r: "\<forall>(now, snap) \<in> set ex_ticks. datetime_range now"
    by (simp add: ex_ticks_def datetime_range_def epoch_ord_def days_before_year_def)
  show ?thesis using t r watch_loop_typed [OF t r] by (simp add: ex_ticks_def)
qed

text \<open>
  C16. A state file that is a dictionary whose \<open>block_attempts\<close> is a
  string \<open>int()\<close> refuses ends the watcher at its first pass with
  \<open>ValueError\<close>, before any close request, any report and any write; the
  file stays as it is, so a restarted watcher ends the same way.
\<close>

theorem watch_loop_corrupt_attempts:
  assumes "parse_int_str s = None"
  shows "watch_loop prm c ((now, snap) # ts) ws (JFile (JObj ((''block_attempts'', JStr s) # kvs))) w =
           ([], Some ValueError, JFile (JObj ((''block_attempts'', JStr s) # kvs)), w)"
  using assms by (simp add: enforce_json_def load_json_def dict_get_def)

theorem watch_loop_corrupt_attempts_witness:
  "parse_int_str ''x'' = None \<and>
   watch_loop ex_params (\<lambda>_. True) ex_ticks ex_watch0 (JFile (JObj [(''block_attempts'', JStr ''x''), (''note'', JNull)]))
     (ex_world [1, 2]) =
   ([], Some ValueError, JFile (JObj [(''block_attempts'', JStr ''x''), (''note'', JNull)]), ex_world [1, 2])"
proof -
  have p: "parse_int_str ''x'' = None" by code_simp
  show ?thesis using p watch_loop_corrupt_attempts [OF p] by (simp add: ex_ticks_def)
qed


text \<open>
  C17. The datetime of an attempt that the call writes
  (\<open>_now_utc().isoformat()\<close>, line 164) is read back by \<open>_from_iso_any\<close>
  (lines 40--48) as an aware datetime at the same instant, for every instant
  of the years 1 to 9999.
\<close>

theorem from_iso_any_isoformat:
  "datetime_range t \<Longrightarrow> from_iso_any (JStr (isoformat_utc t)) = Some (t * 1000000, True)"
  by (simp add: from_iso_any_isoformat_utc fromisoformat_isoformat_utc)

theorem from_iso_any_isoformat_witness:
  "datetime_range 1700000000 \<and> isoformat_utc 1700000000 = ''2023-11-14T22:13:20+00:00''
   \<and> from_iso_any (JStr ''2023-11-14T22:13:20+00:00'') = Some (1700000000000000, True)"
proof -
  have d: "datetime_range 1700000000" by (simp add: datetime_range_def epoch_ord_def days_before_year_def)
  have i: "isoformat_utc 1700000000 = ''2023-11-14T22:13:20+00:00''" by code_simp
  show ?thesis using d i from_iso_any_isoformat [OF d] by simp
qed

end
