(* ===== verification/Limits_Main.thy ===== *)
theory Limits_Main
  imports State_Json
begin

text \<open>
  The two entry points of the aggregate enforcer: the self-test at the end of
  \<open>src/RiskguardV1.1/limits/limits.py\<close> (\<open>if __name__ == "__main__"\<close>: one
  call, the decision whether to log it, the status) and \<open>main\<close> of
  \<open>src/RiskGuardv0.0.2/limits/limits_watch.py\<close> around its loop, with the
  parameters both read from the configuration. \<open>rg_config\<close> is not among the
  repository's files: \<open>get_float\<close> and \<open>get_int\<close> are taken to return the
  configured value of the key, or the default given. \<open>log_event\<close>,
  \<open>notify_limits\<close>, \<open>pprint\<close> and the prints are output; the model keeps
  whether the call is logged.
\<close>

record rg_config =
  cfg_float :: "string \<Rightarrow> real option"
  cfg_int :: "string \<Rightarrow> int option"

definition config_get :: "(string \<Rightarrow> 'a option) \<Rightarrow> string \<Rightarrow> 'a \<Rightarrow> 'a" where
  "config_get cfg k d = (case cfg k of None \<Rightarrow> d | Some v \<Rightarrow> v)"

text \<open>Lines 17--19 of \<open>limits.py\<close>: the default parameters of \<open>enforce_aggregate_risk\<close>.\<close>

definition limits_defaults :: "rg_config \<Rightarrow> limits_params" where
  "limits_defaults cfg =
     \<lparr>threshold_pct = config_get (cfg_float cfg) ''AGGREGATE_MAX_RISK'' 5,
      max_block_attempts = config_get (cfg_int cfg) ''AGGREGATE_MAX_ATTEMPTS'' 3,
      block_minutes = config_get (cfg_int cfg) ''AGGREGATE_BLOCK_MINUTES'' 60\<rparr>"

text \<open>
  Lines 14--15 and 26 of \<open>limits_watch.py\<close>: the watcher passes its own
  threshold and maximum; the block window is the enforcer's default.
\<close>

definition watch_params :: "rg_config \<Rightarrow> limits_params" where
  "watch_params cfg =
     \<lparr>threshold_pct = config_get (cfg_float cfg) ''AGGREGATE_MAX_RISK'' 5,
      max_block_attempts = config_get (cfg_int cfg) ''AGGREGATE_MAX_ATTEMPTS'' 3,
      block_minutes = block_minutes (limits_defaults cfg)\<rparr>"

text \<open>Lines 222--228 of \<open>limits.py\<close>: \<open>should_log\<close>.\<close>

definition should_log :: "limits_report \<Rightarrow> bool" where
  "should_log r =
     (new_tickets_detected r \<noteq> [] \<or> rep_closed r \<noteq> [] \<or> rep_failed r \<noteq> []
      \<or> attempts_before r \<noteq> attempts_after r \<or> risk_block_active_before r \<noteq> risk_block_active_after r)"

text \<open>How a script ends without its result: the failed \<open>assert reader.connect()\<close>, or an exception.\<close>

datatype main_error = AssertionFailed | Uncaught py_error

text \<open>
  Lines 216--244 of \<open>limits.py\<close>: connect, one call with the defaults, the
  decision to log, the status. An exception of the call or of
  \<open>risk_block_status\<close> ends the script (the \<open>finally\<close> only shuts the reader
  down), with the state as it was left.
\<close>

definition limits_selftest ::
  "rg_config \<Rightarrow> (position \<Rightarrow> bool) \<Rightarrow> bool \<Rightarrow> timestamp \<Rightarrow> snapshot \<Rightarrow> json_file \<Rightarrow> world
   \<Rightarrow> (main_error + limits_report \<times> bool \<times> block_status) \<times> json_file \<times> world" where
  "limits_selftest cfg c connects now snap f w =
     (if \<not> connects then (Inl AssertionFailed, f, w)
      else case enforce_json (limits_defaults cfg) now snap c f w of
             Inl e \<Rightarrow> (Inl (Uncaught e), f, w)
           | Inr (r, f1, w1) \<Rightarrow>
               (case json_block_status now f1 (w_kill w1) of
                  Inl e \<Rightarrow> (Inl (Uncaught e), f1, w1)
                | Inr bs \<Rightarrow> (Inr (r, should_log r, bs), f1, w1)))"

text \<open>
  Lines 13--69 of \<open>limits_watch.py\<close>: connect, start with no previous status,
  run the loop; an exception other than \<open>KeyboardInterrupt\<close> ends \<open>main\<close>.
\<close>

definition watch_main ::
  "rg_config \<Rightarrow> (position \<Rightarrow> bool) \<Rightarrow> bool \<Rightarrow> (timestamp \<times> snapshot) list \<Rightarrow> json_file \<Rightarrow> world
   \<Rightarrow> limits_report list \<times> main_error option \<times> json_file \<times> world" where
  "watch_main cfg c connects ticks f w =
     (if \<not> connects then ([], Some AssertionFailed, f, w)
      else (let (ns, e, f', w') = watch_loop (watch_params cfg) c ticks
                                    \<lparr>prev_attempts = None, prev_block = None\<rparr> f w
            in (ns, map_option Uncaught e, f', w')))"

subsection \<open>Lemmas\<close>

text \<open>The watcher runs the enforcer with the parameters of its own defaults.\<close>

lemma watch_params_defaults: "watch_params cfg = limits_defaults cfg"
  by (simp add: watch_params_def limits_defaults_def)

text \<open>
  On a typed state file and an instant in range, the self-test runs to its
  end: the call does not raise, the file stays typed, it is logged exactly
  when \<open>should_log\<close> holds of its report, and the status printed is the
  record-level \<open>risk_block_status\<close> of the state it leaves.
\<close>

lemma limits_selftest_typed:
  assumes "file_typed f" "datetime_range now"
  shows "\<exists>r f' w'. limits_selftest cfg c True now snap f w
           = (Inr (r, should_log r, risk_block_status now (w'\<lparr>w_limits := abs_file f'\<rparr>)), f', w')
         \<and> file_typed f'"
proof -
  obtain r f' w' where E: "enforce_json (limits_defaults cfg) now snap c f w = Inr (r, f', w')"
    and T: "file_typed f'"
    using enforce_json_progress [OF assms] by blast
  have S: "json_block_status now f' (w_kill w') = Inr (risk_block_status now (w'\<lparr>w_limits := abs_file f'\<rparr>))"
    using json_block_status_refines [OF T, of now "w_kill w'" w'] by simp
  have "limits_selftest cfg c True now snap f w
      = (Inr (r, should_log r, risk_block_status now (w'\<lparr>w_limits := abs_file f'\<rparr>)), f', w')"
    unfolding limits_selftest_def by (simp only: E S not_True_eq_False if_False sum.case prod.case)
  with T show ?thesis by blast
qed

end
