(* ===== verification/News.thy ===== *)
theory News
  imports World "HOL-Library.Sublist"
begin

text \<open>
  The news-window enforcer of \<open>src/RiskGuardv0.0.2/news/news_windows0.2.py\<close>
  (\<open>map_symbol_currencies\<close>, \<open>find_events\<close>, \<open>enforce_news_window\<close>) and its
  earlier revision \<open>news_windows0.1.py\<close>. A position is affected when it has a
  symbol and an open time, was opened at most \<open>recent_s\<close> seconds ago, and a
  calendar event of one of its symbol's currencies lies within \<open>window_min\<close>
  minutes of now. Every affected position gets one close request; the
  kill switch is armed until the latest matching event plus the window. Revision
  0.2 arms it once, after the batch; revision 0.1 switches AutoTrading on before
  each close and arms the kill switch inside the loop, once per position.
  Strings are ASCII: \<open>upper\<close> and \<open>isalpha\<close> are read on ASCII letters.
\<close>

subsection \<open>Symbols and currencies\<close>

definition py_upper_char :: "char \<Rightarrow> char" where
  "py_upper_char c = (let n = of_char c :: nat in if 97 \<le> n \<and> n \<le> 122 then char_of (n - 32) else c)"

definition py_upper :: "string \<Rightarrow> string" where
  "py_upper s = map py_upper_char s"

definition py_isalpha :: "string \<Rightarrow> bool" where
  "py_isalpha s = (s \<noteq> [] \<and>
     list_all (\<lambda>c. let n = of_char c :: nat in (65 \<le> n \<and> n \<le> 90) \<or> (97 \<le> n \<and> n \<le> 122)) s)"

text \<open>\<open>s[-3:]\<close>: the whole string when it is shorter than three.\<close>

definition py_last3 :: "string \<Rightarrow> string" where
  "py_last3 s = drop (length s - 3) s"

definition map_symbol_currencies :: "string \<Rightarrow> string set" where
  "map_symbol_currencies symbol =
     (let s = py_upper symbol
      in if 6 \<le> length s \<and> py_isalpha (take 3 s) \<and> py_isalpha (take 3 (drop 3 s))
         then {take 3 s, take 3 (drop 3 s)}
         else {py_last3 s})"

subsection \<open>Calendar events\<close>

text \<open>
  A row of the cached ForexFactory calendar. \<open>events_df\<close> is \<open>None\<close> when the
  cache could not be loaded; \<open>find_events\<close> keeps the rows in the frame's order
  (sorted by time by \<open>load_cached_calendar\<close>).
\<close>

record event =
  ev_currency :: string
  ev_ts :: timestamp
  ev_label :: string

definition find_events ::
  "event list option \<Rightarrow> string set \<Rightarrow> timestamp \<Rightarrow> int \<Rightarrow> event list" where
  "find_events df currencies now window_min =
     (case df of
        None \<Rightarrow> []
      | Some evs \<Rightarrow>
          filter (\<lambda>e. ev_currency e \<in> currencies
                       \<and> now - minutes window_min \<le> ev_ts e \<and> ev_ts e \<le> now + minutes window_min) evs)"

subsection \<open>One position\<close>

record news_params =
  window_min :: int
  recent_s :: "int option"

text \<open>\<open>if recent_s is None: recent_s = window_min * 60\<close>.\<close>

definition recent_limit :: "news_params \<Rightarrow> int" where
  "recent_limit prm = (case recent_s prm of None \<Rightarrow> window_min prm * 60 | Some r \<Rightarrow> r)"

text \<open>
  Lines 150--176 of revision 0.2: the skips (no symbol, no open time, opened too
  long ago) and the matching events; an empty list means the position is left
  alone.
\<close>

definition news_matches :: "news_params \<Rightarrow> timestamp \<Rightarrow> event list option \<Rightarrow> position \<Rightarrow> event list" where
  "news_matches prm now df p =
     (if pos_symbol p = [] then []
      else case pos_open_time p of
             None \<Rightarrow> []
           | Some ot \<Rightarrow>
               if recent_limit prm < now - ot then []
               else find_events df (map_symbol_currencies (pos_symbol p)) now (window_min prm))"

text \<open>\<open>max(m["ts_utc"] for m in matches) + timedelta(minutes=window_min)\<close>.\<close>

definition event_until :: "news_params \<Rightarrow> event list \<Rightarrow> timestamp" where
  "event_until prm ms = Max (ev_ts ` set ms) + minutes (window_min prm)"

record news_report =
  affected :: "(ticket \<times> event list) list"
  nr_closed :: "ticket list"
  nr_failed :: "ticket list"
  nr_kill_switch_until :: "timestamp option"

definition empty_news_report :: news_report where
  "empty_news_report = \<lparr>affected = [], nr_closed = [], nr_failed = [], nr_kill_switch_until = None\<rparr>"

definition record_close :: "bool \<Rightarrow> ticket \<Rightarrow> news_report \<Rightarrow> news_report" where
  "record_close ok t rep =
     (if ok then rep\<lparr>nr_closed := nr_closed rep @ [t]\<rparr> else rep\<lparr>nr_failed := nr_failed rep @ [t]\<rparr>)"

subsection \<open>Revision 0.2\<close>

text \<open>
  Lines 136--216: the loop over the positions. The latest expiry so far is
  \<open>max_until\<close>; the kill switch is not touched inside the loop.
\<close>

fun news_loop ::
  "(position \<Rightarrow> bool) \<Rightarrow> news_params \<Rightarrow> timestamp \<Rightarrow> event list option \<Rightarrow> position list
   \<Rightarrow> news_report \<Rightarrow> timestamp option \<Rightarrow> world \<Rightarrow> news_report \<times> timestamp option \<times> world" where
  "news_loop c prm now df [] rep mu w = (rep, mu, w)"
| "news_loop c prm now df (p # ps) rep mu w =
     (let ms = news_matches prm now df p
      in if ms = [] then news_loop c prm now df ps rep mu w
         else (let (ok, w1) = w_close c p w;
                   rep1 = record_close ok (pos_ticket p) rep;
                   this_until = event_until prm ms;
                   mu' = (case mu of None \<Rightarrow> Some this_until
                                   | Some m \<Rightarrow> if m < this_until then Some this_until else Some m);
                   rep2 = rep1\<lparr>affected := affected rep1 @ [(pos_ticket p, ms)]\<rparr>
               in news_loop c prm now df ps rep2 mu' w1))"

text \<open>
  \<open>enforce_news_window\<close>: a failed snapshot (\<open>None\<close>) returns the empty report
  and changes nothing; otherwise the loop runs and, after all affected positions
  were attempted, the kill switch is armed once to the latest expiry.
\<close>

definition enforce_news_window ::
  "(position \<Rightarrow> bool) \<Rightarrow> news_params \<Rightarrow> timestamp \<Rightarrow> snapshot option \<Rightarrow> event list option
   \<Rightarrow> world \<Rightarrow> news_report \<times> world" where
  "enforce_news_window c prm now snap df w =
     (case snap of
        None \<Rightarrow> (empty_news_report, w)
      | Some s \<Rightarrow>
          (let (rep, mu, w1) = news_loop c prm now df (snap_positions s) empty_news_report None w
           in case mu of
                None \<Rightarrow> (rep, w1)
              | Some u \<Rightarrow> if affected rep \<noteq> []
                          then (rep\<lparr>nr_kill_switch_until := Some u\<rparr>, w_arm u w1)
                          else (rep, w1)))"

subsection \<open>Revision 0.1\<close>

text \<open>
  Lines 123--172 of \<open>news_windows0.1.py\<close>: AutoTrading is switched on before
  each close, and the kill switch is armed, and the report's expiry overwritten,
  for every affected position in turn.
\<close>

fun news_loop_v01 ::
  "(position \<Rightarrow> bool) \<Rightarrow> news_params \<Rightarrow> timestamp \<Rightarrow> event list option \<Rightarrow> position list
   \<Rightarrow> news_report \<Rightarrow> world \<Rightarrow> news_report \<times> world" where
  "news_loop_v01 c prm now df [] rep w = (rep, w)"
| "news_loop_v01 c prm now df (p # ps) rep w =
     (let ms = news_matches prm now df p
      in if ms = [] then news_loop_v01 c prm now df ps rep w
         else (let w0 = w\<lparr>w_engine := ensure_autotrading_on (w_engine w)\<rparr>;
                   (ok, w1) = w_close c p w0;
                   rep1 = record_close ok (pos_ticket p) rep;
                   u = event_until prm ms;
                   rep2 = rep1\<lparr>nr_kill_switch_until := Some u\<rparr>;
                   w2 = w_arm u w1;
                   rep3 = rep2\<lparr>affected := affected rep2 @ [(pos_ticket p, ms)]\<rparr>
               in news_loop_v01 c prm now df ps rep3 w2))"

definition enforce_news_window_v01 ::
  "(position \<Rightarrow> bool) \<Rightarrow> news_params \<Rightarrow> timestamp \<Rightarrow> snapshot option \<Rightarrow> event list option
   \<Rightarrow> world \<Rightarrow> news_report \<times> world" where
  "enforce_news_window_v01 c prm now snap df w =
     (case snap of
        None \<Rightarrow> (empty_news_report, w)
      | Some s \<Rightarrow> news_loop_v01 c prm now df (snap_positions s) empty_news_report w)"

text \<open>The positions the loop acts on, in the snapshot's order.\<close>

definition affected_positions ::
  "news_params \<Rightarrow> timestamp \<Rightarrow> event list option \<Rightarrow> position list \<Rightarrow> position list" where
  "affected_positions prm now df ps = filter (\<lambda>p. news_matches prm now df p \<noteq> []) ps"

subsection \<open>Example data\<close>

definition ex_news_params :: news_params where
  "ex_news_params = \<lparr>window_min = 60, recent_s = None\<rparr>"

definition ex_npos :: "ticket \<Rightarrow> string \<Rightarrow> timestamp \<Rightarrow> position" where
  "ex_npos t symb ot = \<lparr>pos_ticket = t, pos_symbol = symb, pos_type = 0, pos_volume = 1,
                       pos_open_time = Some ot\<rparr>"

definition ex_event :: "string \<Rightarrow> timestamp \<Rightarrow> event" where
  "ex_event cur ts = \<lparr>ev_currency = cur, ev_ts = ts, ev_label = ''event''\<rparr>"

definition ex_news_world :: "position list \<Rightarrow> world" where
  "ex_news_world ps = \<lparr>w_limits = NoFile, w_kill = ks_empty,
     w_engine = \<lparr>eng_positions = ps, eng_autotrading = True\<rparr>\<rparr>"

subsection \<open>Lemmas on the loops\<close>

lemma record_close_sel [simp]:
  "affected (record_close ok t rep) = affected rep"
  "nr_kill_switch_until (record_close ok t rep) = nr_kill_switch_until rep"
  "set (nr_closed (record_close ok t rep)) \<union> set (nr_failed (record_close ok t rep)) =
     insert t (set (nr_closed rep) \<union> set (nr_failed rep))"
  by (auto simp: record_close_def)

lemma max_until_step:
  "(case mu of None \<Rightarrow> Some u | Some m \<Rightarrow> if m < u then Some u else Some m) = opt_max mu u"
  by (auto simp: opt_max_def max_def split: option.splits)

lemma news_loop_step:
  assumes "news_matches prm now df p \<noteq> []" "news_loop c prm now df (p # ps) rep mu w = res"
  obtains ok w1 where "w_close c p w = (ok, w1)"
    "news_loop c prm now df ps
       ((record_close ok (pos_ticket p) rep)\<lparr>affected := affected rep @ [(pos_ticket p, news_matches prm now df p)]\<rparr>)
       (opt_max mu (event_until prm (news_matches prm now df p))) w1 = res"
proof -
  obtain ok w1 where w1: "w_close c p w = (ok, w1)" by fastforce
  with assms that show ?thesis by (simp add: Let_def max_until_step)
qed

text \<open>What the 0.2 loop does, in one statement: the affected positions in order,
  one close request each, the latest expiry, and nothing else changed.\<close>

lemma news_loop_result:
  assumes "news_loop c prm now df ps rep mu w = (rep', mu', w')"
  shows "affected rep' = affected rep
           @ map (\<lambda>p. (pos_ticket p, news_matches prm now df p)) (affected_positions prm now df ps)
    \<and> set (nr_closed rep') \<union> set (nr_failed rep') =
        set (nr_closed rep) \<union> set (nr_failed rep) \<union> pos_ticket ` set (affected_positions prm now df ps)
    \<and> mu' = fold (\<lambda>u m. opt_max m u)
              (map (\<lambda>p. event_until prm (news_matches prm now df p)) (affected_positions prm now df ps)) mu
    \<and> nr_kill_switch_until rep' = nr_kill_switch_until rep
    \<and> w_limits w' = w_limits w \<and> w_kill w' = w_kill w
    \<and> eng_autotrading (w_engine w') = eng_autotrading (w_engine w)"
  using assms
proof (induction ps arbitrary: rep mu w)
  case Nil
  then show ?case by (simp add: affected_positions_def)
next
  case (Cons p ps)
  show ?case
  proof (cases "news_matches prm now df p = []")
    case True
    with Cons show ?thesis by (simp add: affected_positions_def)
  next
    case False
    from this Cons.prems obtain ok w1 where w1: "w_close c p w = (ok, w1)" and
      rest: "news_loop c prm now df ps
       ((record_close ok (pos_ticket p) rep)\<lparr>affected := affected rep @ [(pos_ticket p, news_matches prm now df p)]\<rparr>)
       (opt_max mu (event_until prm (news_matches prm now df p))) w1 = (rep', mu', w')"
      by (rule news_loop_step)
    have f: "w_limits w1 = w_limits w" "w_kill w1 = w_kill w"
      "eng_autotrading (w_engine w1) = eng_autotrading (w_engine w)"
      using w1 w_close_engine [of c p w] w_close_frame [of c p w] by simp_all
    from Cons.IH [OF rest] False f show ?thesis
      by (auto simp: affected_positions_def)
  qed
qed

lemma news_loop_v01_step:
  assumes "news_matches prm now df p \<noteq> []" "news_loop_v01 c prm now df (p # ps) rep w = res"
  obtains ok w1 where "w_close c p (w\<lparr>w_engine := ensure_autotrading_on (w_engine w)\<rparr>) = (ok, w1)"
    "news_loop_v01 c prm now df ps
       ((record_close ok (pos_ticket p) rep)\<lparr>nr_kill_switch_until := Some (event_until prm (news_matches prm now df p)),
          affected := affected rep @ [(pos_ticket p, news_matches prm now df p)]\<rparr>)
       (w_arm (event_until prm (news_matches prm now df p)) w1) = res"
proof -
  obtain ok w1 where w1: "w_close c p (w\<lparr>w_engine := ensure_autotrading_on (w_engine w)\<rparr>) = (ok, w1)"
    by fastforce
  with assms that show ?thesis by (simp add: Let_def)
qed

text \<open>
  The two revisions' loops agree step by step: the same affected positions, the
  same close requests with the same answers, the same engine positions, and the
  kill switch of revision 0.1 is at every step that of revision 0.2 armed with its
  \<open>max_until\<close>.
\<close>

lemma news_loops_agree:
  assumes "news_loop c prm now df ps rep mu w = (rA, muA, wA)"
    and "news_loop_v01 c prm now df ps repB wB = (rB, wB')"
    and "affected repB = affected rep" "nr_closed repB = nr_closed rep" "nr_failed repB = nr_failed rep"
    and "eng_positions (w_engine wB) = eng_positions (w_engine w)" "w_limits wB = w_limits w"
    and "ks_until (w_kill wB) = opt_join mu (ks_until (w_kill w))"
  shows "affected rB = affected rA \<and> nr_closed rB = nr_closed rA \<and> nr_failed rB = nr_failed rA
    \<and> eng_positions (w_engine wB') = eng_positions (w_engine wA) \<and> w_limits wB' = w_limits wA
    \<and> ks_until (w_kill wB') = opt_join muA (ks_until (w_kill wA))
    \<and> eng_autotrading (w_engine wB') =
        (eng_autotrading (w_engine wB) \<or> affected_positions prm now df ps \<noteq> [])"
  using assms
proof (induction ps arbitrary: rep mu w repB wB)
  case Nil
  then show ?case by (simp add: affected_positions_def)
next
  case (Cons p ps)
  show ?case
  proof (cases "news_matches prm now df p = []")
    case True
    with Cons.IH [OF _ _ Cons.prems(3-8)] Cons.prems(1,2) show ?thesis
      by (simp add: affected_positions_def)
  next
    case False
    let ?ms = "news_matches prm now df p"
    from False Cons.prems(1) obtain ok w1 where w1: "w_close c p w = (ok, w1)" and
      restA: "news_loop c prm now df ps
       ((record_close ok (pos_ticket p) rep)\<lparr>affected := affected rep @ [(pos_ticket p, ?ms)]\<rparr>)
       (opt_max mu (event_until prm ?ms)) w1 = (rA, muA, wA)"
      by (rule news_loop_step)
    from False Cons.prems(2) obtain okB w1B where
      w1B: "w_close c p (wB\<lparr>w_engine := ensure_autotrading_on (w_engine wB)\<rparr>) = (okB, w1B)" and
      restB: "news_loop_v01 c prm now df ps
       ((record_close okB (pos_ticket p) repB)\<lparr>nr_kill_switch_until := Some (event_until prm ?ms),
          affected := affected repB @ [(pos_ticket p, ?ms)]\<rparr>)
       (w_arm (event_until prm ?ms) w1B) = (rB, wB')"
      by (rule news_loop_v01_step)
    have eqpos: "eng_positions (ensure_autotrading_on (w_engine wB)) = eng_positions (w_engine w)"
      using Cons.prems(6) by (simp add: ensure_autotrading_on_def)
    from close_position_full_positions_only [OF eqpos, of c p]
    have same: "okB = ok" "eng_positions (w_engine w1B) = eng_positions (w_engine w1)"
      using w1 w1B w_close_engine [of c p w] w_close_engine [of c p "wB\<lparr>w_engine := ensure_autotrading_on (w_engine wB)\<rparr>"]
      by simp_all
    have kill: "ks_until (w_kill (w_arm (event_until prm ?ms) w1B)) =
        opt_join (opt_max mu (event_until prm ?ms)) (ks_until (w_kill w1))"
      using w1 w1B w_close_frame [of c p w] w_close_frame [of c p "wB\<lparr>w_engine := ensure_autotrading_on (w_engine wB)\<rparr>"]
        Cons.prems(8)
      by (simp add: ks_until_set_kill_until_opt_max opt_max_opt_join del: ks_until_set_kill_until)
    have lim: "w_limits (w_arm (event_until prm ?ms) w1B) = w_limits w1"
      using w1 w1B w_close_frame [of c p w] w_close_frame [of c p "wB\<lparr>w_engine := ensure_autotrading_on (w_engine wB)\<rparr>"]
        Cons.prems(7) by simp
    have at: "eng_autotrading (w_engine (w_arm (event_until prm ?ms) w1B))"
      using w1B w_close_engine [of c p "wB\<lparr>w_engine := ensure_autotrading_on (w_engine wB)\<rparr>"]
      by (simp add: ensure_autotrading_on_def)
    have "affected rB = affected rA \<and> nr_closed rB = nr_closed rA \<and> nr_failed rB = nr_failed rA
      \<and> eng_positions (w_engine wB') = eng_positions (w_engine wA) \<and> w_limits wB' = w_limits wA
      \<and> ks_until (w_kill wB') = opt_join muA (ks_until (w_kill wA))
      \<and> eng_autotrading (w_engine wB') =
          (eng_autotrading (w_engine (w_arm (event_until prm ?ms) w1B)) \<or> affected_positions prm now df ps \<noteq> [])"
      by (rule Cons.IH [OF restA restB])
         (use Cons.prems(3-5) same kill lim in \<open>simp_all add: record_close_def\<close>)
    with at False show ?thesis by (simp add: affected_positions_def)
  qed
qed

text \<open>The two outcomes of \<open>enforce_news_window\<close> on a snapshot, after its loop.\<close>

lemma enforce_news_window_cases:
  assumes "enforce_news_window c prm now (Some s) df w = (r, w')"
  obtains rep mu w1 where
    "news_loop c prm now df (snap_positions s) empty_news_report None w = (rep, mu, w1)"
    "mu = None" "r = rep" "w' = w1"
  | rep u w1 where
    "news_loop c prm now df (snap_positions s) empty_news_report None w = (rep, Some u, w1)"
    "affected rep \<noteq> []" "r = rep\<lparr>nr_kill_switch_until := Some u\<rparr>" "w' = w_arm u w1"
  | rep u w1 where
    "news_loop c prm now df (snap_positions s) empty_news_report None w = (rep, Some u, w1)"
    "affected rep = []" "r = rep" "w' = w1"
proof -
  obtain rep mu w1 where l: "news_loop c prm now df (snap_positions s) empty_news_report None w = (rep, mu, w1)"
    by (cases "news_loop c prm now df (snap_positions s) empty_news_report None w")
  with assms that show ?thesis
    by (cases mu; cases "affected rep = []") (auto simp: enforce_news_window_def)
qed

lemma empty_news_report_sel [simp]:
  "affected empty_news_report = []" "nr_closed empty_news_report = []"
  "nr_failed empty_news_report = []" "nr_kill_switch_until empty_news_report = None"
  by (simp_all add: empty_news_report_def)

lemmas news_example_defs = ex_news_params_def ex_npos_def ex_event_def ex_news_world_def

section \<open>Properties of the news-window enforcer\<close>

text \<open>
  C18. On a snapshot, revision 0.2 acts on exactly the affected positions, in the
  snapshot's order, sends one close request for each, and leaves the kill
  switch expiring at the latest of its previous expiry and, for every affected
  position, its latest matching event plus the window; the limits file and the
  AutoTrading flag are untouched.
\<close>

theorem enforce_news_window_contract:
  assumes run: "enforce_news_window c prm now (Some s) df w = (r, w')"
  defines "aff \<equiv> affected_positions prm now df (snap_positions s)"
  shows "affected r = map (\<lambda>p. (pos_ticket p, news_matches prm now df p)) aff
    \<and> set (nr_closed r) \<union> set (nr_failed r) = pos_ticket ` set aff
    \<and> ks_until (w_kill w') =
        (if aff = [] then ks_until (w_kill w)
         else Some (Max (set (map (\<lambda>p. event_until prm (news_matches prm now df p)) aff)
                         \<union> set_option (ks_until (w_kill w)))))
    \<and> w_limits w' = w_limits w \<and> eng_autotrading (w_engine w') = eng_autotrading (w_engine w)"
  using run
proof (cases rule: enforce_news_window_cases)
  case (1 rep mu w1)
  from news_loop_result [OF 1(1)] 1(2-) show ?thesis
    by (simp add: aff_def fold_opt_max split: if_splits)
next
  case (2 rep u w1)
  note res = news_loop_result [OF 2(1)]
  let ?xs = "map (\<lambda>p. event_until prm (news_matches prm now df p)) aff"
  have mu: "Some u = fold (\<lambda>u m. opt_max m u) ?xs None"
    using res by (simp add: aff_def)
  have k1: "w_kill w1 = w_kill w" using res by simp
  have "ks_until (w_kill w') = opt_join (Some u) (ks_until (w_kill w))"
    using 2(4) k1 by (simp add: ks_until_set_kill_until_opt_max opt_join_def del: ks_until_set_kill_until)
  also have "\<dots> = fold (\<lambda>u m. opt_max m u) ?xs (ks_until (w_kill w))"
    by (simp only: mu opt_join_fold_opt_max)
  finally have k: "ks_until (w_kill w') = fold (\<lambda>u m. opt_max m u) ?xs (ks_until (w_kill w))" .
  from res 2(2-) show ?thesis
    unfolding k by (simp add: aff_def fold_opt_max)
next
  case (3 rep u w1)
  from news_loop_result [OF 3(1)] 3(2-) show ?thesis
    by (simp add: aff_def fold_opt_max)
qed

theorem enforce_news_window_contract_witness:
  "affected (fst (enforce_news_window (\<lambda>_. True) ex_news_params 100000
      (Some \<lparr>total_risk_pct = 1, snap_positions = [ex_npos 7 ''EURUSD'' 99990]\<rparr>)
      (Some [ex_event ''USD'' 100300]) (ex_news_world [ex_npos 7 ''EURUSD'' 99990])))
   = map (\<lambda>p. (pos_ticket p, news_matches ex_news_params 100000 (Some [ex_event ''USD'' 100300]) p))
       (affected_positions ex_news_params 100000 (Some [ex_event ''USD'' 100300])
          (snap_positions \<lparr>total_risk_pct = 1, snap_positions = [ex_npos 7 ''EURUSD'' 99990]\<rparr>))"
  using enforce_news_window_contract [OF surjective_pairing] by blast

text \<open>
  The two revisions agree on everything but AutoTrading: on the same
  snapshot and world they act on the same positions, record the same closed and
  failed tickets, leave the same engine positions, the same limits file and the
  same kill switch (arming once with the maximum is arming per position, since
  arming keeps the later expiry); revision 0.1 in addition leaves AutoTrading on
  whenever it touched a position.
\<close>

theorem news_revisions_agree:
  assumes v2: "enforce_news_window c prm now (Some s) df w = (r2, w2)"
    and v1: "enforce_news_window_v01 c prm now (Some s) df w = (r1, w1)"
  shows "affected r1 = affected r2 \<and> nr_closed r1 = nr_closed r2 \<and> nr_failed r1 = nr_failed r2
    \<and> w_kill w1 = w_kill w2 \<and> eng_positions (w_engine w1) = eng_positions (w_engine w2)
    \<and> w_limits w1 = w_limits w2
    \<and> eng_autotrading (w_engine w1) = (eng_autotrading (w_engine w) \<or> affected r2 \<noteq> [])"
proof -
  from v1 have l1: "news_loop_v01 c prm now df (snap_positions s) empty_news_report w = (r1, w1)"
    by (simp add: enforce_news_window_v01_def)
  show ?thesis
    using v2
  proof (cases rule: enforce_news_window_cases)
    case (1 rep mu wA)
    note res = news_loop_result [OF 1(1)]
    have ag: "affected r1 = affected rep \<and> nr_closed r1 = nr_closed rep \<and> nr_failed r1 = nr_failed rep
      \<and> eng_positions (w_engine w1) = eng_positions (w_engine wA) \<and> w_limits w1 = w_limits wA
      \<and> ks_until (w_kill w1) = opt_join mu (ks_until (w_kill wA))
      \<and> eng_autotrading (w_engine w1) =
          (eng_autotrading (w_engine w) \<or> affected_positions prm now df (snap_positions s) \<noteq> [])"
      by (rule news_loops_agree [OF 1(1) l1]) (simp_all add: opt_join_def)
    with res 1(2-) show ?thesis
      by (simp add: kill_state.equality opt_join_def fold_opt_max split: if_splits)
  next
    case (2 rep u wA)
    note res = news_loop_result [OF 2(1)]
    have ag: "affected r1 = affected rep \<and> nr_closed r1 = nr_closed rep \<and> nr_failed r1 = nr_failed rep
      \<and> eng_positions (w_engine w1) = eng_positions (w_engine wA) \<and> w_limits w1 = w_limits wA
      \<and> ks_until (w_kill w1) = opt_join (Some u) (ks_until (w_kill wA))
      \<and> eng_autotrading (w_engine w1) =
          (eng_autotrading (w_engine w) \<or> affected_positions prm now df (snap_positions s) \<noteq> [])"
      by (rule news_loops_agree [OF 2(1) l1]) (simp_all add: opt_join_def)
    have kA: "w_kill wA = w_kill w" using res by simp
    have k1: "ks_until (w_kill w1) = opt_max (ks_until (w_kill w)) u"
      using ag kA by (simp add: opt_join_def)
    have k2: "ks_until (w_kill w2) = opt_max (ks_until (w_kill w)) u"
      using 2(4) kA by (simp add: ks_until_set_kill_until_opt_max del: ks_until_set_kill_until)
    have "w_kill w1 = w_kill w2"
      by (rule kill_state.equality) (simp_all add: k1 k2)
    with ag res 2(2-) show ?thesis by simp
  next
    case (3 rep u wA)
    note res = news_loop_result [OF 3(1)]
    from res 3(2) have "affected_positions prm now df (snap_positions s) = []" by simp
    with res have False by (simp add: fold_opt_max)
    then show ?thesis ..
  qed
qed

theorem news_revisions_agree_witness:
  "w_kill (snd (enforce_news_window_v01 (\<lambda>_. True) ex_news_params 100000
      (Some \<lparr>total_risk_pct = 1, snap_positions = [ex_npos 7 ''EURUSD'' 99990]\<rparr>)
      (Some [ex_event ''USD'' 100300]) (ex_news_world [ex_npos 7 ''EURUSD'' 99990])))
   = w_kill (snd (enforce_news_window (\<lambda>_. True) ex_news_params 100000
      (Some \<lparr>total_risk_pct = 1, snap_positions = [ex_npos 7 ''EURUSD'' 99990]\<rparr>)
      (Some [ex_event ''USD'' 100300]) (ex_news_world [ex_npos 7 ''EURUSD'' 99990])))"
  using news_revisions_agree [OF surjective_pairing surjective_pairing] by blast

text \<open>
  C20. Revision 0.2 closes only positions that qualify: every affected entry is
  a position of the snapshot with a symbol and an open time at most
  \<open>recent_s\<close> seconds back, and its matches are non-empty, drawn from the loaded
  calendar, of a currency of the position's symbol and within the window of now.
\<close>

theorem news_affected_qualify:
  assumes run: "enforce_news_window c prm now (Some s) df w = (r, w')"
    and mem: "(t, ms) \<in> set (affected r)"
  shows "\<exists>p \<in> set (snap_positions s). pos_ticket p = t \<and> pos_symbol p \<noteq> []
    \<and> (\<exists>ot. pos_open_time p = Some ot \<and> now - ot \<le> recent_limit prm)
    \<and> ms \<noteq> [] \<and> (\<exists>evs. df = Some evs \<and> set ms \<subseteq> set evs)
    \<and> (\<forall>e \<in> set ms. ev_currency e \<in> map_symbol_currencies (pos_symbol p)
                     \<and> \<bar>ev_ts e - now\<bar> \<le> minutes (window_min prm))"
proof -
  have "affected r = map (\<lambda>p. (pos_ticket p, news_matches prm now df p))
      (affected_positions prm now df (snap_positions s))"
    using run
  proof (cases rule: enforce_news_window_cases)
    case (1 rep mu w1)
    with news_loop_result [OF 1(1)] show ?thesis by simp
  next
    case (2 rep u w1)
    with news_loop_result [OF 2(1)] show ?thesis by simp
  next
    case (3 rep u w1)
    with news_loop_result [OF 3(1)] show ?thesis by simp
  qed
  with mem obtain p where p: "p \<in> set (snap_positions s)" "pos_ticket p = t"
    "ms = news_matches prm now df p" "ms \<noteq> []"
    by (auto simp: affected_positions_def)
  then show ?thesis
    by (auto simp: news_matches_def find_events_def split: if_splits option.splits)
qed

theorem news_affected_qualify_witness:
  "(7, [ex_event ''USD'' 100300]) \<in> set (affected (fst (enforce_news_window (\<lambda>_. True) ex_news_params 100000
      (Some \<lparr>total_risk_pct = 1, snap_positions = [ex_npos 7 ''EURUSD'' 99990]\<rparr>)
      (Some [ex_event ''USD'' 100300]) (ex_news_world [ex_npos 7 ''EURUSD'' 99990]))))
   \<and> (\<exists>p \<in> set [ex_npos 7 ''EURUSD'' 99990]. pos_ticket p = 7 \<and> pos_symbol p \<noteq> []
        \<and> (\<exists>ot. pos_open_time p = Some ot \<and> 100000 - ot \<le> recent_limit ex_news_params))"
proof -
  have h: "(7, [ex_event ''USD'' 100300]) \<in> set (affected (fst (enforce_news_window (\<lambda>_. True)
      ex_news_params 100000
      (Some \<lparr>total_risk_pct = 1, snap_positions = [ex_npos 7 ''EURUSD'' 99990]\<rparr>)
      (Some [ex_event ''USD'' 100300]) (ex_news_world [ex_npos 7 ''EURUSD'' 99990]))))"
    by code_simp
  from news_affected_qualify [OF surjective_pairing h] h show ?thesis by auto
qed

text \<open>
  Scenario D of the specification: with a 60-minute window, a EURUSD
  position opened ten seconds ago and a USD event five minutes ahead, the
  position is closed and the kill switch is armed until the event plus 60
  minutes.
\<close>

theorem news_scenario_D:
  "let (r, w) = enforce_news_window (\<lambda>_. True) ex_news_params 100000
        (Some \<lparr>total_risk_pct = 1, snap_positions = [ex_npos 7 ''EURUSD'' 99990]\<rparr>)
        (Some [ex_event ''USD'' 100300]) (ex_news_world [ex_npos 7 ''EURUSD'' 99990])
   in nr_closed r = [7] \<and> nr_failed r = []
      \<and> ks_until (w_kill w) = Some (100300 + 60 * 60)
      \<and> nr_kill_switch_until r = Some (100300 + 60 * 60)
      \<and> eng_positions (w_engine w) = []"
  by code_simp

text \<open>
  Every currency derived from a symbol is at most three characters long
  and a contiguous piece of the upper-cased symbol.
\<close>

theorem map_symbol_currencies_sub:
  assumes "c \<in> map_symbol_currencies symbol"
  shows "length c \<le> 3 \<and> sublist c (py_upper symbol)"
proof -
  have pre: "sublist (take 3 xs) xs" and mid: "sublist (take 3 (drop 3 xs)) xs"
    and last: "sublist (py_last3 xs) xs" for xs :: string
    by (auto simp: sublist_altdef' py_last3_def intro: take_is_prefix suffix_drop)
  from assms pre [of "py_upper symbol"] mid [of "py_upper symbol"] last [of "py_upper symbol"]
  show ?thesis
    by (auto simp: map_symbol_currencies_def Let_def py_last3_def split: if_splits)
qed

theorem map_symbol_currencies_sub_witness:
  "''USD'' \<in> map_symbol_currencies ''EURUSD'' \<and> length ''USD'' \<le> 3 \<and> sublist ''USD'' (py_upper ''EURUSD'')"
proof -
  have h: "''USD'' \<in> map_symbol_currencies ''EURUSD''" by code_simp
  from map_symbol_currencies_sub [OF h] h show ?thesis by blast
qed

text \<open>
  The heuristic, failure modes included (specification section 4.4 and
  scenario E): a six-letter symbol splits three and three, in any case; a
  three-letter symbol is its own currency; a symbol with a suffix keeps the
  split of its first six letters; a prefixed or index symbol falls back to its
  last three characters, so \<open>#EURUSD\<close> loses EUR and \<open>US30\<close> yields \<open>S30\<close>.
\<close>

theorem map_symbol_currencies_examples:
  "map_symbol_currencies ''eurusd'' = {''EUR'', ''USD''}
   \<and> map_symbol_currencies ''XAU'' = {''XAU''}
   \<and> map_symbol_currencies ''XAUUSD.m'' = {''XAU'', ''USD''}
   \<and> map_symbol_currencies ''#EURUSD'' = {''USD''}
   \<and> map_symbol_currencies ''US30'' = {''S30''}
   \<and> map_symbol_currencies ''JP'' = {''JP''}"
  by code_simp

text \<open>
  Revision 0.1 overwrites the report's expiry with each affected
  position's own expiry, so the report ends with the last position's, while the
  kill switch keeps the latest: with a EURUSD position matched by a USD event
  50 minutes ahead, then a GBPJPY position matched only by a JPY event 30
  minutes back, the report of 0.1 names an expiry 80 minutes before the one
  armed; revision 0.2 reports the armed one.
\<close>

theorem news_v01_report_until_not_armed:
  "let ps = [ex_npos 7 ''EURUSD'' 99990, ex_npos 8 ''GBPJPY'' 99995];
       evs = Some [ex_event ''JPY'' (100000 - 1800), ex_event ''USD'' (100000 + 3000)];
       (r1, w1) = enforce_news_window_v01 (\<lambda>_. True) ex_news_params 100000
                    (Some \<lparr>total_risk_pct = 1, snap_positions = ps\<rparr>) evs (ex_news_world ps);
       (r2, w2) = enforce_news_window (\<lambda>_. True) ex_news_params 100000
                    (Some \<lparr>total_risk_pct = 1, snap_positions = ps\<rparr>) evs (ex_news_world ps)
   in nr_kill_switch_until r1 = Some (100000 - 1800 + 3600)
      \<and> ks_until (w_kill w1) = Some (100000 + 3000 + 3600)
      \<and> nr_kill_switch_until r2 = Some (100000 + 3000 + 3600)
      \<and> ks_until (w_kill w2) = Some (100000 + 3000 + 3600)"
  by code_simp

end
