(* ===== verification/Daemon.thy ===== *)
theory Daemon
  imports News "HOL-Library.While_Combinator"
begin

text \<open>
  The news daemon, \<open>run_daemon\<close> of \<open>src/RiskGuardv0.0.2/news/news_windows0.2.py\<close>
  and of \<open>news_windows0.1.py\<close>. One tick at time \<open>t\<close> (seconds, the value of
  \<open>time.time()\<close>): if the kill switch holds an expiry, try to re-enable
  AutoTrading and remember when it fired; within three seconds of a re-enable the
  tick only waits; otherwise it reloads the calendar cache when it is older than
  \<open>cal_refresh_min\<close> minutes and, with a calendar, runs the news enforcer.
  Revision 0.1 then waits until none of the affected tickets is open (the
  confirmation barrier, with no timeout), switches AutoTrading off and notifies.
  The global \<open>LAST_AUTOTRADE_REENABLE\<close> is a field of the daemon's state; its
  initial \<open>0.0\<close> (falsy) is \<open>0\<close>. Here the calendar a tick reloads is an
  input; \<open>Calendar_Cache\<close> adds the weekly download and the reading of the
  cache file. The sleeps and the debug output are not modelled.
\<close>

record daemon_state =
  ds_world :: world
  last_reenable :: timestamp
  last_load :: timestamp
  events_df :: "event list option"

record tick_result =
  tick_reenabled :: bool
  tick_report :: "news_report option"

text \<open>Lines 317--330: the re-enable and the three-second cool-down.\<close>

definition reenable_phase :: "timestamp \<Rightarrow> daemon_state \<Rightarrow> bool \<times> daemon_state" where
  "reenable_phase t ds =
     (let (fired, w1) = (if ks_until (w_kill (ds_world ds)) \<noteq> None
                         then w_maybe_reenable t (ds_world ds) else (False, ds_world ds))
      in (fired, ds\<lparr>ds_world := w1, last_reenable := (if fired then t else last_reenable ds)\<rparr>))"

definition in_cooldown :: "timestamp \<Rightarrow> daemon_state \<Rightarrow> bool" where
  "in_cooldown t ds = (last_reenable ds \<noteq> 0 \<and> t - last_reenable ds < 3)"

text \<open>Lines 338--341: reload the cached calendar when it is older than the refresh period.\<close>

definition reload_phase :: "int \<Rightarrow> timestamp \<Rightarrow> event list option \<Rightarrow> daemon_state \<Rightarrow> daemon_state" where
  "reload_phase cal_refresh_min t cache ds =
     (if minutes cal_refresh_min < t - last_load ds
      then ds\<lparr>events_df := cache, last_load := t\<rparr> else ds)"

text \<open>Lines 314--351: one tick of revision 0.2.\<close>

definition daemon_tick ::
  "news_params \<Rightarrow> int \<Rightarrow> (position \<Rightarrow> bool) \<Rightarrow> timestamp \<Rightarrow> event list option \<Rightarrow> snapshot option
   \<Rightarrow> daemon_state \<Rightarrow> tick_result \<times> daemon_state" where
  "daemon_tick prm cal_refresh_min c t cache snap ds =
     (let (fired, ds1) = reenable_phase t ds
      in if in_cooldown t ds1 then (\<lparr>tick_reenabled = fired, tick_report = None\<rparr>, ds1)
         else (let ds2 = reload_phase cal_refresh_min t cache ds1
               in case events_df ds2 of
                    None \<Rightarrow> (\<lparr>tick_reenabled = fired, tick_report = None\<rparr>, ds2)
                  | Some evs \<Rightarrow>
                      (let (rep, w) = enforce_news_window c prm t snap (Some evs) (ds_world ds2)
                       in (\<lparr>tick_reenabled = fired, tick_report = Some rep\<rparr>, ds2\<lparr>ds_world := w\<rparr>))))"

subsection \<open>The confirmation barrier of revision 0.1\<close>

text \<open>
  Lines 241--256 of \<open>news_windows0.1.py\<close>: poll the engine until none of the
  affected tickets is open. The polls are the environment: \<open>alive i\<close> is the set
  of open tickets the \<open>i\<close>-th snapshot returns, or \<open>None\<close> when that snapshot
  raises, which leaves the loop through the outer \<open>except\<close>. The loop is a
  \<open>while_option\<close> over the poll index: \<open>None\<close> is a barrier that never returns.
\<close>

datatype barrier_result = Confirmed nat | SnapshotError nat

definition barrier_waiting :: "ticket set \<Rightarrow> (nat \<Rightarrow> ticket set option) \<Rightarrow> nat \<Rightarrow> bool" where
  "barrier_waiting affected_tickets alive i =
     (case alive i of None \<Rightarrow> False | Some open_now \<Rightarrow> affected_tickets \<inter> open_now \<noteq> {})"

definition wait_for_closure ::
  "ticket set \<Rightarrow> (nat \<Rightarrow> ticket set option) \<Rightarrow> barrier_result option" where
  "wait_for_closure affected_tickets alive =
     map_option (\<lambda>i. if alive i = None then SnapshotError i else Confirmed i)
       (while_option (barrier_waiting affected_tickets alive) Suc 0)"

text \<open>
  Lines 234--265: the enforcement part of a tick of revision 0.1. After an
  affected batch, a confirmed barrier switches AutoTrading off; a snapshot error
  in the barrier ends the tick in the outer \<open>except\<close> with AutoTrading as the
  batch left it; a barrier that never returns is \<open>None\<close>.
\<close>

definition news_tick_v01 ::
  "news_params \<Rightarrow> (position \<Rightarrow> bool) \<Rightarrow> timestamp \<Rightarrow> snapshot option \<Rightarrow> event list
   \<Rightarrow> (nat \<Rightarrow> ticket set option) \<Rightarrow> world \<Rightarrow> (news_report \<times> barrier_result option \<times> world) option" where
  "news_tick_v01 prm c t snap evs alive w =
     (let (rep, w1) = enforce_news_window_v01 c prm t snap (Some evs) w
      in if affected rep = [] then Some (rep, None, w1)
         else case wait_for_closure (set (map fst (affected rep))) alive of
                None \<Rightarrow> None
              | Some (Confirmed i) \<Rightarrow>
                  Some (rep, Some (Confirmed i), w1\<lparr>w_engine := ensure_autotrading_off (w_engine w1)\<rparr>)
              | Some (SnapshotError i) \<Rightarrow> Some (rep, Some (SnapshotError i), w1))"

text \<open>A run of ticks of revision 0.2, each with its instant, cache content and snapshot.\<close>

fun daemon_run ::
  "news_params \<Rightarrow> int \<Rightarrow> (position \<Rightarrow> bool) \<Rightarrow> (timestamp \<times> event list option \<times> snapshot option) list
   \<Rightarrow> daemon_state \<Rightarrow> tick_result list \<times> daemon_state" where
  "daemon_run prm rf c [] ds = ([], ds)"
| "daemon_run prm rf c ((t, cache, snap) # ts) ds =
     (let (o1, ds1) = daemon_tick prm rf c t cache snap ds;
          (os, ds2) = daemon_run prm rf c ts ds1
      in (o1 # os, ds2))"

subsection \<open>Example data\<close>

definition ex_daemon_state :: "timestamp option \<Rightarrow> position list \<Rightarrow> bool \<Rightarrow> daemon_state" where
  "ex_daemon_state u ps on = \<lparr>ds_world = \<lparr>w_limits = NoFile, w_kill = \<lparr>ks_until = u\<rparr>,
       w_engine = \<lparr>eng_positions = ps, eng_autotrading = on\<rparr>\<rparr>,
     last_reenable = 0, last_load = 0, events_df = None\<rparr>"

subsection \<open>Lemmas\<close>

lemma reenable_phase_result:
  assumes "reenable_phase t ds = (fired, ds1)"
  shows "fired = (\<exists>u. ks_until (w_kill (ds_world ds)) = Some u \<and> u \<le> t)"
    "fired \<Longrightarrow> ks_until (w_kill (ds_world ds1)) = None \<and> eng_autotrading (w_engine (ds_world ds1))
       \<and> last_reenable ds1 = t"
    "\<not> fired \<Longrightarrow> ds1 = ds"
    "w_limits (ds_world ds1) = w_limits (ds_world ds)"
    "eng_positions (w_engine (ds_world ds1)) = eng_positions (w_engine (ds_world ds))"
    "eng_autotrading (w_engine (ds_world ds1)) = (eng_autotrading (w_engine (ds_world ds)) \<or> fired)"
    "last_load ds1 = last_load ds" "events_df ds1 = events_df ds"
  using assms
  by (auto simp: reenable_phase_def w_maybe_reenable_def maybe_reenable_autotrade_def
      ensure_autotrading_on_def split: option.splits if_splits)

lemma daemon_tick_cases:
  assumes "daemon_tick prm rf c t cache snap ds = (o1, ds')"
  obtains fired ds1 where "reenable_phase t ds = (fired, ds1)" "in_cooldown t ds1"
      "o1 = \<lparr>tick_reenabled = fired, tick_report = None\<rparr>" "ds' = ds1"
  | fired ds1 where "reenable_phase t ds = (fired, ds1)" "\<not> in_cooldown t ds1"
      "events_df (reload_phase rf t cache ds1) = None"
      "o1 = \<lparr>tick_reenabled = fired, tick_report = None\<rparr>" "ds' = reload_phase rf t cache ds1"
  | fired ds1 evs rep w where "reenable_phase t ds = (fired, ds1)" "\<not> in_cooldown t ds1"
      "events_df (reload_phase rf t cache ds1) = Some evs"
      "enforce_news_window c prm t snap (Some evs) (ds_world (reload_phase rf t cache ds1)) = (rep, w)"
      "o1 = \<lparr>tick_reenabled = fired, tick_report = Some rep\<rparr>"
      "ds' = (reload_phase rf t cache ds1)\<lparr>ds_world := w\<rparr>"
proof (cases "reenable_phase t ds")
  case (Pair fired ds1)
  show ?thesis
  proof (cases "in_cooldown t ds1")
    case True
    with assms Pair show ?thesis by (intro that(1)) (auto simp: daemon_tick_def)
  next
    case False
    show ?thesis
    proof (cases "events_df (reload_phase rf t cache ds1)")
      case None
      with assms Pair False show ?thesis by (intro that(2)) (auto simp: daemon_tick_def)
    next
      case (Some evs)
      show ?thesis
      proof (cases "enforce_news_window c prm t snap (Some evs) (ds_world (reload_phase rf t cache ds1))")
        case (Pair rep w)
        with assms \<open>reenable_phase t ds = (fired, ds1)\<close> False Some show ?thesis
          by (intro that(3)) (auto simp: daemon_tick_def Let_def)
      qed
    qed
  qed
qed

lemma reload_phase_world [simp]:
  "ds_world (reload_phase rf t cache ds) = ds_world ds"
  "last_reenable (reload_phase rf t cache ds) = last_reenable ds"
  by (simp_all add: reload_phase_def)

lemma funpow_Suc_0 [simp]: "(Suc ^^ k) 0 = k"
  by (induction k) simp_all

text \<open>The barrier's loop, read as a search for the first poll that ends it.\<close>

lemma while_option_first_stop:
  "while_option b Suc 0 = (if \<exists>j. \<not> b j then Some (LEAST j. \<not> b j) else None)"
  by (simp add: while_option_def)

lemma enforce_news_window_autotrading:
  "eng_autotrading (w_engine (snd (enforce_news_window c prm now snap df w))) = eng_autotrading (w_engine w)"
proof (cases snap)
  case None
  then show ?thesis by (simp add: enforce_news_window_def)
next
  case (Some s)
  obtain r w' where e: "enforce_news_window c prm now snap df w = (r, w')" by (cases "enforce_news_window c prm now snap df w")
  from e [unfolded Some] show ?thesis unfolding e
    by (cases rule: enforce_news_window_cases) (auto dest: news_loop_result)
qed

lemma enforce_news_window_limits:
  "w_limits (snd (enforce_news_window c prm now snap df w)) = w_limits w"
proof (cases snap)
  case None
  then show ?thesis by (simp add: enforce_news_window_def)
next
  case (Some s)
  obtain r w' where e: "enforce_news_window c prm now snap df w = (r, w')" by (cases "enforce_news_window c prm now snap df w")
  from e [unfolded Some] show ?thesis unfolding e
    by (cases rule: enforce_news_window_cases) (auto dest: news_loop_result)
qed

lemma news_loop_v01_result:
  assumes "news_loop_v01 c prm now df ps rep w = (rep', w')"
  shows "affected rep' = affected rep
           @ map (\<lambda>p. (pos_ticket p, news_matches prm now df p)) (affected_positions prm now df ps)
    \<and> eng_autotrading (w_engine w') = (eng_autotrading (w_engine w) \<or> affected_positions prm now df ps \<noteq> [])"
proof -
  obtain rA muA wA where a: "news_loop c prm now df ps rep None w = (rA, muA, wA)"
    by (cases "news_loop c prm now df ps rep None w")
  have "affected rep' = affected rA \<and> eng_autotrading (w_engine w') =
        (eng_autotrading (w_engine w) \<or> affected_positions prm now df ps \<noteq> [])"
    using news_loops_agree [OF a assms] by (simp add: opt_join_def)
  with news_loop_result [OF a] show ?thesis by simp
qed


lemma least_stop_iff:
  assumes "\<exists>j. \<not> b j"
  shows "((LEAST j::nat. \<not> b j) = k) \<longleftrightarrow> \<not> b k \<and> (\<forall>i<k. b i)"
  using assms by (metis (mono_tags, lifting) LeastI_ex Least_equality leI not_less_Least)

lemma daemon_tick_autotrading:
  assumes "daemon_tick prm rf c t cache snap ds = (o1, ds')"
  shows "eng_autotrading (w_engine (ds_world ds')) = (eng_autotrading (w_engine (ds_world ds)) \<or> tick_reenabled o1)
    \<and> tick_reenabled o1 = (\<exists>u. ks_until (w_kill (ds_world ds)) = Some u \<and> u \<le> t)"
  using assms
proof (cases rule: daemon_tick_cases)
  case (1 fired ds1)
  then show ?thesis using reenable_phase_result [OF 1(1)] by simp
next
  case (2 fired ds1)
  then show ?thesis using reenable_phase_result [OF 2(1)] by simp
next
  case (3 fired ds1 evs rep w)
  have "eng_autotrading (w_engine w) = eng_autotrading (w_engine (ds_world ds1))"
    using enforce_news_window_autotrading [of c prm t snap "Some evs" "ds_world (reload_phase rf t cache ds1)"] 3(4)
    by simp
  then show ?thesis using 3 reenable_phase_result [OF 3(1)] by simp
qed


section \<open>Properties of the daemon\<close>

text \<open>
  C21. AutoTrading is re-enabled at most once per expiry: a tick that re-enables
  clears the expiry and, being inside the cool-down, runs no enforcement; the
  next tick, whatever its inputs, does not re-enable again.
\<close>

theorem daemon_reenable_once:
  assumes tick1: "daemon_tick prm rf c t1 cache1 snap1 ds = (o1, ds1)"
    and fired: "tick_reenabled o1" and pos: "0 < t1"
    and tick2: "daemon_tick prm rf c' t2 cache2 snap2 ds1 = (o2, ds2)"
  shows "tick_report o1 = None \<and> ks_until (w_kill (ds_world ds1)) = None \<and> \<not> tick_reenabled o2"
proof -
  obtain f ds1' where r1: "reenable_phase t1 ds = (f, ds1')" by fastforce
  from tick1 r1 fired have f: "f" by (cases rule: daemon_tick_cases) auto
  note res1 = reenable_phase_result [OF r1]
  from res1(2) [OF f] pos have cool: "in_cooldown t1 ds1'" by (simp add: in_cooldown_def)
  from tick1 r1 cool have o1: "tick_report o1 = None" and d1: "ds1 = ds1'"
    by (cases rule: daemon_tick_cases; simp)+
  have k1: "ks_until (w_kill (ds_world ds1)) = None" using res1(2) [OF f] d1 by simp
  obtain f2 ds2' where r2: "reenable_phase t2 ds1 = (f2, ds2')" by fastforce
  from reenable_phase_result(1) [OF r2] k1 have "\<not> f2" by simp
  with tick2 r2 have "\<not> tick_reenabled o2" by (cases rule: daemon_tick_cases) auto
  with o1 k1 show ?thesis by simp
qed


theorem daemon_reenable_once_witness:
  "tick_report (fst (daemon_tick ex_news_params 0 (\<lambda>_. True) 1000 None None (ex_daemon_state (Some 990) [] False))) = None
   \<and> ks_until (w_kill (ds_world (snd (daemon_tick ex_news_params 0 (\<lambda>_. True) 1000 None None
        (ex_daemon_state (Some 990) [] False))))) = None
   \<and> \<not> tick_reenabled (fst (daemon_tick ex_news_params 0 (\<lambda>_. True) 1001 None None
        (snd (daemon_tick ex_news_params 0 (\<lambda>_. True) 1000 None None (ex_daemon_state (Some 990) [] False)))))"
proof -
  have f: "tick_reenabled (fst (daemon_tick ex_news_params 0 (\<lambda>_. True) 1000 None None
      (ex_daemon_state (Some 990) [] False)))"
    by code_simp
  show ?thesis
    by (rule daemon_reenable_once [OF surjective_pairing f _ surjective_pairing]) simp
qed

text \<open>
  C22. Once the kill switch's expiry has passed, the next tick re-enables
  AutoTrading, clears the expiry, records the instant of the re-enable and, in
  the cool-down it starts, runs no enforcement.
\<close>

theorem daemon_reenables_on_expiry:
  assumes "ks_until (w_kill (ds_world ds)) = Some u" and "u \<le> t" and "0 < t"
    and "daemon_tick prm rf c t cache snap ds = (o1, ds')"
  shows "tick_reenabled o1 \<and> tick_report o1 = None \<and> eng_autotrading (w_engine (ds_world ds'))
    \<and> ks_until (w_kill (ds_world ds')) = None \<and> last_reenable ds' = t"
proof -
  obtain f ds1 where r: "reenable_phase t ds = (f, ds1)" by (cases "reenable_phase t ds")
  note res = reenable_phase_result [OF r]
  from res(1) assms(1,2) have f: f by simp
  with res(2) assms(3) have "in_cooldown t ds1" by (simp add: in_cooldown_def)
  with assms(4) r have "tick_reenabled o1 = f \<and> tick_report o1 = None \<and> ds' = ds1"
    by (cases rule: daemon_tick_cases) auto
  with f res(2) [OF f] show ?thesis by simp
qed

theorem daemon_reenables_on_expiry_witness:
  "let (o1, ds') = daemon_tick ex_news_params 0 (\<lambda>_. True) 1000 None None (ex_daemon_state (Some 1000) [] False)
   in tick_reenabled o1 \<and> eng_autotrading (w_engine (ds_world ds'))"
  using daemon_reenables_on_expiry [OF _ _ _ surjective_pairing, of _ 1000 1000 ex_news_params 0 "\<lambda>_. True" None None]
  by (simp add: ex_daemon_state_def split_beta)

text \<open>
  C23. During the three seconds after a re-enable a tick does not enforce: it
  reports nothing, closes nothing, leaves the limits file and the calendar cache
  as they were.
\<close>

theorem daemon_cooldown_no_enforcement:
  assumes "daemon_tick prm rf c t cache snap ds = (o1, ds')"
    and "0 < t" and "last_reenable ds \<noteq> 0" and "t - last_reenable ds < 3"
  shows "tick_report o1 = None
    \<and> eng_positions (w_engine (ds_world ds')) = eng_positions (w_engine (ds_world ds))
    \<and> w_limits (ds_world ds') = w_limits (ds_world ds)
    \<and> events_df ds' = events_df ds \<and> last_load ds' = last_load ds"
proof -
  obtain f ds1 where r: "reenable_phase t ds = (f, ds1)" by (cases "reenable_phase t ds")
  note res = reenable_phase_result [OF r]
  have "in_cooldown t ds1"
    using assms(2-4) res(2,3) by (cases f) (auto simp: in_cooldown_def)
  with assms(1) r have "tick_report o1 = None \<and> ds' = ds1"
    by (cases rule: daemon_tick_cases) auto
  with res show ?thesis by simp
qed

theorem daemon_cooldown_no_enforcement_witness:
  "let (o1, ds') = daemon_tick ex_news_params 0 (\<lambda>_. True) 1002 (Some [ex_event ''USD'' 1300]) None
        ((ex_daemon_state None [ex_npos 7 ''EURUSD'' 990] True)\<lparr>last_reenable := 1000\<rparr>)
   in tick_report o1 = None \<and> eng_positions (w_engine (ds_world ds')) = [ex_npos 7 ''EURUSD'' 990]"
  using daemon_cooldown_no_enforcement [OF surjective_pairing, where prm = ex_news_params and rf = 0
      and c = "\<lambda>_. True" and t = 1002 and cache = "Some [ex_event ''USD'' 1300]" and snap = None
      and ds = "(ex_daemon_state None [ex_npos 7 ''EURUSD'' 990] True)\<lparr>last_reenable := 1000\<rparr>"]
  by (simp add: ex_daemon_state_def split_beta)




text \<open>
  C25. The barrier has no timeout: when one affected ticket is reported open by
  every poll (a close that failed without being detected), it never returns.
\<close>

theorem barrier_hangs_on_stuck_ticket:
  assumes "a \<in> A" and "\<forall>j. \<exists>S. alive j = Some S \<and> a \<in> S"
  shows "wait_for_closure A alive = None"
proof -
  have "barrier_waiting A alive j" for j
  proof -
    from assms(2) obtain S where "alive j = Some S" "a \<in> S" by blast
    with assms(1) show ?thesis by (auto simp: barrier_waiting_def)
  qed
  then show ?thesis by (simp add: wait_for_closure_def while_option_first_stop)
qed

theorem barrier_hangs_on_stuck_ticket_witness:
  "wait_for_closure {7} (\<lambda>j. Some {7, int j}) = None"
  by (rule barrier_hangs_on_stuck_ticket [of 7]) simp_all

text \<open>
  C26. A tick of revision 0.1 that affected positions leaves the tick only
  through the barrier, and AutoTrading ends on exactly when the barrier ended in
  a snapshot error: the batch switched it on before its closes, and only a
  confirmed barrier switches it off again.
\<close>

theorem news_tick_v01_autotrading:
  assumes "news_tick_v01 prm c t snap evs alive w = Some (rep, b, w')" and "affected rep \<noteq> []"
  shows "b \<noteq> None \<and> (eng_autotrading (w_engine w') \<longleftrightarrow> (\<exists>i. b = Some (SnapshotError i)))"
proof -
  obtain rep1 w1 where e: "enforce_news_window_v01 c prm t snap (Some evs) w = (rep1, w1)"
    by (cases "enforce_news_window_v01 c prm t snap (Some evs) w")
  have r: "rep = rep1" "affected rep1 \<noteq> []"
    using assms by (auto simp: news_tick_v01_def e split: if_splits option.splits barrier_result.splits)
  have on: "eng_autotrading (w_engine w1)"
  proof (cases snap)
    case None
    with e r(2) show ?thesis by (simp add: enforce_news_window_v01_def)
  next
    case (Some s)
    with e have "news_loop_v01 c prm t (Some evs) (snap_positions s) empty_news_report w = (rep1, w1)"
      by (simp add: enforce_news_window_v01_def)
    from news_loop_v01_result [OF this] r(2) show ?thesis by auto
  qed
  show ?thesis
  proof (cases "wait_for_closure (fst ` set (affected rep1)) alive")
    case None
    with assms(1) e r show ?thesis by (simp add: news_tick_v01_def)
  next
    case (Some x)
    have "news_tick_v01 prm c t snap evs alive w = (case x of
        Confirmed i \<Rightarrow> Some (rep1, Some (Confirmed i), w1\<lparr>w_engine := ensure_autotrading_off (w_engine w1)\<rparr>)
      | SnapshotError i \<Rightarrow> Some (rep1, Some (SnapshotError i), w1))"
      using e r(2) Some by (simp add: news_tick_v01_def)
    with assms(1) on show ?thesis
      by (cases x) (auto simp: ensure_autotrading_off_def)
  qed
qed

theorem news_tick_v01_autotrading_witness:
  "let R = news_tick_v01 ex_news_params (\<lambda>_. True) 100000
        (Some \<lparr>total_risk_pct = 1, snap_positions = [ex_npos 7 ''EURUSD'' 99990]\<rparr>)
        [ex_event ''USD'' 100300] (\<lambda>i. if i < 2 then Some {7} else None)
        (ex_news_world [ex_npos 7 ''EURUSD'' 99990])
   in fst (snd (the R)) = Some (SnapshotError 2) \<and> eng_autotrading (w_engine (snd (snd (the R))))"
proof -
  define R where "R = news_tick_v01 ex_news_params (\<lambda>_. True) 100000
        (Some \<lparr>total_risk_pct = 1, snap_positions = [ex_npos 7 ''EURUSD'' 99990]\<rparr>)
        [ex_event ''USD'' 100300] (\<lambda>i. if i < 2 then Some {7} else None)
        (ex_news_world [ex_npos 7 ''EURUSD'' 99990])"
  have n: "R \<noteq> None" and a: "affected (fst (the R)) \<noteq> []"
    and b: "fst (snd (the R)) = Some (SnapshotError 2)"
    unfolding R_def by code_simp+
  from n have e: "R = Some (fst (the R), fst (snd (the R)), snd (snd (the R)))" by auto
  from news_tick_v01_autotrading [OF e [unfolded R_def] a [unfolded R_def]] b
  show ?thesis unfolding R_def Let_def by auto
qed


text \<open>
  C27. A tick of revision 0.2 never switches AutoTrading off: after the tick it
  is on exactly when it was on before or the kill switch's expiry had passed.
  In particular closing positions for an event leaves it as it was, unlike the
  control loop of the specification, which disables it after a confirmed
  closure.
\<close>

theorem daemon_never_disables_autotrading:
  assumes "daemon_tick prm rf c t cache snap ds = (o1, ds')"
  shows "eng_autotrading (w_engine (ds_world ds')) =
    (eng_autotrading (w_engine (ds_world ds)) \<or> (\<exists>u. ks_until (w_kill (ds_world ds)) = Some u \<and> u \<le> t))"
  using daemon_tick_autotrading [OF assms] by simp

theorem daemon_never_disables_autotrading_witness:
  "let (o1, ds') = daemon_tick ex_news_params 0 (\<lambda>_. True) 100000 (Some [ex_event ''USD'' 100300])
        (Some \<lparr>total_risk_pct = 1, snap_positions = [ex_npos 7 ''EURUSD'' 99990]\<rparr>)
        (ex_daemon_state None [ex_npos 7 ''EURUSD'' 99990] True)
   in map_option (map fst \<circ> affected) (tick_report o1) = Some [7]
      \<and> eng_positions (w_engine (ds_world ds')) = [] \<and> eng_autotrading (w_engine (ds_world ds'))"
proof -
  have r: "map_option (map fst \<circ> affected) (tick_report (fst (daemon_tick ex_news_params 0 (\<lambda>_. True) 100000
        (Some [ex_event ''USD'' 100300])
        (Some \<lparr>total_risk_pct = 1, snap_positions = [ex_npos 7 ''EURUSD'' 99990]\<rparr>)
        (ex_daemon_state None [ex_npos 7 ''EURUSD'' 99990] True)))) = Some [7]"
    and p: "eng_positions (w_engine (ds_world (snd (daemon_tick ex_news_params 0 (\<lambda>_. True) 100000
        (Some [ex_event ''USD'' 100300])
        (Some \<lparr>total_risk_pct = 1, snap_positions = [ex_npos 7 ''EURUSD'' 99990]\<rparr>)
        (ex_daemon_state None [ex_npos 7 ''EURUSD'' 99990] True))))) = []"
    by code_simp+
  show ?thesis
    using daemon_never_disables_autotrading [OF surjective_pairing, where prm = ex_news_params and rf = 0
        and c = "\<lambda>_. True" and t = 100000 and cache = "Some [ex_event ''USD'' 100300]"
        and snap = "Some \<lparr>total_risk_pct = 1, snap_positions = [ex_npos 7 ''EURUSD'' 99990]\<rparr>"
        and ds = "ex_daemon_state None [ex_npos 7 ''EURUSD'' 99990] True"] r p
    by (simp add: split_beta ex_daemon_state_def)
qed

text \<open>
  A run of four ticks around an expiry at 1000: the tick at 999 does
  nothing, the tick at 1000 re-enables AutoTrading once, the tick at 1001 is in
  the cool-down, and the tick at 1003 reloads the (empty) calendar and runs the
  enforcer, which, with the snapshot failing, reports nothing affected.
\<close>

theorem daemon_scenario_E:
  "let (os, ds) = daemon_run ex_news_params 0 (\<lambda>_. True)
        [(999, None, None), (1000, None, None), (1001, None, None), (1003, Some [], None)]
        (ex_daemon_state (Some 1000) [] False)
   in map tick_reenabled os = [False, True, False, False]
      \<and> map tick_report os = [None, None, None, Some empty_news_report]
      \<and> eng_autotrading (w_engine (ds_world ds)) \<and> ks_until (w_kill (ds_world ds)) = None
      \<and> last_reenable ds = 1000 \<and> last_load ds = 1003"
  by code_simp

end
