(* ===== verification/Calendar_Cache.thy ===== *)
theory Calendar_Cache
  imports Daemon State_Json "HOL-Library.Product_Lexorder" "HOL-Library.Multiset"
begin

text \<open>
  The calendar the news daemon works from (\<open>src/RiskGuardv0.0.2/news/news_windows0.2.py\<close>
  and \<open>news_windows0.1.py\<close>): \<open>load_cached_calendar\<close> reads \<open>ff_cache.json\<close>
  into a frame of rows sorted by time, \<open>auto_update_calendar\<close> runs the
  downloader \<open>update_news.py\<close> once per Sunday (UTC), and a tick of the daemon
  runs the refresh and then reloads the frame. The cache file is a JSON value
  as in \<open>State_Json\<close>; the downloader is the environment: whether it exists,
  whether starting it raises, and the file it leaves.

  A row of the frame keeps the cells \<open>find_events\<close> reads: the currency, the
  label and the time after \<open>pd.to_datetime(..., utc=True)\<close> in seconds, or
  \<open>None\<close> for \<open>NaT\<close>. Of \<open>pandas\<close> the model takes: a missing cell is \<open>NaN\<close>;
  \<open>to_datetime\<close> turns \<open>None\<close>, \<open>NaN\<close> and \<open>""\<close> into \<open>NaT\<close>, a zero number
  into the epoch, and raises on \<open>False\<close>, \<open>[]\<close> and \<open>{}\<close>; a naive datetime
  is taken as UTC; a frame with no row or no column is empty; \<open>sort_values\<close>
  puts \<open>NaT\<close> last. \<open>sort_values\<close> does not keep the order of equal times, so
  the properties below do not depend on it.
\<close>

subsection \<open>Reading the cache\<close>

record cal_row =
  cr_currency :: json
  cr_event :: json
  cr_ts :: "timestamp option"

text \<open>
  Lines 63--64 and 69 of revision 0.2: a truthy \<open>ts_utc\<close> must be a string
  \<open>fromisoformat\<close> reads (else \<open>TypeError\<close> or \<open>ValueError\<close>); then
  \<open>to_datetime\<close> converts the cell. \<open>None\<close> is an exception. The
  time is kept to the second, the resolution of the model's instants.
\<close>

definition row_ts :: "json \<Rightarrow> timestamp option option" where
  "row_ts v =
     (if py_truthy v then
        (case v of JStr s \<Rightarrow> map_option (\<lambda>(us, aware). Some (us div 1000000)) (fromisoformat s) | _ \<Rightarrow> None)
      else (case v of JNull \<Rightarrow> Some None | JStr _ \<Rightarrow> Some None | JInt _ \<Rightarrow> Some (Some 0)
             | JFloat _ \<Rightarrow> Some (Some 0) | _ \<Rightarrow> None))"

text \<open>Lines 62--65: each row must be a dictionary (\<open>r.get\<close>).\<close>

fun load_rows :: "json list \<Rightarrow> cal_row list option" where
  "load_rows [] = Some []"
| "load_rows (JObj kvs # rs) =
     (case row_ts (dict_get kvs ''ts_utc'' JNull) of
        None \<Rightarrow> None
      | Some ts \<Rightarrow> map_option (\<lambda>fr. \<lparr>cr_currency = dict_get kvs ''currency'' JNull,
                                      cr_event = dict_get kvs ''event'' JNull, cr_ts = ts\<rparr> # fr)
                    (load_rows rs))"
| "load_rows (_ # rs) = None"

text \<open>A column of the frame: a key of some row.\<close>

definition has_col :: "string \<Rightarrow> json list \<Rightarrow> bool" where
  "has_col k rs = (\<exists>r\<in>set rs. case r of JObj kvs \<Rightarrow> k \<in> fst ` set kvs | _ \<Rightarrow> False)"

definition frame_empty :: "json list \<Rightarrow> bool" where
  "frame_empty rs = (\<forall>r\<in>set rs. r = JObj [])"

text \<open>\<open>sort_values("ts_utc")\<close>: by time, \<open>NaT\<close> last.\<close>

definition sort_frame :: "cal_row list \<Rightarrow> cal_row list" where
  "sort_frame fr = sort_key (\<lambda>r. (cr_ts r = None, case cr_ts r of None \<Rightarrow> 0 | Some t \<Rightarrow> t)) fr"

text \<open>
  Revision 0.1 (lines 47--71): a missing file, a value that is not a dictionary,
  an \<open>events\<close> entry that is not a list of dictionaries, a bad time, an empty
  frame or no \<open>ts_utc\<close> column gives no calendar.
\<close>

definition load_cached_calendar_v01 :: "json_file \<Rightarrow> cal_row list option" where
  "load_cached_calendar_v01 f =
     (case f of
        JFile (JObj kvs) \<Rightarrow>
          (case dict_get kvs ''events'' (JArr []) of
             JArr rs \<Rightarrow>
               (case load_rows rs of
                  None \<Rightarrow> None
                | Some fr \<Rightarrow> if frame_empty rs \<or> \<not> has_col ''ts_utc'' rs then None else Some (sort_frame fr))
           | _ \<Rightarrow> None)
      | _ \<Rightarrow> None)"

text \<open>
  Revision 0.2 (lines 55--81) also prints every row, reading \<open>r['currency']\<close>
  and \<open>r['event']\<close>: without such a column the \<open>KeyError\<close> gives no calendar.
\<close>

definition load_cached_calendar :: "json_file \<Rightarrow> cal_row list option" where
  "load_cached_calendar f =
     (case f of
        JFile (JObj kvs) \<Rightarrow>
          (case dict_get kvs ''events'' (JArr []) of
             JArr rs \<Rightarrow>
               (case load_rows rs of
                  None \<Rightarrow> None
                | Some fr \<Rightarrow>
                    if frame_empty rs \<or> \<not> has_col ''ts_utc'' rs
                       \<or> \<not> has_col ''currency'' rs \<or> \<not> has_col ''event'' rs then None
                    else Some (sort_frame fr))
           | _ \<Rightarrow> None)
      | _ \<Rightarrow> None)"

text \<open>A list or a dictionary cannot be looked up in a set: \<open>in\<close> raises \<open>TypeError\<close>.\<close>

definition py_unhashable :: "json \<Rightarrow> bool" where
  "py_unhashable v = (case v of JArr _ \<Rightarrow> True | JObj _ \<Rightarrow> True | _ \<Rightarrow> False)"

text \<open>
  The rows the comprehension of \<open>find_events\<close> (lines 100--103) can match:
  those with a string currency and a time (a \<open>NaT\<close> time or a currency that
  is not a string never matches).
\<close>

definition frame_matchable :: "cal_row list \<Rightarrow> event list" where
  "frame_matchable fr =
     concat (map (\<lambda>r. case (cr_currency r, cr_ts r) of
                        (JStr cur, Some t) \<Rightarrow>
                          [\<lparr>ev_currency = cur, ev_ts = t,
                            ev_label = (case cr_event r of JStr l \<Rightarrow> l | _ \<Rightarrow> '''')\<rparr>]
                      | _ \<Rightarrow> []) fr)"

text \<open>
  The events \<open>find_events\<close> (lines 94--103) can match. A row whose currency
  is a list or a dictionary makes the membership test raise on every call;
  both revisions catch the exception around each position and skip it, so
  with such a row no event ever matches. (In revision 0.1 a frame without a
  \<open>currency\<close> column raises \<open>KeyError\<close> in the same place; its rows
  carry no currency and match nothing either.)
\<close>

definition frame_events :: "cal_row list \<Rightarrow> event list" where
  "frame_events fr = (if list_ex (\<lambda>r. py_unhashable (cr_currency r)) fr then [] else frame_matchable fr)"

subsection \<open>The weekly refresh\<close>

text \<open>\<open>datetime.utcnow().date()\<close> as an ordinal, and \<open>date.weekday()\<close> (6 is Sunday).\<close>

definition utc_day :: "timestamp \<Rightarrow> int" where
  "utc_day t = t div 86400 + epoch_ord"

definition weekday :: "int \<Rightarrow> int" where
  "weekday d = (d + 6) mod 7"

record updater_env =
  upd_exists :: bool
  upd_raises :: bool
  upd_output :: json_file

text \<open>
  Revision 0.2 (lines 235--259): on a Sunday not yet recorded, with the
  downloader present, start it; the day is recorded only when starting it
  did not raise (the exception is caught and printed). The result says whether
  it was started and gives the new \<open>LAST_CALENDAR_UPDATE_DAY\<close>.
\<close>

definition auto_update_calendar :: "timestamp \<Rightarrow> updater_env \<Rightarrow> int option \<Rightarrow> bool \<times> int option" where
  "auto_update_calendar t env last_day =
     (let today = utc_day t
      in if weekday today = 6 \<and> last_day \<noteq> Some today \<and> upd_exists env
         then (True, if upd_raises env then last_day else Some today)
         else (False, last_day))"

text \<open>Revision 0.1 (lines 180--192) has no \<open>try\<close>: \<open>None\<close> is the exception.\<close>

definition auto_update_calendar_v01 :: "timestamp \<Rightarrow> updater_env \<Rightarrow> int option \<Rightarrow> (bool \<times> int option) option" where
  "auto_update_calendar_v01 t env last_day =
     (let today = utc_day t
      in if weekday today = 6 \<and> last_day \<noteq> Some today \<and> upd_exists env
         then (if upd_raises env then None else Some (True, Some today))
         else Some (False, last_day))"

text \<open>The cache file after the refresh: what the downloader wrote when it started.\<close>

definition refreshed_cache :: "bool \<Rightarrow> updater_env \<Rightarrow> json_file \<Rightarrow> json_file" where
  "refreshed_cache started env cf = (if started \<and> \<not> upd_raises env then upd_output env else cf)"

fun auto_update_run ::
  "(timestamp \<times> updater_env) list \<Rightarrow> int option \<Rightarrow> (int \<times> bool) list \<times> int option" where
  "auto_update_run [] last_day = ([], last_day)"
| "auto_update_run ((t, env) # ts) last_day =
     (let (started, last1) = auto_update_calendar t env last_day;
          (ls, last2) = auto_update_run ts last1
      in (if started then (utc_day t, upd_raises env) # ls else ls, last2))"

subsection \<open>A tick with its calendar\<close>

record cal_daemon_state =
  cd_daemon :: daemon_state
  cd_last_day :: "int option"
  cd_cache :: json_file

text \<open>
  A tick of revision 0.2 (lines 314--351) with the refresh and the cache: after
  the re-enable and outside the cool-down it runs \<open>auto_update_calendar\<close> and
  reloads the frame from the file the refresh left.
\<close>

definition daemon_tick_cal ::
  "news_params \<Rightarrow> int \<Rightarrow> (position \<Rightarrow> bool) \<Rightarrow> timestamp \<Rightarrow> updater_env \<Rightarrow> snapshot option
   \<Rightarrow> cal_daemon_state \<Rightarrow> tick_result \<times> cal_daemon_state" where
  "daemon_tick_cal prm rf c t env snap cs =
     (let (fired, ds1) = reenable_phase t (cd_daemon cs)
      in if in_cooldown t ds1
         then (let (r, ds') = daemon_tick prm rf c t None snap (cd_daemon cs) in (r, cs\<lparr>cd_daemon := ds'\<rparr>))
         else (let (started, last1) = auto_update_calendar t env (cd_last_day cs);
                   cf = refreshed_cache started env (cd_cache cs);
                   (r, ds') = daemon_tick prm rf c t (map_option frame_events (load_cached_calendar cf)) snap (cd_daemon cs)
               in (r, \<lparr>cd_daemon = ds', cd_last_day = last1, cd_cache = cf\<rparr>)))"

text \<open>
  The \<open>try\<close> of a tick of revision 0.1 (lines 224--269): the refresh, the
  reload and the enforcement with its barrier. An exception leaves the body for
  the outer \<open>except\<close> with the daemon's state as it was; a barrier that never
  returns hangs the tick.
\<close>

datatype 'a try_result = Raised | Hangs | Done 'a

definition daemon_try_v01 ::
  "news_params \<Rightarrow> int \<Rightarrow> (position \<Rightarrow> bool) \<Rightarrow> timestamp \<Rightarrow> updater_env \<Rightarrow> snapshot option
   \<Rightarrow> (nat \<Rightarrow> ticket set option) \<Rightarrow> cal_daemon_state \<Rightarrow> (news_report option \<times> cal_daemon_state) try_result" where
  "daemon_try_v01 prm rf c t env snap alive cs =
     (case auto_update_calendar_v01 t env (cd_last_day cs) of
        None \<Rightarrow> Raised
      | Some (started, last1) \<Rightarrow>
          (let cf = refreshed_cache started env (cd_cache cs);
               ds2 = reload_phase rf t (map_option frame_events (load_cached_calendar_v01 cf)) (cd_daemon cs);
               cs2 = \<lparr>cd_daemon = ds2, cd_last_day = last1, cd_cache = cf\<rparr>
           in case events_df ds2 of
                None \<Rightarrow> Done (None, cs2)
              | Some evs \<Rightarrow>
                  (case news_tick_v01 prm c t snap evs alive (ds_world ds2) of
                     None \<Rightarrow> Hangs
                   | Some (rep, b, w) \<Rightarrow> Done (Some rep, cs2\<lparr>cd_daemon := ds2\<lparr>ds_world := w\<rparr>\<rparr>))))"

subsection \<open>The cache as the reader expects it\<close>

text \<open>
  A cache holding a list of events: one dictionary per event with its currency,
  label and the \<open>isoformat()\<close> of its time. (\<open>update_news.py\<close>, which writes
  the cache, is not among the repository's files; this is the layout the
  reader reads.)
\<close>

definition event_json :: "event \<Rightarrow> json" where
  "event_json e = JObj [(''currency'', JStr (ev_currency e)), (''event'', JStr (ev_label e)),
                        (''ts_utc'', JStr (isoformat_utc (ev_ts e)))]"

definition cache_json :: "event list \<Rightarrow> json_file" where
  "cache_json evs = JFile (JObj [(''events'', JArr (map event_json evs))])"

text \<open>A row of the frame holding an event.\<close>

definition event_row :: "event \<Rightarrow> cal_row" where
  "event_row e = \<lparr>cr_currency = JStr (ev_currency e), cr_event = JStr (ev_label e), cr_ts = Some (ev_ts e)\<rparr>"

subsection \<open>Example data\<close>

text \<open>Sunday 19 November 2023, 00:00 UTC, and an updater that raises when started.\<close>

definition ex_sunday :: timestamp where
  "ex_sunday = 1700352000"

definition ex_failing_updater :: updater_env where
  "ex_failing_updater = \<lparr>upd_exists = True, upd_raises = True, upd_output = JNoFile\<rparr>"

definition ex_updater :: "event list \<Rightarrow> updater_env" where
  "ex_updater evs = \<lparr>upd_exists = True, upd_raises = False, upd_output = cache_json evs\<rparr>"

definition ex_cal_state :: "event list \<Rightarrow> cal_daemon_state" where
  "ex_cal_state evs = \<lparr>cd_daemon = ex_daemon_state None [ex_npos 7 ''EURUSD'' 990] True,
                        cd_last_day = None, cd_cache = cache_json evs\<rparr>"

text \<open>
  Ticks of two Sundays: the downloader runs at midnight, not again an hour
  later; a week later starting it raises, and a minute after that it runs.
\<close>

definition ex_refresh_ticks :: "(timestamp \<times> updater_env) list" where
  "ex_refresh_ticks = [(ex_sunday, ex_updater []), (ex_sunday + 3600, ex_updater []),
     (ex_sunday + 7 * 86400, ex_failing_updater), (ex_sunday + 7 * 86400 + 60, ex_updater [])]"

subsection \<open>Lemmas\<close>

lemma frame_matchable_Cons:
  "frame_matchable (r # fr) =
     (case (cr_currency r, cr_ts r) of
        (JStr cur, Some t) \<Rightarrow> [\<lparr>ev_currency = cur, ev_ts = t, ev_label = (case cr_event r of JStr l \<Rightarrow> l | _ \<Rightarrow> '''')\<rparr>]
      | _ \<Rightarrow> []) @ frame_matchable fr"
  "frame_matchable [] = []"
  by (simp_all add: frame_matchable_def)

lemma frame_matchable_ts: "e \<in> set (frame_matchable fr) \<Longrightarrow> \<exists>r\<in>set fr. cr_ts r = Some (ev_ts e)"
  by (induction fr) (auto simp: frame_matchable_Cons split: json.splits option.splits)

lemma frame_matchable_sorted:
  "sorted (map (\<lambda>r. (cr_ts r = None, case cr_ts r of None \<Rightarrow> 0 | Some t \<Rightarrow> t)) fr) \<Longrightarrow>
     sorted (map ev_ts (frame_matchable fr))"
proof (induction fr)
  case (Cons r fr)
  then have IH: "sorted (map ev_ts (frame_matchable fr))" by simp
  have le: "\<And>r'. r' \<in> set fr \<Longrightarrow> cr_ts r = Some t \<Longrightarrow> cr_ts r' = Some t' \<Longrightarrow> t \<le> t'" for t t'
    using Cons.prems by (auto simp: less_eq_prod_def)
  show ?case
    using IH le frame_matchable_ts by (auto simp: frame_matchable_Cons split: json.splits option.splits) fastforce+
qed (simp add: frame_matchable_def)

lemma mset_concat_map_perm:
  "mset xs = mset ys \<Longrightarrow> mset (concat (map g xs)) = mset (concat (map g ys))"
proof -
  have "mset (concat (map g zs)) = sum_mset (image_mset (\<lambda>x. mset (g x)) (mset zs))" for zs
    by (induction zs) simp_all
  then show "mset xs = mset ys \<Longrightarrow> ?thesis" by simp
qed

lemma mset_frame_events_sort: "mset (frame_events (sort_frame fr)) = mset (frame_events fr)"
proof -
  have "mset (frame_matchable (sort_frame fr)) = mset (frame_matchable fr)"
    unfolding frame_matchable_def sort_frame_def by (rule mset_concat_map_perm) simp
  moreover have "list_ex P (sort_frame fr) = list_ex P fr" for P
    by (simp add: sort_frame_def list_ex_iff)
  ultimately show ?thesis by (simp add: frame_events_def)
qed

lemma sorted_frame_events_sort: "sorted (map ev_ts (frame_events (sort_frame fr)))"
  unfolding frame_events_def sort_frame_def by (simp add: frame_matchable_sorted sorted_sort_key)

lemma row_ts_isoformat: "datetime_range t \<Longrightarrow> row_ts (JStr (isoformat_utc t)) = Some (Some t)"
proof -
  assume r: "datetime_range t"
  have "isoformat_utc t \<noteq> []" using isoformat_utc_shape(2) [of t] by (cases "isoformat_utc t") auto
  then show ?thesis by (simp add: row_ts_def fromisoformat_isoformat_utc [OF r])
qed

lemma load_rows_cache:
  "\<forall>e\<in>set evs. datetime_range (ev_ts e) \<Longrightarrow> load_rows (map event_json evs) = Some (map event_row evs)"
  by (induction evs) (simp_all add: event_json_def event_row_def dict_get_def row_ts_isoformat)

lemma frame_events_rows [simp]: "frame_events (map event_row evs) = evs"
proof -
  have "frame_matchable (map event_row evs) = evs"
    by (induction evs) (simp_all add: frame_matchable_Cons event_row_def)
  moreover have "\<not> list_ex (\<lambda>r. py_unhashable (cr_currency r)) (map event_row evs)"
    by (simp add: list_ex_iff event_row_def py_unhashable_def)
  ultimately show ?thesis by (simp add: frame_events_def)
qed

lemma utc_day_mono: "t \<le> t' \<Longrightarrow> utc_day t \<le> utc_day t'"
  by (simp add: utc_day_def zdiv_mono1)

lemma auto_update_calendar_cases:
  "auto_update_calendar t env last_day = (started, last1) \<Longrightarrow>
     (started \<longrightarrow> weekday (utc_day t) = 6 \<and> last_day \<noteq> Some (utc_day t))
     \<and> last1 = (if started \<and> \<not> upd_raises env then Some (utc_day t) else last_day)"
  by (auto simp: auto_update_calendar_def Let_def split: if_splits)

lemma daemon_tick_cooldown_cache:
  "in_cooldown t (snd (reenable_phase t ds)) \<Longrightarrow>
     daemon_tick prm rf c t cache snap ds = daemon_tick prm rf c t cache' snap ds"
  by (simp add: daemon_tick_def split_beta)


subsection \<open>Properties\<close>

text \<open>
  C37. A cache written as the reader expects it reads back: for a non-empty
  list of events with times in the range of \<open>datetime\<close>,
  \<open>load_cached_calendar\<close> gives a frame whose matchable events are exactly
  those events (as a multiset) and come sorted by time.
\<close>

theorem load_cached_calendar_roundtrip:
  assumes "evs \<noteq> []" "\<forall>e\<in>set evs. datetime_range (ev_ts e)"
  shows "\<exists>fr. load_cached_calendar (cache_json evs) = Some fr
           \<and> mset (frame_events fr) = mset evs \<and> sorted (map ev_ts (frame_events fr))"
proof -
  obtain e es where "evs = e # es" using assms(1) by (cases evs) auto
  then have cols: "\<not> frame_empty (map event_json evs)" "has_col ''ts_utc'' (map event_json evs)"
    "has_col ''currency'' (map event_json evs)" "has_col ''event'' (map event_json evs)"
    by (simp_all add: frame_empty_def has_col_def event_json_def)
  show ?thesis
    using cols load_rows_cache [OF assms(2)] mset_frame_events_sort [of "map event_row evs"]
      sorted_frame_events_sort [of "map event_row evs"]
    by (simp add: load_cached_calendar_def cache_json_def dict_get_def)
qed

theorem load_cached_calendar_roundtrip_witness:
  "\<exists>fr. load_cached_calendar (cache_json [ex_event ''USD'' 1700400000, ex_event ''EUR'' 1700360000]) = Some fr
     \<and> mset (frame_events fr) = mset [ex_event ''USD'' 1700400000, ex_event ''EUR'' 1700360000]
     \<and> sorted (map ev_ts (frame_events fr))"
proof -
  have r: "datetime_range 1700400000" "datetime_range 1700360000"
    by (simp_all add: datetime_range_def epoch_ord_def days_before_year_def)
  show ?thesis
    using load_cached_calendar_roundtrip [of "[ex_event ''USD'' 1700400000, ex_event ''EUR'' 1700360000]"] r
    by (simp add: ex_event_def)
qed

text \<open>
  C38. Over a run of ticks in time order starting with no recorded day, the
  downloader is started only on Sundays (UTC), and it is started successfully
  at most once per Sunday: the days of the successful starts strictly
  increase, and each follows the day recorded before the run.
\<close>

theorem auto_update_once_per_sunday:
  assumes "sorted (map fst ts)" "\<forall>(t, env) \<in> set ts. case last_day of None \<Rightarrow> True | Some d \<Rightarrow> d \<le> utc_day t"
  shows "(\<forall>(d, r) \<in> set (fst (auto_update_run ts last_day)). weekday d = 6)
    \<and> sorted_wrt (<) (map fst (filter (\<lambda>(d, r). \<not> r) (fst (auto_update_run ts last_day))))
    \<and> (\<forall>(d, r) \<in> set (fst (auto_update_run ts last_day)). \<not> r \<longrightarrow> (case last_day of None \<Rightarrow> True | Some d0 \<Rightarrow> d0 < d))"
  using assms
proof (induction ts arbitrary: last_day)
  case (Cons x ts)
  obtain t env where x: "x = (t, env)" by fastforce
  obtain started last1 where A: "auto_update_calendar t env last_day = (started, last1)" by fastforce
  note C = auto_update_calendar_cases [OF A]
  have s: "sorted (map fst ts)" and ge: "\<forall>(t', env') \<in> set ts. t \<le> t'"
    using Cons.prems(1) x by auto
  have l1: "\<forall>(t', env') \<in> set ts. case last1 of None \<Rightarrow> True | Some d \<Rightarrow> d \<le> utc_day t'"
    using Cons.prems(2) ge C x by (auto simp: utc_day_mono split: option.splits if_splits)
  note IH = Cons.IH [OF s l1]
  obtain ls last2 where R: "auto_update_run ts last1 = (ls, last2)" by fastforce
  have d0: "case last_day of None \<Rightarrow> True | Some d \<Rightarrow> d \<le> utc_day t" using Cons.prems(2) x by auto
  show ?case
  proof (cases "started \<and> \<not> upd_raises env")
    case True
    then have "last1 = Some (utc_day t)" using C by simp
    with IH R have "\<forall>(d, r) \<in> set ls. \<not> r \<longrightarrow> utc_day t < d" by auto
    moreover have "case last_day of None \<Rightarrow> True | Some d0 \<Rightarrow> d0 < utc_day t"
      using d0 C True by (auto split: option.splits)
    ultimately show ?thesis using IH R C True x A
      by (auto simp: Let_def split: option.splits)
  next
    case False
    then have "last1 = last_day" using C by auto
    then show ?thesis using IH R C False x A by (auto simp: Let_def split: if_splits)
  qed
qed simp


theorem auto_update_once_per_sunday_witness:
  "fst (auto_update_run ex_refresh_ticks None)
     = [(19680 + epoch_ord, False), (19687 + epoch_ord, True), (19687 + epoch_ord, False)]
   \<and> sorted_wrt (<) (map fst (filter (\<lambda>(d, r). \<not> r) (fst (auto_update_run ex_refresh_ticks None))))"
proof -
  have run: "fst (auto_update_run ex_refresh_ticks None)
     = [(19680 + epoch_ord, False), (19687 + epoch_ord, True), (19687 + epoch_ord, False)]"
    by (simp add: ex_refresh_ticks_def ex_sunday_def ex_updater_def ex_failing_updater_def
        auto_update_calendar_def utc_day_def weekday_def epoch_ord_def Let_def)
  have "sorted (map fst ex_refresh_ticks)"
    by (simp add: ex_refresh_ticks_def ex_sunday_def)
  then show ?thesis
    using auto_update_once_per_sunday [of ex_refresh_ticks None] run by simp
qed

text \<open>
  When starting the downloader raises on a Sunday not yet recorded,
  revision 0.1 leaves the body of the tick for the outer \<open>except\<close>: the
  reload and the news enforcement are skipped, the state stays as it was, so
  every further tick of that day does the same. Revision 0.2 catches the
  exception: the tick is the plain tick with the cache as it was, and the day
  stays unrecorded, so the next tick starts the downloader again.
\<close>

theorem updater_failure_tick:
  assumes "weekday (utc_day t) = 6" "cd_last_day cs \<noteq> Some (utc_day t)"
    "upd_exists env" "upd_raises env"
  shows "daemon_try_v01 prm rf c t env snap alive cs = Raised
    \<and> daemon_tick_cal prm rf c t env snap cs =
        (let (r, ds') = daemon_tick prm rf c t (map_option frame_events (load_cached_calendar (cd_cache cs)))
                          snap (cd_daemon cs)
         in (r, cs\<lparr>cd_daemon := ds'\<rparr>))"
proof -
  have A: "auto_update_calendar t env (cd_last_day cs) = (True, cd_last_day cs)"
    using assms by (simp add: auto_update_calendar_def Let_def)
  have R: "refreshed_cache True env (cd_cache cs) = cd_cache cs"
    using assms(4) by (simp add: refreshed_cache_def)
  have "daemon_try_v01 prm rf c t env snap alive cs = Raised"
    using assms by (simp add: daemon_try_v01_def auto_update_calendar_v01_def Let_def)
  moreover have "daemon_tick_cal prm rf c t env snap cs =
        (let (r, ds') = daemon_tick prm rf c t (map_option frame_events (load_cached_calendar (cd_cache cs)))
                          snap (cd_daemon cs)
         in (r, cs\<lparr>cd_daemon := ds'\<rparr>))"
  proof (cases "in_cooldown t (snd (reenable_phase t (cd_daemon cs)))")
    case True
    then show ?thesis
      using daemon_tick_cooldown_cache [OF True, where cache = None
          and cache' = "map_option frame_events (load_cached_calendar (cd_cache cs))"]
      by (simp add: daemon_tick_cal_def split_beta)
  next
    case False
    then show ?thesis using A R by (cases cs) (simp add: daemon_tick_cal_def split_beta)
  qed
  ultimately show ?thesis by blast
qed

theorem updater_failure_tick_witness:
  "daemon_try_v01 ex_news_params 0 (\<lambda>_. True) ex_sunday ex_failing_updater None (\<lambda>_. None)
       (ex_cal_state [ex_event ''USD'' 1700352600]) = Raised
   \<and> snd (daemon_tick_cal ex_news_params 0 (\<lambda>_. True) ex_sunday ex_failing_updater None
       (ex_cal_state [ex_event ''USD'' 1700352600]))
     = (ex_cal_state [ex_event ''USD'' 1700352600])\<lparr>cd_daemon := snd (daemon_tick ex_news_params 0 (\<lambda>_. True)
         ex_sunday (map_option frame_events (load_cached_calendar (cache_json [ex_event ''USD'' 1700352600])))
         None (ex_daemon_state None [ex_npos 7 ''EURUSD'' 990] True))\<rparr>"
proof -
  have "weekday (utc_day ex_sunday) = 6"
    by (simp add: ex_sunday_def utc_day_def weekday_def epoch_ord_def)
  then show ?thesis
    using updater_failure_tick [where t = ex_sunday and env = ex_failing_updater and prm = ex_news_params
        and rf = 0 and c = "\<lambda>_. True" and snap = None and alive = "\<lambda>_. None"
        and cs = "ex_cal_state [ex_event ''USD'' 1700352600]"]
    by (simp add: ex_failing_updater_def ex_cal_state_def split_beta)
qed

end
