(* ===== verification/News_Process.thy ===== *)
theory News_Process
  imports Calendar_Cache
begin

text \<open>
  The news daemon as a process, for both revisions of
  \<open>src/RiskGuardv0.0.2/news/\<close>: the module-level call of
  \<open>auto_update_calendar()\<close> (\<open>if __name__ == "__main__"\<close>), \<open>main\<close>, and
  \<open>run_daemon\<close> with its connection check (\<open>sys.exit(2)\<close>), its initial
  locals and its \<open>while True\<close> loop over a finite list of iterations. Each
  iteration brings its instant, the downloader's behaviour and the snapshot
  (and, in revision 0.1, the polls of the barrier). The module globals
  \<open>LAST_AUTOTRADE_REENABLE = 0.0\<close> and \<open>LAST_CALENDAR_UPDATE_DAY = None\<close> and
  the locals \<open>last_load = 0.0\<close>, \<open>events_df = None\<close> give the initial state.
  The environment dump of revision 0.2 (lines 274--309) only prints, every
  read in its own \<open>try\<close>; \<open>argparse\<close> gives the options.
\<close>

type_synonym cal_tick = "timestamp \<times> updater_env \<times> snapshot option"

type_synonym cal_tick_v01 = "timestamp \<times> updater_env \<times> snapshot option \<times> (nat \<Rightarrow> ticket set option)"

subsection \<open>Revision 0.2\<close>

text \<open>Lines 314--351: the loop, one \<open>daemon_tick_cal\<close> per iteration.\<close>

fun cal_daemon_run ::
  "news_params \<Rightarrow> int \<Rightarrow> (position \<Rightarrow> bool) \<Rightarrow> cal_tick list \<Rightarrow> cal_daemon_state
   \<Rightarrow> tick_result list \<times> cal_daemon_state" where
  "cal_daemon_run prm rf c [] cs = ([], cs)"
| "cal_daemon_run prm rf c ((t, env, snap) # ts) cs =
     (let (o1, cs1) = daemon_tick_cal prm rf c t env snap cs;
          (os, cs2) = cal_daemon_run prm rf c ts cs1
      in (o1 # os, cs2))"

text \<open>The state a process starts from: the world and the cache file as they are.\<close>

definition initial_cal_state :: "world \<Rightarrow> json_file \<Rightarrow> cal_daemon_state" where
  "initial_cal_state w cf =
     \<lparr>cd_daemon = \<lparr>ds_world = w, last_reenable = 0, last_load = 0, events_df = None\<rparr>,
      cd_last_day = None, cd_cache = cf\<rparr>"

text \<open>Line 364: \<open>auto_update_calendar()\<close> before \<open>main()\<close>.\<close>

definition startup_refresh :: "timestamp \<Rightarrow> updater_env \<Rightarrow> cal_daemon_state \<Rightarrow> cal_daemon_state" where
  "startup_refresh t env cs =
     (let (started, last1) = auto_update_calendar t env (cd_last_day cs)
      in cs\<lparr>cd_last_day := last1, cd_cache := refreshed_cache started env (cd_cache cs)\<rparr>)"

text \<open>
  Lines 265--271 and 354--366: the process. \<open>Inl\<close> is the exit status: 2 when
  the engine does not connect.
\<close>

definition news_main ::
  "news_params \<Rightarrow> int \<Rightarrow> (position \<Rightarrow> bool) \<Rightarrow> bool \<Rightarrow> world \<Rightarrow> json_file \<Rightarrow> timestamp
   \<Rightarrow> updater_env \<Rightarrow> cal_tick list \<Rightarrow> int + tick_result list \<times> cal_daemon_state" where
  "news_main prm rf c connects w cf t0 env0 ticks =
     (let cs0 = startup_refresh t0 env0 (initial_cal_state w cf)
      in if connects then Inr (cal_daemon_run prm rf c ticks cs0) else Inl 2)"

subsection \<open>Revision 0.1\<close>

text \<open>
  Lines 213--269: one iteration of the loop. The re-enable and the cool-down are outside the
  \<open>try\<close>; an exception in the body is caught by the outer \<open>except\<close> with the
  state as the re-enable left it; a barrier that never returns hangs the
  process (\<open>None\<close>). Each iteration outputs the report of the enforcement, if it
  ran to its end.
\<close>

definition daemon_iter_v01 ::
  "news_params \<Rightarrow> int \<Rightarrow> (position \<Rightarrow> bool) \<Rightarrow> timestamp \<Rightarrow> updater_env \<Rightarrow> snapshot option
   \<Rightarrow> (nat \<Rightarrow> ticket set option) \<Rightarrow> cal_daemon_state \<Rightarrow> (news_report option \<times> cal_daemon_state) option" where
  "daemon_iter_v01 prm rf c t env snap alive cs =
     (let (fired, ds1) = reenable_phase t (cd_daemon cs);
          cs1 = cs\<lparr>cd_daemon := ds1\<rparr>
      in if in_cooldown t ds1 then Some (None, cs1)
         else (case daemon_try_v01 prm rf c t env snap alive cs1 of
                 Raised \<Rightarrow> Some (None, cs1)
               | Hangs \<Rightarrow> None
               | Done (r, cs2) \<Rightarrow> Some (r, cs2)))"

text \<open>Lines 211--270: the loop.\<close>

fun daemon_run_v01 ::
  "news_params \<Rightarrow> int \<Rightarrow> (position \<Rightarrow> bool) \<Rightarrow> cal_tick_v01 list \<Rightarrow> cal_daemon_state
   \<Rightarrow> (news_report option list \<times> cal_daemon_state) option" where
  "daemon_run_v01 prm rf c [] cs = Some ([], cs)"
| "daemon_run_v01 prm rf c ((t, env, snap, alive) # ts) cs =
     (case daemon_iter_v01 prm rf c t env snap alive cs of
        None \<Rightarrow> None
      | Some (r, cs1) \<Rightarrow> map_option (\<lambda>(os, cs2). (r # os, cs2)) (daemon_run_v01 prm rf c ts cs1))"

text \<open>
  Lines 198--209 and 277--289: the process. The module-level
  \<open>auto_update_calendar()\<close> has no \<open>try\<close>: its exception ends the process
  with a traceback, exit status 1, before \<open>main\<close> runs.
\<close>

definition news_main_v01 ::
  "news_params \<Rightarrow> int \<Rightarrow> (position \<Rightarrow> bool) \<Rightarrow> bool \<Rightarrow> world \<Rightarrow> json_file \<Rightarrow> timestamp
   \<Rightarrow> updater_env \<Rightarrow> cal_tick_v01 list \<Rightarrow> (int + news_report option list \<times> cal_daemon_state) option" where
  "news_main_v01 prm rf c connects w cf t0 env0 ticks =
     (case auto_update_calendar_v01 t0 env0 None of
        None \<Rightarrow> Some (Inl 1)
      | Some (started, last1) \<Rightarrow>
          if connects
          then map_option Inr (daemon_run_v01 prm rf c ticks
                 ((initial_cal_state w cf)\<lparr>cd_last_day := last1, cd_cache := refreshed_cache started env0 cf\<rparr>))
          else Some (Inl 2))"

text \<open>The daemon's state after only the re-enable phases of a list of instants.\<close>

definition reenable_run :: "timestamp list \<Rightarrow> daemon_state \<Rightarrow> daemon_state" where
  "reenable_run ts ds = fold (\<lambda>t ds. snd (reenable_phase t ds)) ts ds"

subsection \<open>Example data\<close>

text \<open>A tick a minute after midnight of the example Sunday, with the failing downloader.\<close>

definition ex_failing_ticks_v01 :: "cal_tick_v01 list" where
  "ex_failing_ticks_v01 = [(ex_sunday + 60, ex_failing_updater, None, \<lambda>_. None)]"

definition ex_failing_ticks :: "cal_tick list" where
  "ex_failing_ticks = [(ex_sunday + 60, ex_failing_updater, None)]"

subsection \<open>Lemmas\<close>

lemma daemon_run_v01_failing_day:
  assumes "weekday d = 6" "cd_last_day cs \<noteq> Some d"
    and "\<forall>(t, env, snap, alive) \<in> set ts. utc_day t = d \<and> upd_exists env \<and> upd_raises env"
  shows "daemon_run_v01 prm rf c ts cs
           = Some (map (\<lambda>_. None) ts, cs\<lparr>cd_daemon := reenable_run (map fst ts) (cd_daemon cs)\<rparr>)"
  using assms(2,3)
proof (induction ts arbitrary: cs)
  case (Cons x ts)
  obtain t env snap alive where x: "x = (t, env, snap, alive)" by (cases x) auto
  obtain fired ds1 where r: "reenable_phase t (cd_daemon cs) = (fired, ds1)" by fastforce
  have h: "utc_day t = d" "upd_exists env" "upd_raises env" using Cons.prems(2) x by auto
  have raised: "daemon_try_v01 prm rf c t env snap alive (cs\<lparr>cd_daemon := ds1\<rparr>) = Raised"
    using updater_failure_tick [of t "cs\<lparr>cd_daemon := ds1\<rparr>" env] h assms(1) Cons.prems(1) by simp
  have IH: "daemon_run_v01 prm rf c ts (cs\<lparr>cd_daemon := ds1\<rparr>)
      = Some (map (\<lambda>_. None) ts, cs\<lparr>cd_daemon := reenable_run (map fst ts) ds1\<rparr>)"
    using Cons.IH [of "cs\<lparr>cd_daemon := ds1\<rparr>"] Cons.prems by simp
  show ?case using IH raised r x by (simp add: daemon_iter_v01_def reenable_run_def Let_def)
qed (simp add: reenable_run_def)

lemma cal_daemon_run_failing_day:
  assumes "weekday d = 6" "cd_last_day cs \<noteq> Some d"
    and "\<forall>(t, env, snap) \<in> set ts. utc_day t = d \<and> upd_exists env \<and> upd_raises env"
  shows "cal_daemon_run prm rf c ts cs =
           (let (os, ds') = daemon_run prm rf c
                  (map (\<lambda>(t, env, snap). (t, map_option frame_events (load_cached_calendar (cd_cache cs)), snap)) ts)
                  (cd_daemon cs)
            in (os, cs\<lparr>cd_daemon := ds'\<rparr>))"
  using assms(2,3)
proof (induction ts arbitrary: cs)
  case (Cons x ts)
  obtain t env snap where x: "x = (t, env, snap)" by (cases x) auto
  have h: "utc_day t = d" "upd_exists env" "upd_raises env" using Cons.prems(2) x by auto
  obtain o1 ds1 where tk: "daemon_tick prm rf c t (map_option frame_events (load_cached_calendar (cd_cache cs)))
      snap (cd_daemon cs) = (o1, ds1)" by fastforce
  have tick: "daemon_tick_cal prm rf c t env snap cs = (o1, cs\<lparr>cd_daemon := ds1\<rparr>)"
    using updater_failure_tick [of t cs env] h assms(1) Cons.prems(1) tk by simp
  obtain os ds2 where dr: "daemon_run prm rf c
      (map (\<lambda>(t, env, snap). (t, map_option frame_events (load_cached_calendar (cd_cache cs)), snap)) ts) ds1
      = (os, ds2)" by fastforce
  have IH: "cal_daemon_run prm rf c ts (cs\<lparr>cd_daemon := ds1\<rparr>) = (os, cs\<lparr>cd_daemon := ds2\<rparr>)"
    using Cons.IH [of "cs\<lparr>cd_daemon := ds1\<rparr>"] Cons.prems dr by simp
  show ?case using IH tick tk x dr by simp
qed simp

lemma news_main_v01_startup_failure:
  "weekday (utc_day t0) = 6 \<Longrightarrow> upd_exists env0 \<Longrightarrow> upd_raises env0 \<Longrightarrow>
     news_main_v01 prm rf c connects w cf t0 env0 ticks = Some (Inl 1)"
  by (simp add: news_main_v01_def auto_update_calendar_v01_def Let_def)

lemma news_main_startup_failure:
  "weekday (utc_day t0) = 6 \<Longrightarrow> upd_exists env0 \<Longrightarrow> upd_raises env0 \<Longrightarrow>
     news_main prm rf c True w cf t0 env0 ticks = Inr (cal_daemon_run prm rf c ticks (initial_cal_state w cf))"
  by (simp add: news_main_def startup_refresh_def auto_update_calendar_def refreshed_cache_def
      initial_cal_state_def Let_def)

subsection \<open>Properties\<close>

text \<open>
  C39. On a Sunday (UTC) on which starting the downloader raises: a process of
  revision 0.1 started that day ends at once with the uncaught exception (exit
  status 1), before it connects; a daemon of revision 0.1 already running does
  nothing that day but its re-enable phase: no reload, no news window
  enforced, no report. A process of revision 0.2 starts as if no refresh had
  been asked for, and its ticks of that day are the plain daemon loop over the
  cache as it was, the day staying unrecorded.
\<close>

theorem news_updater_failure_day:
  assumes "weekday d = 6" "utc_day t0 = d" "upd_exists env0" "upd_raises env0" "cd_last_day cs \<noteq> Some d"
    and "\<forall>(t, env, snap, alive) \<in> set ticks1. utc_day t = d \<and> upd_exists env \<and> upd_raises env"
    and "\<forall>(t, env, snap) \<in> set ticks2. utc_day t = d \<and> upd_exists env \<and> upd_raises env"
  shows "news_main_v01 prm rf c connects w cf t0 env0 ticks0 = Some (Inl 1)
    \<and> daemon_run_v01 prm rf c ticks1 cs
        = Some (map (\<lambda>_. None) ticks1, cs\<lparr>cd_daemon := reenable_run (map fst ticks1) (cd_daemon cs)\<rparr>)
    \<and> news_main prm rf c True w cf t0 env0 ticks2 = Inr (cal_daemon_run prm rf c ticks2 (initial_cal_state w cf))
    \<and> cal_daemon_run prm rf c ticks2 cs =
        (let (os, ds') = daemon_run prm rf c
               (map (\<lambda>(t, env, snap). (t, map_option frame_events (load_cached_calendar (cd_cache cs)), snap)) ticks2)
               (cd_daemon cs)
         in (os, cs\<lparr>cd_daemon := ds'\<rparr>))"
  using news_main_v01_startup_failure [of t0 env0] news_main_startup_failure [of t0 env0]
    daemon_run_v01_failing_day [OF assms(1,5,6)] cal_daemon_run_failing_day [OF assms(1,5,7)] assms(1-4)
  by simp

theorem news_updater_failure_day_witness:
  "news_main_v01 ex_news_params 0 (\<lambda>_. True) True (ds_world (cd_daemon (ex_cal_state []))) (cache_json [])
      ex_sunday ex_failing_updater ex_failing_ticks_v01 = Some (Inl 1)
   \<and> daemon_run_v01 ex_news_params 0 (\<lambda>_. True) ex_failing_ticks_v01 (ex_cal_state [ex_event ''USD'' 1700352600])
       = Some (map (\<lambda>_. None) ex_failing_ticks_v01, (ex_cal_state [ex_event ''USD'' 1700352600])\<lparr>cd_daemon :=
           reenable_run (map fst ex_failing_ticks_v01) (cd_daemon (ex_cal_state [ex_event ''USD'' 1700352600]))\<rparr>)
   \<and> news_main ex_news_params 0 (\<lambda>_. True) True (ds_world (cd_daemon (ex_cal_state []))) (cache_json [])
       ex_sunday ex_failing_updater ex_failing_ticks
       = Inr (cal_daemon_run ex_news_params 0 (\<lambda>_. True) ex_failing_ticks
               (initial_cal_state (ds_world (cd_daemon (ex_cal_state []))) (cache_json [])))
   \<and> cal_daemon_run ex_news_params 0 (\<lambda>_. True) ex_failing_ticks (ex_cal_state [ex_event ''USD'' 1700352600]) =
       (let (os, ds') = daemon_run ex_news_params 0 (\<lambda>_. True)
              (map (\<lambda>(t, env, snap). (t, map_option frame_events
                 (load_cached_calendar (cd_cache (ex_cal_state [ex_event ''USD'' 1700352600]))), snap)) ex_failing_ticks)
              (cd_daemon (ex_cal_state [ex_event ''USD'' 1700352600]))
        in (os, (ex_cal_state [ex_event ''USD'' 1700352600])\<lparr>cd_daemon := ds'\<rparr>))"
proof (rule news_updater_failure_day [where d = "utc_day ex_sunday"])
  show "weekday (utc_day ex_sunday) = 6"
    by (simp add: ex_sunday_def utc_day_def weekday_def epoch_ord_def)
qed (simp_all add: ex_failing_updater_def ex_cal_state_def ex_failing_ticks_v01_def ex_failing_ticks_def
       ex_sunday_def utc_day_def)

end
