(* ===== verification/News_Revisions.thy ===== *)
theory News_Revisions
  imports News_Process
begin

text \<open>
  The two revisions of the news daemon side by side. The state of a daemon
  without its AutoTrading flag is \<open>cal_abs\<close>; a cache file both loaders read
  to the same events is \<open>cache_agree\<close>. Under a downloader that does not
  raise, caches both read alike and barriers that return, a run of revision 0.1
  and a run of revision 0.2 over the same iterations act on the same positions
  and leave the same state but for AutoTrading.
\<close>

definition at_off :: "world \<Rightarrow> world" where
  "at_off w = w\<lparr>w_engine := (w_engine w)\<lparr>eng_autotrading := False\<rparr>\<rparr>"

definition cal_abs :: "cal_daemon_state \<Rightarrow> cal_daemon_state" where
  "cal_abs cs = cs\<lparr>cd_daemon := (cd_daemon cs)\<lparr>ds_world := at_off (ds_world (cd_daemon cs))\<rparr>\<rparr>"

definition cache_agree :: "json_file \<Rightarrow> bool" where
  "cache_agree f = (map_option frame_events (load_cached_calendar_v01 f) = map_option frame_events (load_cached_calendar f))"

subsection \<open>Example data\<close>

text \<open>
  A tick five minutes before a USD event, with a EURUSD position opened ten
  seconds before; the downloader is present and would write an empty cache.
\<close>

definition ex_rev_ticks :: "cal_tick_v01 list" where
  "ex_rev_ticks = [(1700400000, ex_updater [],
     Some \<lparr>total_risk_pct = 1, snap_positions = [ex_npos 7 ''EURUSD'' 1700399990]\<rparr>, \<lambda>_. Some {})]"

text \<open>A cache whose events carry no label.\<close>

definition ex_cache_no_label :: json_file where
  "ex_cache_no_label = JFile (JObj [(''events'', JArr [JObj [(''currency'', JStr ''USD''),
     (''ts_utc'', JStr (isoformat_utc 1700400300))]])])"

subsection \<open>Lemmas: equality but for AutoTrading\<close>

lemma at_off_eq_iff:
  "at_off w = at_off w' \<longleftrightarrow>
     w_limits w = w_limits w' \<and> w_kill w = w_kill w' \<and> eng_positions (w_engine w) = eng_positions (w_engine w')"
  by (cases w; cases w'; cases "w_engine w"; cases "w_engine w'") (auto simp: at_off_def)

lemma cal_abs_eq_iff:
  "cal_abs cs = cal_abs cs' \<longleftrightarrow>
     cd_last_day cs = cd_last_day cs' \<and> cd_cache cs = cd_cache cs'
     \<and> last_reenable (cd_daemon cs) = last_reenable (cd_daemon cs')
     \<and> last_load (cd_daemon cs) = last_load (cd_daemon cs')
     \<and> events_df (cd_daemon cs) = events_df (cd_daemon cs')
     \<and> at_off (ds_world (cd_daemon cs)) = at_off (ds_world (cd_daemon cs'))"
  by (cases cs; cases cs'; cases "cd_daemon cs"; cases "cd_daemon cs'") (auto simp: cal_abs_def)

lemma w_close_at_off:
  "at_off w = at_off w' \<Longrightarrow>
     fst (w_close c p w) = fst (w_close c p w') \<and> at_off (snd (w_close c p w)) = at_off (snd (w_close c p w'))"
  by (simp add: at_off_eq_iff w_close_def close_position_full_def)

lemma w_arm_at_off:
  "at_off w = at_off w' \<Longrightarrow> at_off (w_arm u w) = at_off (w_arm u w')"
  by (simp add: at_off_eq_iff w_arm_def)

lemma news_loop_at_off:
  "at_off w = at_off w' \<Longrightarrow>
     fst (news_loop c prm now df ps rep mu w) = fst (news_loop c prm now df ps rep mu w')
     \<and> fst (snd (news_loop c prm now df ps rep mu w)) = fst (snd (news_loop c prm now df ps rep mu w'))
     \<and> at_off (snd (snd (news_loop c prm now df ps rep mu w))) = at_off (snd (snd (news_loop c prm now df ps rep mu w')))"
proof (induction ps arbitrary: rep mu w w')
  case (Cons p ps)
  note C = w_close_at_off [OF Cons.prems, of c p]
  show ?case
    using Cons.IH [OF C [THEN conjunct2]] Cons.IH [OF Cons.prems] C by (simp add: Let_def split_beta)
qed simp

lemma enforce_news_window_at_off:
  "at_off w = at_off w' \<Longrightarrow>
     fst (enforce_news_window c prm now snap df w) = fst (enforce_news_window c prm now snap df w')
     \<and> at_off (snd (enforce_news_window c prm now snap df w)) = at_off (snd (enforce_news_window c prm now snap df w'))"
proof (cases snap)
  case (Some s)
  assume a: "at_off w = at_off w'"
  note L = news_loop_at_off [OF a, of c prm now df "snap_positions s" empty_news_report None]
  show ?thesis
    using L w_arm_at_off [OF L [THEN conjunct2, THEN conjunct2]]
    by (simp add: Some enforce_news_window_def split_beta split: option.splits)
qed (simp add: enforce_news_window_def)

lemma reenable_phase_at_off:
  assumes "at_off (ds_world ds) = at_off (ds_world ds')" "last_reenable ds = last_reenable ds'"
  shows "fst (reenable_phase t ds) = fst (reenable_phase t ds')
    \<and> at_off (ds_world (snd (reenable_phase t ds))) = at_off (ds_world (snd (reenable_phase t ds')))
    \<and> last_reenable (snd (reenable_phase t ds)) = last_reenable (snd (reenable_phase t ds'))"
  using assms
  by (simp add: reenable_phase_def w_maybe_reenable_def ensure_autotrading_on_def at_off_eq_iff split_beta)

lemma wait_for_closure_returns:
  assumes "\<exists>i. alive i = None \<or> alive i = Some {}"
  shows "\<exists>b. wait_for_closure A alive = Some b"
proof -
  from assms obtain i where "alive i = None \<or> alive i = Some {}" by blast
  then have "\<not> barrier_waiting A alive i" by (auto simp: barrier_waiting_def)
  then show ?thesis by (auto simp: wait_for_closure_def while_option_first_stop)
qed

lemma news_tick_v01_returns:
  assumes "\<exists>i. alive i = None \<or> alive i = Some {}"
  shows "\<exists>b w1. news_tick_v01 prm c t snap evs alive w
           = Some (fst (enforce_news_window_v01 c prm t snap (Some evs) w), b, w1)
         \<and> at_off w1 = at_off (snd (enforce_news_window_v01 c prm t snap (Some evs) w))"
proof -
  obtain rep w1 where E: "enforce_news_window_v01 c prm t snap (Some evs) w = (rep, w1)" by fastforce
  obtain b where B: "wait_for_closure (set (map fst (affected rep))) alive = Some b"
    using wait_for_closure_returns [OF assms] by blast
  show ?thesis
    using E B by (cases b) (auto simp: news_tick_v01_def at_off_eq_iff ensure_autotrading_off_def)
qed

lemma enforce_revisions_at_off:
  "affected (fst (enforce_news_window_v01 c prm now snap df w)) = affected (fst (enforce_news_window c prm now snap df w))
   \<and> at_off (snd (enforce_news_window_v01 c prm now snap df w)) = at_off (snd (enforce_news_window c prm now snap df w))"
proof (cases snap)
  case (Some s)
  show ?thesis
    using news_revisions_agree [OF surjective_pairing surjective_pairing, of c prm now s df w]
    by (simp add: Some at_off_eq_iff)
qed (simp add: enforce_news_window_def enforce_news_window_v01_def)

lemma auto_update_calendar_v01_ok:
  "\<not> upd_raises env \<Longrightarrow> auto_update_calendar_v01 t env l = Some (auto_update_calendar t env l)"
  by (simp add: auto_update_calendar_v01_def auto_update_calendar_def Let_def)

text \<open>One iteration of revision 0.1 outside the cool-down, with a downloader that does not raise.\<close>

lemma daemon_iter_v01_active:
  assumes "reenable_phase t (cd_daemon cs) = (f, d1)" "\<not> in_cooldown t d1" "\<not> upd_raises env"
    "auto_update_calendar t env (cd_last_day cs) = (started, last1)"
    "refreshed_cache started env (cd_cache cs) = cf"
    "reload_phase rf t (map_option frame_events (load_cached_calendar_v01 cf)) d1 = ds2"
  shows "daemon_iter_v01 prm rf c t env snap alive cs =
    (case events_df ds2 of
       None \<Rightarrow> Some (None, \<lparr>cd_daemon = ds2, cd_last_day = last1, cd_cache = cf\<rparr>)
     | Some evs \<Rightarrow>
         (case news_tick_v01 prm c t snap evs alive (ds_world ds2) of
            None \<Rightarrow> None
          | Some (rep, b, w) \<Rightarrow> Some (Some rep, \<lparr>cd_daemon = ds2\<lparr>ds_world := w\<rparr>, cd_last_day = last1, cd_cache = cf\<rparr>)))"
  using assms
  by (simp add: daemon_iter_v01_def daemon_try_v01_def auto_update_calendar_v01_ok Let_def split: option.split)

text \<open>The same for a tick of revision 0.2.\<close>

lemma daemon_tick_cal_active:
  assumes "reenable_phase t (cd_daemon cs) = (f, d1)" "\<not> in_cooldown t d1"
    "auto_update_calendar t env (cd_last_day cs) = (started, last1)"
    "refreshed_cache started env (cd_cache cs) = cf"
    "reload_phase rf t (map_option frame_events (load_cached_calendar cf)) d1 = ds2"
  shows "daemon_tick_cal prm rf c t env snap cs =
    (case events_df ds2 of
       None \<Rightarrow> (\<lparr>tick_reenabled = f, tick_report = None\<rparr>, \<lparr>cd_daemon = ds2, cd_last_day = last1, cd_cache = cf\<rparr>)
     | Some evs \<Rightarrow>
         (\<lparr>tick_reenabled = f, tick_report = Some (fst (enforce_news_window c prm t snap (Some evs) (ds_world ds2)))\<rparr>,
          \<lparr>cd_daemon = ds2\<lparr>ds_world := snd (enforce_news_window c prm t snap (Some evs) (ds_world ds2))\<rparr>,
           cd_last_day = last1, cd_cache = cf\<rparr>))"
  using assms
  by (simp add: daemon_tick_cal_def daemon_tick_def Let_def split_beta split: option.split)

text \<open>One iteration of revision 0.1 against one tick of revision 0.2.\<close>

lemma iter_tick_agree:
  assumes A: "cal_abs cs1 = cal_abs cs2" and ca: "cache_agree (cd_cache cs1)" "cache_agree (upd_output env)"
    and nr: "\<not> upd_raises env" and al: "\<exists>i. alive i = None \<or> alive i = Some {}"
  shows "\<exists>o1 cs1'. daemon_iter_v01 prm rf c t env snap alive cs1 = Some (o1, cs1')
     \<and> map_option affected o1 = map_option affected (tick_report (fst (daemon_tick_cal prm rf c t env snap cs2)))
     \<and> cal_abs cs1' = cal_abs (snd (daemon_tick_cal prm rf c t env snap cs2))
     \<and> cache_agree (cd_cache cs1')"
proof -
  have F: "cd_last_day cs2 = cd_last_day cs1" "cd_cache cs2 = cd_cache cs1"
    "last_reenable (cd_daemon cs1) = last_reenable (cd_daemon cs2)"
    "last_load (cd_daemon cs1) = last_load (cd_daemon cs2)"
    "events_df (cd_daemon cs1) = events_df (cd_daemon cs2)"
    "at_off (ds_world (cd_daemon cs1)) = at_off (ds_world (cd_daemon cs2))"
    using A by (simp_all add: cal_abs_eq_iff)
  obtain f d1 where R1: "reenable_phase t (cd_daemon cs1) = (f, d1)" by fastforce
  obtain f' d1' where R2: "reenable_phase t (cd_daemon cs2) = (f', d1')" by fastforce
  have RA: "f = f'" "at_off (ds_world d1) = at_off (ds_world d1')" "last_reenable d1 = last_reenable d1'"
    using reenable_phase_at_off [OF F(6) F(3), of t] R1 R2 by simp_all
  have RB: "last_load d1 = last_load d1'" "events_df d1 = events_df d1'"
    using reenable_phase_result(7,8) [OF R1] reenable_phase_result(7,8) [OF R2] F(4,5) by simp_all
  have CD: "in_cooldown t d1' = in_cooldown t d1" by (simp add: in_cooldown_def RA)
  show ?thesis
  proof (cases "in_cooldown t d1")
    case True
    have "daemon_iter_v01 prm rf c t env snap alive cs1 = Some (None, cs1\<lparr>cd_daemon := d1\<rparr>)"
      using R1 True by (simp add: daemon_iter_v01_def)
    moreover have "daemon_tick_cal prm rf c t env snap cs2
        = (\<lparr>tick_reenabled = f', tick_report = None\<rparr>, cs2\<lparr>cd_daemon := d1'\<rparr>)"
      using R2 True CD by (simp add: daemon_tick_cal_def daemon_tick_def)
    ultimately show ?thesis using F RA RB ca by (simp add: cal_abs_eq_iff)
  next
    case False
    obtain started last1 where U: "auto_update_calendar t env (cd_last_day cs1) = (started, last1)" by fastforce
    define cf where "cf = refreshed_cache started env (cd_cache cs1)"
    have cfa: "cache_agree cf" using ca by (simp add: cf_def refreshed_cache_def)
    define X where "X = map_option frame_events (load_cached_calendar cf)"
    define ds2 where "ds2 = reload_phase rf t X d1"
    define ds2' where "ds2' = reload_phase rf t X d1'"
    have D2: "at_off (ds_world ds2) = at_off (ds_world ds2')" "events_df ds2 = events_df ds2'"
      "last_reenable ds2 = last_reenable ds2'" "last_load ds2 = last_load ds2'"
      using RA RB by (simp_all add: ds2_def ds2'_def reload_phase_def)
    note it1 = daemon_iter_v01_active [OF R1 False nr U cf_def [symmetric],
        unfolded cfa [unfolded cache_agree_def] X_def [symmetric], OF ds2_def [symmetric]]
    note tick = daemon_tick_cal_active [OF R2 False [folded CD] U [folded F(1)] cf_def [symmetric, folded F(2)],
        unfolded X_def [symmetric], OF ds2'_def [symmetric]]
    show ?thesis
    proof (cases "events_df ds2")
      case None
      then show ?thesis using it1 tick D2 cfa by (simp add: cal_abs_eq_iff)
    next
      case (Some evs)
      obtain b w1 where NT: "news_tick_v01 prm c t snap evs alive (ds_world ds2)
          = Some (fst (enforce_news_window_v01 c prm t snap (Some evs) (ds_world ds2)), b, w1)"
        and W1: "at_off w1 = at_off (snd (enforce_news_window_v01 c prm t snap (Some evs) (ds_world ds2)))"
        using news_tick_v01_returns [OF al] by blast
      note V = enforce_revisions_at_off [of c prm t snap "Some evs" "ds_world ds2"]
      note M = enforce_news_window_at_off [OF D2(1), of c prm t snap "Some evs"]
      show ?thesis using it1 tick Some D2 NT W1 V M cfa RA by (simp add: cal_abs_eq_iff)
    qed
  qed
qed

lemma cache_agree_cache_json:
  assumes "\<forall>e\<in>set evs. datetime_range (ev_ts e)"
  shows "cache_agree (cache_json evs)"
proof (cases evs)
  case Nil
  then show ?thesis
    by (simp add: cache_agree_def load_cached_calendar_def load_cached_calendar_v01_def cache_json_def
        dict_get_def frame_empty_def)
next
  case (Cons e es)
  then have cols: "\<not> frame_empty (map event_json evs)" "has_col ''ts_utc'' (map event_json evs)"
    "has_col ''currency'' (map event_json evs)" "has_col ''event'' (map event_json evs)"
    by (simp_all add: frame_empty_def has_col_def event_json_def)
  show ?thesis
    using cols load_rows_cache [OF assms]
    by (simp add: cache_agree_def load_cached_calendar_def load_cached_calendar_v01_def cache_json_def dict_get_def)
qed

text \<open>
  Revision 0.2 reads \<open>r['event']\<close> in its debug print: a cache without
  labels gives no calendar at all, while revision 0.1 matches its events.
\<close>

lemma no_label_cache_refused:
  "load_cached_calendar ex_cache_no_label = None
   \<and> map_option frame_events (load_cached_calendar_v01 ex_cache_no_label)
       = Some [\<lparr>ev_currency = ''USD'', ev_ts = 1700400300, ev_label = ''''\<rparr>]"
proof -
  have r: "datetime_range 1700400300" by (simp add: datetime_range_def epoch_ord_def days_before_year_def)
  show ?thesis
    by (simp add: ex_cache_no_label_def load_cached_calendar_def load_cached_calendar_v01_def dict_get_def
        row_ts_isoformat [OF r] frame_empty_def has_col_def sort_frame_def frame_events_def frame_matchable_def
        py_unhashable_def)
qed

subsection \<open>Properties\<close>

text \<open>
  C19. Over whole runs the two revisions of the news daemon agree on everything
  but AutoTrading. From states equal but for AutoTrading, with a downloader
  that does not raise, cache files both loaders read to the same events, and
  confirmation barriers that return, the loop of revision 0.1 never hangs, each
  of its iterations acts on the same positions as the tick of revision 0.2,
  and at the end both leave the same positions, limits file, kill switch,
  calendar, cache file and recorded day.
\<close>

theorem news_daemon_revisions_agree:
  assumes "cal_abs cs1 = cal_abs cs2" "cache_agree (cd_cache cs1)"
    and "\<forall>(t, env, snap, alive) \<in> set ts.
           \<not> upd_raises env \<and> cache_agree (upd_output env) \<and> (\<exists>i. alive i = None \<or> alive i = Some {})"
  shows "\<exists>outs cs1'. daemon_run_v01 prm rf c ts cs1 = Some (outs, cs1')
    \<and> map (map_option affected) outs
        = map (\<lambda>tr. map_option affected (tick_report tr))
            (fst (cal_daemon_run prm rf c (map (\<lambda>(t, env, snap, alive). (t, env, snap)) ts) cs2))
    \<and> cal_abs cs1' = cal_abs (snd (cal_daemon_run prm rf c (map (\<lambda>(t, env, snap, alive). (t, env, snap)) ts) cs2))"
  using assms
proof (induction ts arbitrary: cs1 cs2)
  case (Cons x ts)
  obtain t env snap alive where x: "x = (t, env, snap, alive)" by (cases x) auto
  have h: "\<not> upd_raises env" "cache_agree (upd_output env)" "\<exists>i. alive i = None \<or> alive i = Some {}"
    using Cons.prems(3) x by auto
  obtain o1 cs1' where I: "daemon_iter_v01 prm rf c t env snap alive cs1 = Some (o1, cs1')"
    and Ia: "map_option affected o1 = map_option affected (tick_report (fst (daemon_tick_cal prm rf c t env snap cs2)))"
    and Ib: "cal_abs cs1' = cal_abs (snd (daemon_tick_cal prm rf c t env snap cs2))"
    and Ic: "cache_agree (cd_cache cs1')"
    using iter_tick_agree [OF Cons.prems(1,2) h(2,1,3)] by blast
  obtain o2 cs2' where T: "daemon_tick_cal prm rf c t env snap cs2 = (o2, cs2')" by fastforce
  obtain os2 cs2'' where T2: "cal_daemon_run prm rf c (map (\<lambda>(t, env, snap, alive). (t, env, snap)) ts) cs2' = (os2, cs2'')"
    by fastforce
  obtain outs cs1'' where R: "daemon_run_v01 prm rf c ts cs1' = Some (outs, cs1'')"
    and Ra: "map (map_option affected) outs = map (\<lambda>tr. map_option affected (tick_report tr)) os2"
    and Rb: "cal_abs cs1'' = cal_abs cs2''"
    using Cons.IH [OF Ib [unfolded T snd_conv] Ic] Cons.prems(3) T2 by auto
  show ?case using x I Ia R Ra Rb T T2 by simp
qed simp

theorem news_daemon_revisions_agree_witness:
  "\<exists>outs cs1'. daemon_run_v01 ex_news_params 0 (\<lambda>_. True) ex_rev_ticks (ex_cal_state [ex_event ''USD'' 1700400300])
       = Some (outs, cs1')
    \<and> map (map_option affected) outs
        = map (\<lambda>tr. map_option affected (tick_report tr))
            (fst (cal_daemon_run ex_news_params 0 (\<lambda>_. True) (map (\<lambda>(t, env, snap, alive). (t, env, snap)) ex_rev_ticks)
               (ex_cal_state [ex_event ''USD'' 1700400300])))
    \<and> cal_abs cs1' = cal_abs (snd (cal_daemon_run ex_news_params 0 (\<lambda>_. True)
        (map (\<lambda>(t, env, snap, alive). (t, env, snap)) ex_rev_ticks) (ex_cal_state [ex_event ''USD'' 1700400300])))"
proof (rule news_daemon_revisions_agree)
  have "datetime_range 1700400300"
    by (simp add: datetime_range_def epoch_ord_def days_before_year_def)
  then show "cache_agree (cd_cache (ex_cal_state [ex_event ''USD'' 1700400300]))"
    using cache_agree_cache_json [of "[ex_event ''USD'' 1700400300]"] by (simp add: ex_cal_state_def ex_event_def)
  show "\<forall>(t, env, snap, alive) \<in> set ex_rev_ticks.
      \<not> upd_raises env \<and> cache_agree (upd_output env) \<and> (\<exists>i. alive i = None \<or> alive i = Some {})"
    using cache_agree_cache_json [of "[]"] by (simp add: ex_rev_ticks_def ex_updater_def)
qed simp

end
