(* ===== verification/System.thy ===== *)
theory System
  imports Risk_Limits Daemon
begin

text \<open>
  The deployed system: two processes share the kill-switch record and the
  trading engine. \<open>limits_watch.py\<close> calls \<open>enforce_aggregate_risk\<close> in a
  loop; the news daemon (\<open>run_daemon\<close> of \<open>news_windows0.2.py\<close>) re-enables
  AutoTrading on expiry and runs the news enforcer. Their ticks interleave in
  any order. The environment acts between ticks: the trader opens and closes
  positions and switches AutoTrading by hand, and the limits process can die
  in the middle of writing its state file. One event is one of these steps;
  the reachable states are those an interleaving of events leads to from a
  fresh installation.
\<close>

datatype sys_event =
    LimitsTick limits_params timestamp snapshot "position \<Rightarrow> bool"
  | NewsTick news_params int "position \<Rightarrow> bool" timestamp "event list option" "snapshot option"
  | SaveInterrupted
  | TraderSetsPositions "position list"
  | TraderSetsAutoTrading bool

definition sys_step :: "sys_event \<Rightarrow> daemon_state \<Rightarrow> daemon_state" where
  "sys_step e ds =
     (case e of
        LimitsTick prm now snap c \<Rightarrow>
          ds\<lparr>ds_world := snd (enforce_aggregate_risk prm now snap c (ds_world ds))\<rparr>
      | NewsTick prm rf c t cache snap \<Rightarrow> snd (daemon_tick prm rf c t cache snap ds)
      | SaveInterrupted \<Rightarrow>
          ds\<lparr>ds_world := (ds_world ds)\<lparr>w_limits :=
               save_state_interrupted (load_state (w_limits (ds_world ds)))\<rparr>\<rparr>
      | TraderSetsPositions ps \<Rightarrow>
          ds\<lparr>ds_world := (ds_world ds)\<lparr>w_engine := (w_engine (ds_world ds))\<lparr>eng_positions := ps\<rparr>\<rparr>\<rparr>
      | TraderSetsAutoTrading b \<Rightarrow>
          ds\<lparr>ds_world := (ds_world ds)\<lparr>w_engine := (w_engine (ds_world ds))\<lparr>eng_autotrading := b\<rparr>\<rparr>\<rparr>)"

text \<open>
  A fresh installation: no limits state file, the daemon just started
  (\<open>LAST_AUTOTRADE_REENABLE = 0.0\<close>, no calendar loaded). The kill switch and the
  engine are whatever they are.
\<close>

definition sys_init :: "daemon_state \<Rightarrow> bool" where
  "sys_init ds = (w_limits (ds_world ds) = NoFile \<and> last_reenable ds = 0 \<and> last_load ds = 0
                  \<and> events_df ds = None)"

inductive sys_reachable :: "daemon_state \<Rightarrow> bool" where
  init: "sys_init ds \<Longrightarrow> sys_reachable ds"
| step: "sys_reachable ds \<Longrightarrow> sys_reachable (sys_step e ds)"

text \<open>
  What every state file the enforcer writes satisfies: the baseline is sorted
  and without duplicates (it is always \<open>sorted(list(set))\<close> or kept), the
  attempt counter is not negative, and a positive counter carries the instant
  of the last attempt, so that the decay can fire.
\<close>

definition limits_inv :: "limits_state \<Rightarrow> bool" where
  "limits_inv st = (sorted (baseline_tickets st) \<and> distinct (baseline_tickets st)
                    \<and> 0 \<le> block_attempts st \<and> (block_attempts st = 0 \<or> last_attempt_at st \<noteq> None))"

text \<open>The expiry of the kill switch is kept or moved later.\<close>

definition kill_extends :: "kill_state \<Rightarrow> kill_state \<Rightarrow> bool" where
  "kill_extends ks ks' =
     (case ks_until ks of None \<Rightarrow> True
      | Some u \<Rightarrow> (case ks_until ks' of None \<Rightarrow> False | Some u' \<Rightarrow> u \<le> u'))"

subsection \<open>Lemmas\<close>

lemma sys_init_limits_inv:
  "sys_init ds \<Longrightarrow> limits_inv (load_state (w_limits (ds_world ds)))"
  by (simp add: sys_init_def limits_inv_def)

lemma limits_inv_decay:
  "limits_inv st \<Longrightarrow> limits_inv (decay_attempts bm now st)"
  by (auto simp: decay_attempts_def limits_inv_def split: option.splits)

lemma limits_inv_empty [simp]: "limits_inv empty_limits_state"
  by (simp add: limits_inv_def)

lemma enforce_limits_inv:
  assumes inv: "limits_inv (load_state (w_limits w))"
    and run: "enforce_aggregate_risk prm now snap c w = (r, w')"
  shows "limits_inv (load_state (w_limits w'))"
proof -
  let ?st = "decay_attempts (block_minutes prm) now (load_state (w_limits w))"
  have st: "limits_inv ?st" using inv by (rule limits_inv_decay)
  show ?thesis
  proof (cases rule: enforce_aggregate_risk_cases [where prm = prm and now = now and snap = snap
        and c = c and w = w])
    case first
    with st show ?thesis
      by (simp add: first_run_result [OF trans [OF first(2) [symmetric] run]] limits_inv_def)
  next
    case ok
    with st show ?thesis
      by (simp add: risk_ok_branch_result [OF trans [OF ok(3) [symmetric] run]] limits_inv_def)
  next
    case over
    obtain cl fl w1 where cnt: "close_new_tickets c (new_tickets snap (baseline_tickets ?st))
        (snap_positions snap) w = (cl, fl, w1)"
      by (cases "close_new_tickets c (new_tickets snap (baseline_tickets ?st)) (snap_positions snap) w")
    with st show ?thesis
      by (simp add: risk_exceeded_branch_result [OF cnt trans [OF over(3) [symmetric] run]] limits_inv_def)
  qed
qed

lemma daemon_tick_limits:
  assumes "daemon_tick prm rf c t cache snap ds = (o1, ds')"
  shows "w_limits (ds_world ds') = w_limits (ds_world ds)"
  using assms
proof (cases rule: daemon_tick_cases)
  case (1 fired ds1)
  then show ?thesis using reenable_phase_result(4) [OF 1(1)] by simp
next
  case (2 fired ds1)
  then show ?thesis using reenable_phase_result(4) [OF 2(1)] by simp
next
  case (3 fired ds1 evs rep w)
  have "w_limits w = w_limits (ds_world ds1)"
    using enforce_news_window_limits [of c prm t snap "Some evs" "ds_world (reload_phase rf t cache ds1)"] 3(4)
    by simp
  then show ?thesis using 3 reenable_phase_result(4) [OF 3(1)] by simp
qed

lemma sys_step_limits_inv:
  "limits_inv (load_state (w_limits (ds_world ds))) \<Longrightarrow>
     limits_inv (load_state (w_limits (ds_world (sys_step e ds))))"
proof (cases e)
  case (LimitsTick prm now snap c)
  then show "limits_inv (load_state (w_limits (ds_world ds))) \<Longrightarrow> ?thesis"
    using enforce_limits_inv [OF _ surjective_pairing] by (simp add: sys_step_def)
next
  case (NewsTick prm rf c t cache snap)
  then show "limits_inv (load_state (w_limits (ds_world ds))) \<Longrightarrow> ?thesis"
    using daemon_tick_limits [OF surjective_pairing] by (simp add: sys_step_def)
qed (simp_all add: sys_step_def save_state_interrupted_def)


lemma kill_extends_refl [simp]: "kill_extends ks ks"
  by (simp add: kill_extends_def split: option.splits)

lemma kill_extends_set_kill_until [simp]: "kill_extends ks (set_kill_until t ks)"
  by (simp add: kill_extends_def split: option.splits)

lemma enforce_kill_extends:
  assumes run: "enforce_aggregate_risk prm now snap c w = (r, w')"
  shows "kill_extends (w_kill w) (w_kill w')"
proof (cases rule: enforce_aggregate_risk_cases [where prm = prm and now = now and snap = snap
      and c = c and w = w])
  case first
  then show ?thesis by (simp add: first_run_result [OF trans [OF first(2) [symmetric] run]])
next
  case ok
  then show ?thesis by (simp add: risk_ok_branch_result [OF trans [OF ok(3) [symmetric] run]])
next
  case over
  let ?st = "decay_attempts (block_minutes prm) now (load_state (w_limits w))"
  obtain cl fl w1 where cnt: "close_new_tickets c (new_tickets snap (baseline_tickets ?st))
      (snap_positions snap) w = (cl, fl, w1)"
    by (cases "close_new_tickets c (new_tickets snap (baseline_tickets ?st)) (snap_positions snap) w")
  have "w_kill w1 = w_kill w" using close_new_tickets_frame [OF cnt] by simp
  then show ?thesis
    by (simp add: risk_exceeded_branch_result [OF cnt trans [OF over(3) [symmetric] run]])
qed

lemma enforce_news_kill_extends:
  "kill_extends (w_kill w) (w_kill (snd (enforce_news_window c prm now snap df w)))"
proof (cases snap)
  case None
  then show ?thesis by (simp add: enforce_news_window_def)
next
  case (Some s)
  obtain r w' where e: "enforce_news_window c prm now snap df w = (r, w')"
    by (cases "enforce_news_window c prm now snap df w")
  from e [unfolded Some] show ?thesis unfolding e
    by (cases rule: enforce_news_window_cases) (auto dest: news_loop_result)
qed

lemma daemon_tick_kill_extends:
  assumes "daemon_tick prm rf c t cache snap ds = (o1, ds')"
  shows "tick_reenabled o1 \<or> kill_extends (w_kill (ds_world ds)) (w_kill (ds_world ds'))"
  using assms
proof (cases rule: daemon_tick_cases)
  case (1 fired ds1)
  then show ?thesis using reenable_phase_result(3) [OF 1(1)] by (cases fired) simp_all
next
  case (2 fired ds1)
  then show ?thesis using reenable_phase_result(3) [OF 2(1)] by (cases fired) simp_all
next
  case (3 fired ds1 evs rep w)
  have "kill_extends (w_kill (ds_world ds1)) (w_kill w)"
    using enforce_news_kill_extends [of "ds_world (reload_phase rf t cache ds1)" c prm t snap "Some evs"] 3(4)
    by simp
  then show ?thesis using 3 reenable_phase_result(3) [OF 3(1)] by (cases fired) simp_all
qed

lemma decay_attempts_reset:
  "0 < block_attempts st \<Longrightarrow> block_attempts (decay_attempts bm now st) = 0 \<Longrightarrow>
     \<exists>t. last_attempt_at st = Some t \<and> block_window bm \<le> now - t"
  by (auto simp: decay_attempts_def split: option.splits if_splits)

lemma enforce_attempts_reset:
  assumes run: "enforce_aggregate_risk prm now snap c w = (r, w')"
    and pos: "0 < block_attempts (load_state (w_limits w))"
    and zero: "block_attempts (load_state (w_limits w')) = 0"
  shows "(\<exists>t. last_attempt_at (load_state (w_limits w)) = Some t \<and> block_window (block_minutes prm) \<le> now - t)
    \<or> (total_risk_pct snap \<le> threshold_pct prm + risk_epsilon \<and> \<not> kill_active now (w_kill w))"
proof (cases "block_attempts (decay_attempts (block_minutes prm) now (load_state (w_limits w))) = 0")
  case True
  with pos show ?thesis by (blast dest: decay_attempts_reset)
next
  case False
  let ?st = "decay_attempts (block_minutes prm) now (load_state (w_limits w))"
  have st: "0 < block_attempts ?st"
    using False pos by (auto simp: decay_attempts_def split: option.splits)
  show ?thesis
  proof (cases rule: enforce_aggregate_risk_cases [where prm = prm and now = now and snap = snap
        and c = c and w = w])
    case first
    with st zero show ?thesis by (simp add: first_run_result [OF trans [OF first(2) [symmetric] run]])
  next
    case ok
    with st zero show ?thesis
      by (auto simp: risk_ok_branch_result [OF trans [OF ok(3) [symmetric] run]] split: if_splits)
  next
    case over
    obtain cl fl w1 where cnt: "close_new_tickets c (new_tickets snap (baseline_tickets ?st))
        (snap_positions snap) w = (cl, fl, w1)"
      by (cases "close_new_tickets c (new_tickets snap (baseline_tickets ?st)) (snap_positions snap) w")
    with st zero show ?thesis
      by (simp add: risk_exceeded_branch_result [OF cnt trans [OF over(3) [symmetric] run]] split: if_splits)
  qed
qed


lemma reachable_limits_inv:
  "sys_reachable ds \<Longrightarrow> limits_inv (load_state (w_limits (ds_world ds)))"
  by (induction rule: sys_reachable.induct) (auto intro: sys_init_limits_inv sys_step_limits_inv)

lemma enforce_attempts_before:
  "attempts_before (fst (enforce_aggregate_risk prm now snap c w)) =
     block_attempts (decay_attempts (block_minutes prm) now (load_state (w_limits w)))"
proof -
  obtain r w' where run: "enforce_aggregate_risk prm now snap c w = (r, w')"
    by (cases "enforce_aggregate_risk prm now snap c w")
  let ?st = "decay_attempts (block_minutes prm) now (load_state (w_limits w))"
  have "attempts_before r = block_attempts ?st"
  proof (cases rule: enforce_aggregate_risk_cases [where prm = prm and now = now and snap = snap
        and c = c and w = w])
    case first
    then show ?thesis by (simp add: first_run_result [OF trans [OF first(2) [symmetric] run]])
  next
    case ok
    then show ?thesis by (simp add: risk_ok_branch_result [OF trans [OF ok(3) [symmetric] run]])
  next
    case over
    obtain cl fl w1 where cnt: "close_new_tickets c (new_tickets snap (baseline_tickets ?st))
        (snap_positions snap) w = (cl, fl, w1)"
      by (cases "close_new_tickets c (new_tickets snap (baseline_tickets ?st)) (snap_positions snap) w")
    then show ?thesis
      by (simp add: risk_exceeded_branch_result [OF cnt trans [OF over(3) [symmetric] run]])
  qed
  with run show ?thesis by simp
qed

end
