(* ===== verification/Updater.thy ===== *)
theory Updater
  imports State_Json
begin

text \<open>
  The self-updater, \<open>main\<close> of \<open>src/RiskguardV1.1/update_riskguard.py\<close>. It
  runs external commands (git, pip) and decides by their return codes and
  outputs; those results are the environment \<open>run_cmd\<close> of the model, one per
  command the code can run. One run returns the exit code, the status it writes
  to \<open>.rg_update_status.json\<close> and the commands it ran, in order, a restart
  with the interpreter it starts and the terminal path it hands to
  \<open>main.py\<close>. The log file and the failure of a status write (swallowed by
  the code) are not modelled. Strings are characters below 256: \<open>strip\<close>
  and \<open>splitlines\<close> use Python's whitespace and line boundaries in that
  range.
\<close>

record proc_result =
  rc :: int
  pout :: string

text \<open>The interpreter \<open>_find_python\<close> picks: the virtual environment's or \<open>sys.executable\<close>.\<close>

datatype py_exe = VenvPython | SysPython

text \<open>
  The commands; a restart of \<open>main.py\<close> carries the interpreter and the
  value of \<open>RG_TERMINAL_PATH\<close> it is given, if any.
\<close>

datatype command =
    GitVersion | GitStatus | GitRevParseInside | GitFetch | GitForEachRef
  | GitCheckout string | GitPull | GitRevParseHead | PipInstall
  | RestartMain py_exe "string option" | RestartUi py_exe

fun is_restart :: "command \<Rightarrow> bool" where
  "is_restart (RestartMain p t) = True"
| "is_restart (RestartUi p) = True"
| "is_restart _ = False"

record update_env =
  run_cmd :: "command \<Rightarrow> proc_result"
  requirements_exists :: bool
  main_py_exists :: bool
  ui_py_exists :: bool
  restart_flag :: bool
  venv_python_exists :: bool
  terminal_cfg :: json_file
  str_other :: "json \<Rightarrow> string"

record update_status =
  us_ok :: bool
  us_message :: string
  us_version :: string

subsection \<open>Python string helpers\<close>

text \<open>
  The line boundaries of \<open>str.splitlines\<close> below 256 (with NEL, 133);
  \<open>\r\n\<close> is one boundary.
\<close>

definition py_line_break :: "char \<Rightarrow> bool" where
  "py_line_break c = (of_char c \<in> {10, 11, 12, 13, 28, 29, 30, (133::nat)})"

fun splitlines_acc :: "string \<Rightarrow> string \<Rightarrow> string list" where
  "splitlines_acc cur [] = (if cur = [] then [] else [rev cur])"
| "splitlines_acc cur (c # cs) =
     (if c = CHR 0x0D \<and> cs \<noteq> [] \<and> hd cs = CHR 0x0A then rev cur # splitlines_acc [] (tl cs)
      else if py_line_break c then rev cur # splitlines_acc [] cs
      else splitlines_acc (c # cur) cs)"

definition py_splitlines :: "string \<Rightarrow> string list" where
  "py_splitlines s = splitlines_acc [] s"

subsection \<open>The steps of \<open>main\<close>\<close>

text \<open>Lines 66--70.\<close>

definition ensure_git :: "(command \<Rightarrow> proc_result) \<Rightarrow> bool \<times> string" where
  "ensure_git R = (if rc (R GitVersion) \<noteq> 0 then (False, ''Git nao encontrado no sistema.'') else (True, ''''))"

text \<open>Lines 73--79.\<close>

definition ensure_repo_clean :: "(command \<Rightarrow> proc_result) \<Rightarrow> bool \<times> string" where
  "ensure_repo_clean R =
     (if rc (R GitStatus) \<noteq> 0 then (False, ''Falha ao verificar o status do repositorio.'')
      else if py_strip (pout (R GitStatus)) \<noteq> []
      then (False, ''Repositorio com alteracoes locais. Salve/commit antes de atualizar.'')
      else (True, ''''))"

text \<open>Lines 82--90: the first non-blank line of the tag listing, stripped.\<close>

definition latest_tag :: "(command \<Rightarrow> proc_result) \<Rightarrow> string" where
  "latest_tag R =
     (if rc (R GitForEachRef) \<noteq> 0 then ''''
      else (case filter (\<lambda>l. py_strip l \<noteq> []) (py_splitlines (pout (R GitForEachRef))) of
              [] \<Rightarrow> '''' | l # _ \<Rightarrow> py_strip l))"

text \<open>
  Lines 186--201: check out the latest tag as branch \<open>release\<close>, or, without
  tags, fast-forward the current branch and read its short hash. An error is
  \<open>Inl (exit code, message)\<close>, a success \<open>Inr version\<close>; the commands run come
  second.
\<close>

definition apply_release ::
  "(command \<Rightarrow> proc_result) \<Rightarrow> string \<Rightarrow> ((int \<times> string) + string) \<times> command list" where
  "apply_release R tag =
     (if tag \<noteq> ''''
      then (if rc (R (GitCheckout tag)) \<noteq> 0
            then (Inl (5, ''Falha ao aplicar tag '' @ tag @ ''.''), [GitCheckout tag])
            else (Inr tag, [GitCheckout tag]))
      else if rc (R GitPull) \<noteq> 0
      then (Inl (6, ''Falha ao atualizar a branch principal.''), [GitPull])
      else (Inr (if rc (R GitRevParseHead) = 0 then py_strip (pout (R GitRevParseHead)) else ''''),
            [GitPull, GitRevParseHead]))"

text \<open>Lines 93--110.\<close>

definition pip_install :: "update_env \<Rightarrow> (bool \<times> string) \<times> command list" where
  "pip_install env =
     (if \<not> requirements_exists env then ((True, ''''), [])
      else if rc (run_cmd env PipInstall) \<noteq> 0
      then ((False, ''Falha ao instalar dependencias. Veja update.log.''), [PipInstall])
      else ((True, ''''), [PipInstall]))"

text \<open>Lines 113--117: \<open>_find_python\<close>.\<close>

definition find_python :: "update_env \<Rightarrow> py_exe" where
  "find_python env = (if venv_python_exists env then VenvPython else SysPython)"

text \<open>
  \<open>str()\<close> of a JSON value: strings, booleans, integers and \<open>None\<close> as
  Python prints them; a float, list or dictionary by \<open>str_other\<close> (Python's
  \<open>repr\<close>, which the model leaves to the environment).
\<close>

definition py_str_json :: "(json \<Rightarrow> string) \<Rightarrow> json \<Rightarrow> string" where
  "py_str_json other v =
     (case v of JStr s \<Rightarrow> s | JBool b \<Rightarrow> (if b then ''True'' else ''False'') | JInt i \<Rightarrow> py_str_int i
      | JNull \<Rightarrow> ''None'' | _ \<Rightarrow> other v)"

text \<open>
  Lines 120--130: \<open>_load_terminal_path\<close>,
  \<open>str(data.get("terminal_path") or "").strip()\<close>; a missing or unreadable
  file or a value that is not a dictionary gives \<open>""\<close>.
\<close>

definition load_terminal_path :: "update_env \<Rightarrow> string" where
  "load_terminal_path env =
     (case load_json (terminal_cfg env) of
        JObj kvs \<Rightarrow>
          (let v = dict_get kvs ''terminal_path'' JNull
           in py_strip (py_str_json (str_other env) (if py_truthy v then v else JStr '''')))
      | _ \<Rightarrow> '''')"

text \<open>
  Lines 132--148: \<open>_restart_main\<close> starts \<open>main.py\<close> with the interpreter and,
  when the terminal path is not empty, \<open>RG_TERMINAL_PATH\<close>; a failing
  \<open>Popen\<close> is swallowed.
\<close>

definition restart_main :: "update_env \<Rightarrow> command list" where
  "restart_main env =
     (if main_py_exists env
      then [RestartMain (find_python env)
              (if load_terminal_path env = [] then None else Some (load_terminal_path env))]
      else [])"

text \<open>Lines 150--161: \<open>_restart_ui\<close>.\<close>

definition restart_ui :: "update_env \<Rightarrow> command list" where
  "restart_ui env = (if ui_py_exists env then [RestartUi (find_python env)] else [])"

text \<open>Lines 210--212: both restarts, in that order.\<close>

definition restarts :: "update_env \<Rightarrow> command list" where
  "restarts env = restart_main env @ restart_ui env"

definition fail_status :: "string \<Rightarrow> string \<Rightarrow> update_status" where
  "fail_status msg v = \<lparr>us_ok = False, us_message = msg, us_version = v\<rparr>"

text \<open>Lines 164--215: \<open>main\<close>.\<close>

definition update_main :: "update_env \<Rightarrow> int \<times> update_status \<times> command list" where
  "update_main env =
     (let R = run_cmd env;
          (ok1, m1) = ensure_git R
      in if \<not> ok1 then (1, fail_status m1 '''', [GitVersion])
         else let (ok2, m2) = ensure_repo_clean R
         in if \<not> ok2 then (2, fail_status m2 '''', [GitVersion, GitStatus])
         else if rc (R GitRevParseInside) \<noteq> 0 \<or> py_strip (pout (R GitRevParseInside)) \<noteq> ''true''
         then (3, fail_status ''Diretorio nao e um repositorio Git valido.'' '''',
               [GitVersion, GitStatus, GitRevParseInside])
         else if rc (R GitFetch) \<noteq> 0
         then (4, fail_status ''Falha ao buscar atualizacoes do GitHub.'' '''',
               [GitVersion, GitStatus, GitRevParseInside, GitFetch])
         else let t0 = [GitVersion, GitStatus, GitRevParseInside, GitFetch, GitForEachRef];
                  (res, t1) = apply_release R (latest_tag R)
         in case res of
              Inl (code, msg) \<Rightarrow> (code, fail_status msg '''', t0 @ t1)
            | Inr version \<Rightarrow>
                (let ((ok3, m3), t2) = pip_install env
                 in if \<not> ok3 then (7, fail_status m3 version, t0 @ t1 @ t2)
                    else (0, \<lparr>us_ok = True, us_message = ''Atualizacao concluida com sucesso.'',
                              us_version = version\<rparr>,
                          t0 @ t1 @ t2 @ (if restart_flag env then restarts env else []))))"

text \<open>The checks before any command that changes the working tree (lines 166--184).\<close>

definition preflight_ok :: "(command \<Rightarrow> proc_result) \<Rightarrow> bool" where
  "preflight_ok R = (rc (R GitVersion) = 0 \<and> rc (R GitStatus) = 0 \<and> py_strip (pout (R GitStatus)) = []
                     \<and> rc (R GitRevParseInside) = 0 \<and> py_strip (pout (R GitRevParseInside)) = ''true''
                     \<and> rc (R GitFetch) = 0)"

subsection \<open>Example data\<close>

text \<open>
  An environment where every command succeeds with empty output except the
  ones named: the working tree is clean or has one modified file, the tag
  listing prints \<open>tags\<close>, pip succeeds or fails; the virtual environment
  exists and the terminal configuration names a path with blanks around it.
\<close>

definition ex_update_env :: "string \<Rightarrow> bool \<Rightarrow> bool \<Rightarrow> bool \<Rightarrow> update_env" where
  "ex_update_env tags dirty pip_ok restart =
     \<lparr>run_cmd = (\<lambda>c. case c of
         GitStatus \<Rightarrow> \<lparr>rc = 0, pout = (if dirty then '' M main.py'' else '''')\<rparr>
       | GitRevParseInside \<Rightarrow> \<lparr>rc = 0, pout = ''true'' @ [CHR 0x0A]\<rparr>
       | GitForEachRef \<Rightarrow> \<lparr>rc = 0, pout = tags\<rparr>
       | PipInstall \<Rightarrow> \<lparr>rc = (if pip_ok then 0 else 1), pout = ''''\<rparr>
       | _ \<Rightarrow> \<lparr>rc = 0, pout = ''''\<rparr>),
      requirements_exists = True, main_py_exists = True, ui_py_exists = True, restart_flag = restart,
      venv_python_exists = True,
      terminal_cfg = JFile (JObj [(''terminal_path'', JStr '' C:/MT5/terminal64.exe '')]),
      str_other = (\<lambda>_. [])\<rparr>"

subsection \<open>Lemmas\<close>

lemma update_main_cases:
  fixes env
  defines "R \<equiv> run_cmd env"
  defines "t0 \<equiv> [GitVersion, GitStatus, GitRevParseInside, GitFetch, GitForEachRef]"
  obtains (no_git) "rc (R GitVersion) \<noteq> 0"
      "update_main env = (1, fail_status ''Git nao encontrado no sistema.'' '''', [GitVersion])"
  | (not_clean) "rc (R GitVersion) = 0" "\<not> fst (ensure_repo_clean R)"
      "update_main env = (2, fail_status (snd (ensure_repo_clean R)) '''', [GitVersion, GitStatus])"
  | (not_repo) "rc (R GitVersion) = 0" "fst (ensure_repo_clean R)"
      "rc (R GitRevParseInside) \<noteq> 0 \<or> py_strip (pout (R GitRevParseInside)) \<noteq> ''true''"
      "update_main env = (3, fail_status ''Diretorio nao e um repositorio Git valido.'' '''',
         [GitVersion, GitStatus, GitRevParseInside])"
  | (no_fetch) "\<not> preflight_ok R" "rc (R GitVersion) = 0" "fst (ensure_repo_clean R)"
      "rc (R GitFetch) \<noteq> 0"
      "update_main env = (4, fail_status ''Falha ao buscar atualizacoes do GitHub.'' '''',
         [GitVersion, GitStatus, GitRevParseInside, GitFetch])"
  | (release_failed) code msg t1 where "preflight_ok R" "apply_release R (latest_tag R) = (Inl (code, msg), t1)"
      "update_main env = (code, fail_status msg '''', t0 @ t1)"
  | (pip_failed) version t1 m3 t2 where "preflight_ok R"
      "apply_release R (latest_tag R) = (Inr version, t1)" "pip_install env = ((False, m3), t2)"
      "update_main env = (7, fail_status m3 version, t0 @ t1 @ t2)"
  | (success) version t1 m3 t2 where "preflight_ok R"
      "apply_release R (latest_tag R) = (Inr version, t1)" "pip_install env = ((True, m3), t2)"
      "update_main env = (0, \<lparr>us_ok = True, us_message = ''Atualizacao concluida com sucesso.'',
          us_version = version\<rparr>, t0 @ t1 @ t2 @ (if restart_flag env then restarts env else []))"
proof -
  have clean: "fst (ensure_repo_clean R) \<longleftrightarrow> rc (R GitStatus) = 0 \<and> py_strip (pout (R GitStatus)) = []"
    by (simp add: ensure_repo_clean_def)
  show ?thesis
  proof (cases "rc (R GitVersion) \<noteq> 0")
    case True
    then show ?thesis by (intro no_git) (simp_all add: update_main_def R_def ensure_git_def)
  next
    case v: False
    show ?thesis
    proof (cases "fst (ensure_repo_clean R)")
      case False
      with v show ?thesis
        by (intro not_clean) (simp_all add: update_main_def R_def ensure_git_def split_beta)
    next
      case c: True
      show ?thesis
      proof (cases "rc (R GitRevParseInside) \<noteq> 0 \<or> py_strip (pout (R GitRevParseInside)) \<noteq> ''true''")
        case True
        with v c show ?thesis
          by (intro not_repo) (simp_all add: update_main_def R_def ensure_git_def split_beta)
      next
        case i: False
        show ?thesis
        proof (cases "rc (R GitFetch) \<noteq> 0")
          case True
          with v c i show ?thesis
            by (intro no_fetch) (simp_all add: update_main_def R_def ensure_git_def split_beta preflight_ok_def clean)
        next
          case f: False
          have pre: "preflight_ok R" using v c i f clean by (simp add: preflight_ok_def)
          obtain res t1 where a: "apply_release R (latest_tag R) = (res, t1)"
            by (cases "apply_release R (latest_tag R)")
          obtain ok3 m3 t2 where p: "pip_install env = ((ok3, m3), t2)" by (cases "pip_install env") auto
          have u: "update_main env = (case res of
              Inl (code, msg) \<Rightarrow> (code, fail_status msg '''', t0 @ t1)
            | Inr version \<Rightarrow> (if \<not> ok3 then (7, fail_status m3 version, t0 @ t1 @ t2)
                else (0, \<lparr>us_ok = True, us_message = ''Atualizacao concluida com sucesso.'',
                  us_version = version\<rparr>, t0 @ t1 @ t2 @ (if restart_flag env then restarts env else []))))"
            using v c i f a p unfolding R_def t0_def
            by (cases res) (simp_all add: update_main_def ensure_git_def split_beta Let_def)
          show ?thesis
          proof (cases res)
            case (Inl e)
            with u a pre show ?thesis by (cases e) (auto intro: release_failed)
          next
            case (Inr version)
            with u a p pre show ?thesis by (cases ok3) (auto intro: pip_failed success)
          qed
        qed
      qed
    qed
  qed
qed

lemma apply_release_result:
  assumes "apply_release R tag = (res, t1)"
  shows "GitPull \<in> set t1 \<or> (\<exists>t. GitCheckout t \<in> set t1)"
    "GitCheckout t \<in> set t1 \<longleftrightarrow> tag \<noteq> '''' \<and> t = tag"
    "GitPull \<in> set t1 \<longleftrightarrow> tag = ''''"
    "RestartMain p q \<notin> set t1" "RestartUi p \<notin> set t1"
    "res = Inl (code, msg) \<Longrightarrow> code \<in> {5, 6}"
    "tag \<noteq> '''' \<Longrightarrow> res = Inr v \<Longrightarrow> v = tag"
    "c \<in> set t1 \<Longrightarrow> \<not> is_restart c"
  using assms by (auto simp: apply_release_def split: if_splits)

lemma pip_install_trace:
  "pip_install env = (x, t2) \<Longrightarrow> set t2 \<subseteq> {PipInstall}"
  by (auto simp: pip_install_def split: if_splits)

lemma set_restarts: "set (restarts env) \<subseteq> Collect is_restart"
  by (auto simp: restarts_def restart_main_def restart_ui_def)

text \<open>A restart in a run's trace is one of \<open>restarts\<close>, after a successful update with the flag.\<close>

lemma update_main_restarts:
  assumes "c \<in> set (snd (snd (update_main env)))" "is_restart c"
  shows "c \<in> set (restarts env) \<and> fst (update_main env) = 0 \<and> restart_flag env"
  using assms
proof (cases rule: update_main_cases [of env])
  case (release_failed code msg t1)
  with assms apply_release_result(8) [OF release_failed(2)] show ?thesis by auto
next
  case (pip_failed version t1 m3 t2)
  with assms apply_release_result(8) [OF pip_failed(2)] pip_install_trace [OF pip_failed(3)]
  show ?thesis by auto
next
  case (success version t1 m3 t2)
  with assms apply_release_result(8) [OF success(2)] pip_install_trace [OF success(3)]
  show ?thesis by (auto split: if_splits)
qed auto

text \<open>
  What a restart starts: the interpreter \<open>_find_python\<close> picks, and for
  \<open>main.py\<close> the terminal path of the configuration, if it is not empty.
\<close>

lemma restarts_started:
  "RestartMain p q \<in> set (restarts env) \<Longrightarrow>
     p = find_python env \<and> q = (if load_terminal_path env = [] then None else Some (load_terminal_path env))"
  "RestartUi p \<in> set (restarts env) \<Longrightarrow> p = find_python env"
  by (auto simp: restarts_def restart_main_def restart_ui_def split: if_splits)

text \<open>A configuration holding the path as a string hands it over stripped.\<close>

lemma load_terminal_path_str:
  "terminal_cfg env = JFile (JObj kvs) \<Longrightarrow> dict_get kvs ''terminal_path'' JNull = JStr s \<Longrightarrow>
     load_terminal_path env = py_strip s"
  by (cases s) (simp_all add: load_terminal_path_def load_json_def py_str_json_def)

lemma update_restart_main_example:
  "RestartMain VenvPython (Some ''C:/MT5/terminal64.exe'')
     \<in> set (snd (snd (update_main (ex_update_env (''v1.0'' @ [CHR 0x0A]) False True True))))"
  by code_simp

lemma splitlines_acc_line:
  "\<forall>c\<in>set l. \<not> py_line_break c \<Longrightarrow>
     splitlines_acc cur (l @ CHR 0x0A # s) = (rev cur @ l) # splitlines_acc [] s"
proof (induction l arbitrary: cur)
  case Nil
  then show ?case by (simp add: py_line_break_def)
next
  case (Cons c l)
  have "c \<noteq> CHR 0x0D" using Cons.prems by (auto simp: py_line_break_def)
  with Cons show ?case by simp
qed

section \<open>Properties of the updater\<close>


text \<open>
  C33. The updater changes the working tree (a checkout or a pull) only after
  git was found, the tree was clean, the directory was a work tree and the
  fetch succeeded, in that order.
\<close>

theorem update_tree_change_after_checks:
  assumes "GitPull \<in> set (snd (snd (update_main env))) \<or> (\<exists>t. GitCheckout t \<in> set (snd (snd (update_main env))))"
  shows "preflight_ok (run_cmd env)
    \<and> take 5 (snd (snd (update_main env))) = [GitVersion, GitStatus, GitRevParseInside, GitFetch, GitForEachRef]"
  using assms by (cases rule: update_main_cases [of env]) auto

theorem update_tree_change_after_checks_witness:
  "preflight_ok (run_cmd (ex_update_env (''v1.0'' @ [CHR 0x0A]) False True False))"
proof -
  have "GitCheckout ''v1.0'' \<in> set (snd (snd (update_main (ex_update_env (''v1.0'' @ [CHR 0x0A]) False True False))))"
    by code_simp
  then show ?thesis using update_tree_change_after_checks by blast
qed

text \<open>
  C34. When the tag listing succeeds and has a non-blank line, the updater
  checks out the first such line, stripped (the newest tag, as git sorts them),
  never pulls, and on success reports that tag as the version.
\<close>

theorem update_checks_out_latest_tag:
  assumes pre: "preflight_ok (run_cmd env)" and refs: "rc (run_cmd env GitForEachRef) = 0"
    and first: "filter (\<lambda>l. py_strip l \<noteq> []) (py_splitlines (pout (run_cmd env GitForEachRef))) = l # ls"
  shows "GitCheckout (py_strip l) \<in> set (snd (snd (update_main env)))
    \<and> GitPull \<notin> set (snd (snd (update_main env)))
    \<and> (fst (update_main env) = 0 \<longrightarrow> us_version (fst (snd (update_main env))) = py_strip l)"
proof -
  have tag: "latest_tag (run_cmd env) = py_strip l"
    using refs first by (simp add: latest_tag_def)
  have "l \<in> set (filter (\<lambda>l. py_strip l \<noteq> []) (py_splitlines (pout (run_cmd env GitForEachRef))))"
    unfolding first by simp
  then have ne: "py_strip l \<noteq> ''''" by simp
  show ?thesis
  proof (cases rule: update_main_cases [of env])
    case (release_failed code msg t1)
    note a = apply_release_result [OF release_failed(2) [unfolded tag]]
    from a(2) [of "py_strip l"] a(3) a(6) ne release_failed(3) show ?thesis by auto
  next
    case (pip_failed version t1 m3 t2)
    note a = apply_release_result [OF pip_failed(2) [unfolded tag]]
    from a(2) [of "py_strip l"] a(3) ne pip_failed(4) pip_install_trace [OF pip_failed(3)]
    show ?thesis by auto
  next
    case (success version t1 m3 t2)
    note a = apply_release_result [OF success(2) [unfolded tag]]
    from a(2) [of "py_strip l"] a(3) a(7) [OF ne] ne success(4) pip_install_trace [OF success(3)]
      set_restarts [of env]
    show ?thesis by auto
  qed (insert pre, simp_all add: preflight_ok_def ensure_repo_clean_def)
qed

theorem update_checks_out_latest_tag_witness:
  "GitCheckout ''v2.0'' \<in> set (snd (snd (update_main (ex_update_env
      ([CHR 0x0A] @ '' v2.0 '' @ [CHR 0x0A] @ ''v1.0'' @ [CHR 0x0A]) False True False))))"
proof -
  let ?env = "ex_update_env ([CHR 0x0A] @ '' v2.0 '' @ [CHR 0x0A] @ ''v1.0'' @ [CHR 0x0A]) False True False"
  have h: "preflight_ok (run_cmd ?env)" "rc (run_cmd ?env GitForEachRef) = 0"
    "filter (\<lambda>l. py_strip l \<noteq> []) (py_splitlines (pout (run_cmd ?env GitForEachRef))) = ['' v2.0 '', ''v1.0'']"
    by code_simp+
  have "py_strip '' v2.0 '' = ''v2.0''" by code_simp
  with update_checks_out_latest_tag [OF h] show ?thesis by simp
qed

text \<open>
  The updater starts \<open>main.py\<close> or the UI again only after a successful
  update, and only when it was called with \<open>--restart-ui\<close>.
\<close>

theorem update_restart_only_on_success:
  assumes "\<exists>c \<in> set (snd (snd (update_main env))). is_restart c"
  shows "fst (update_main env) = 0 \<and> restart_flag env"
  using assms update_main_restarts by blast

theorem update_restart_only_on_success_witness:
  "fst (update_main (ex_update_env (''v1.0'' @ [CHR 0x0A]) False True True)) = 0"
proof -
  have "RestartUi VenvPython \<in> set (snd (snd (update_main (ex_update_env (''v1.0'' @ [CHR 0x0A]) False True True))))"
    by code_simp
  then show ?thesis using update_restart_only_on_success by fastforce
qed

text \<open>
  C35. When installing the dependencies fails (exit code 7), the working tree
  has already been moved to the new release by a checkout or a pull, and
  nothing moves it back: the status reports failure together with the new
  version.
\<close>

theorem update_pip_failure_keeps_new_tree:
  assumes "fst (update_main env) = 7"
  shows "(GitPull \<in> set (snd (snd (update_main env))) \<or> (\<exists>t. GitCheckout t \<in> set (snd (snd (update_main env)))))
    \<and> last (snd (snd (update_main env))) = PipInstall \<and> \<not> us_ok (fst (snd (update_main env)))"
  using assms
proof (cases rule: update_main_cases [of env])
  case (release_failed code msg t1)
  with assms apply_release_result(6) [OF release_failed(2)] show ?thesis by auto
next
  case (pip_failed version t1 m3 t2)
  have "t2 = [PipInstall]" using pip_failed(3) by (auto simp: pip_install_def split: if_splits)
  with pip_failed apply_release_result(1) [OF pip_failed(2)] show ?thesis by (auto simp: fail_status_def)
qed simp_all

theorem update_pip_failure_keeps_new_tree_witness:
  "last (snd (snd (update_main (ex_update_env (''v1.0'' @ [CHR 0x0A]) False False False)))) = PipInstall"
proof -
  have "fst (update_main (ex_update_env (''v1.0'' @ [CHR 0x0A]) False False False)) = 7" by code_simp
  from update_pip_failure_keeps_new_tree [OF this] show ?thesis by blast
qed



text \<open>
  \<open>splitlines\<close> inverts joining lines with newlines: for lines without a
  line boundary, splitting their newline-terminated concatenation gives the
  lines back (the shape of \<open>git for-each-ref\<close> output the updater reads).
\<close>

theorem splitlines_roundtrip:
  "\<forall>l\<in>set ls. \<forall>c\<in>set l. \<not> py_line_break c \<Longrightarrow>
     py_splitlines (concat (map (\<lambda>l. l @ [CHR 0x0A]) ls)) = ls"
proof (induction ls)
  case Nil
  then show ?case by (simp add: py_splitlines_def)
next
  case (Cons l ls)
  then show ?case
    using splitlines_acc_line [of l "[]" "concat (map (\<lambda>l. l @ [CHR 0x0A]) ls)"]
    by (simp add: py_splitlines_def)
qed

theorem splitlines_roundtrip_witness:
  "py_splitlines (concat (map (\<lambda>l. l @ [CHR 0x0A]) [''v2.0'', ''v1.0''])) = [''v2.0'', ''v1.0'']"
proof -
  have "\<forall>l\<in>set [''v2.0'', ''v1.0'']. \<forall>c\<in>set l. \<not> py_line_break c" by code_simp
  then show ?thesis by (rule splitlines_roundtrip)
qed

end
