(* ===== verification/AutoTrading_Script.thy ===== *)
theory AutoTrading_Script
  imports RG_Prelude "HOL-Library.Sublist"
begin

text \<open>
  \<open>src/RiskGuardv0.0.2/limits/autotrading.py\<close>, a script that switches off
  AutoTrading of the MetaTrader terminal it connects to by posting the
  terminal's toggle command (\<open>WM_COMMAND 32851\<close>) to a window. The desktop is
  the environment: the terminals with their account and AutoTrading flag, the
  terminal \<open>mt5.initialize()\<close> connects to (if any), whether
  \<open>account_info()\<close> answers, and the top-level windows in the order
  \<open>EnumWindows\<close> gives them, each with its title and the terminal that owns it
  (none for a window of another program, on which the model lets the command
  have no effect). The prints, the sleep and the re-initialisation that only
  prints the new state are output.
\<close>

record mt5_terminal =
  tm_login :: int
  tm_server :: string
  tm_trade_allowed :: bool

record desktop =
  terminals :: "mt5_terminal list"
  conn :: "nat option"
  acct_ok :: bool
  windows :: "(string \<times> nat option) list"

text \<open>Lines 23--26: \<open>title and login_str in title and server in title\<close>.\<close>

definition title_matches :: "int \<Rightarrow> string \<Rightarrow> string \<Rightarrow> bool" where
  "title_matches login server title = (title \<noteq> [] \<and> sublist (py_str_int login) title \<and> sublist server title)"

text \<open>
  Lines 8--32: the window the command goes to: the first matching window, when
  the connection and the account answer and AutoTrading is on.
\<close>

definition target_window :: "desktop \<Rightarrow> (string \<times> nat option) option" where
  "target_window d =
     (case conn d of
        None \<Rightarrow> None
      | Some k \<Rightarrow>
          if k < length (terminals d) \<and> acct_ok d \<and> tm_trade_allowed (terminals d ! k) then
            (case filter (\<lambda>(title, _). title_matches (tm_login (terminals d ! k)) (tm_server (terminals d ! k)) title)
                    (windows d) of
               [] \<Rightarrow> None
             | w # _ \<Rightarrow> Some w)
          else None)"

text \<open>Lines 7--53: the toggle flips AutoTrading of the terminal owning the window.\<close>

definition autotrading_script :: "desktop \<Rightarrow> mt5_terminal list" where
  "autotrading_script d =
     (case target_window d of
        Some (_, Some j) \<Rightarrow>
          if j < length (terminals d)
          then (terminals d)[j := (terminals d ! j)\<lparr>tm_trade_allowed := \<not> tm_trade_allowed (terminals d ! j)\<rparr>]
          else terminals d
      | _ \<Rightarrow> terminals d)"

subsection \<open>Example data\<close>

text \<open>
  Two terminals on one server: the connected one (login 1234, AutoTrading on)
  and another (login 51234, off), whose window \<open>EnumWindows\<close> lists first.
\<close>

definition ex_desktop :: desktop where
  "ex_desktop = \<lparr>terminals = [\<lparr>tm_login = 1234, tm_server = ''Broker-Demo'', tm_trade_allowed = True\<rparr>,
                               \<lparr>tm_login = 51234, tm_server = ''Broker-Demo'', tm_trade_allowed = False\<rparr>],
                 conn = Some 0, acct_ok = True,
                 windows = [(''51234 - Broker-Demo: Hedging'', Some 1), (''1234 - Broker-Demo: Netting'', Some 0)]\<rparr>"

subsection \<open>Lemmas\<close>

lemma target_window_on:
  "target_window d = Some w \<Longrightarrow> conn d = Some k \<Longrightarrow> k < length (terminals d) \<and> tm_trade_allowed (terminals d ! k)"
  by (auto simp: target_window_def split: if_splits)

subsection \<open>Properties\<close>

text \<open>
  C40. The script changes the AutoTrading flag of at most one terminal: the
  owner of the first window whose title contains the login and the server of
  the connected account. The connected terminal can only be switched off. The
  test is a substring test, so the window can belong to another terminal
  (login 1234 is in \<open>"51234 - ..."\<close>): that terminal is then switched ON and
  the connected one stays on.
\<close>

theorem autotrading_script_changes:
  assumes "i < length (terminals d)"
    "tm_trade_allowed (autotrading_script d ! i) \<noteq> tm_trade_allowed (terminals d ! i)"
  shows "(\<exists>title. target_window d = Some (title, Some i))
    \<and> (conn d = Some i \<longrightarrow> \<not> tm_trade_allowed (autotrading_script d ! i))"
proof -
  obtain title where tw: "target_window d = Some (title, Some i)"
    using assms by (auto simp: autotrading_script_def nth_list_update split: option.splits prod.splits if_splits)
  moreover have "conn d = Some i \<longrightarrow> \<not> tm_trade_allowed (autotrading_script d ! i)"
    using target_window_on [OF tw] assms(1) tw by (simp add: autotrading_script_def)
  ultimately show ?thesis by blast
qed

theorem autotrading_script_changes_witness:
  "1 < length (terminals ex_desktop)
   \<and> tm_trade_allowed (autotrading_script ex_desktop ! 1) \<noteq> tm_trade_allowed (terminals ex_desktop ! 1)
   \<and> target_window ex_desktop = Some (''51234 - Broker-Demo: Hedging'', Some 1)
   \<and> tm_trade_allowed (autotrading_script ex_desktop ! 1) \<and> tm_trade_allowed (autotrading_script ex_desktop ! 0)"
proof -
  have l: "1 < length (terminals ex_desktop)" by (simp add: ex_desktop_def)
  have c: "tm_trade_allowed (autotrading_script ex_desktop ! 1) \<noteq> tm_trade_allowed (terminals ex_desktop ! 1)"
    by code_simp
  have t: "target_window ex_desktop = Some (''51234 - Broker-Demo: Hedging'', Some 1)" by code_simp
  have o: "tm_trade_allowed (autotrading_script ex_desktop ! 1) \<and> tm_trade_allowed (autotrading_script ex_desktop ! 0)"
    by code_simp
  show ?thesis using autotrading_script_changes [OF l c] l c t o by blast
qed

end
