(* ===== verification/Spec2Isabelle.thy ===== *)
theory Spec2Isabelle
  imports Risk_Limits State_Json Limits_Main News Daemon Calendar_Cache News_Process News_Revisions System Updater AutoTrading_Script
begin

text \<open>
  \<^bold>\<open>RiskGuard: a verification development.\<close>

  RiskGuard protects a MetaTrader account with two processes that share the
  trading engine and a persisted kill switch. The aggregate-risk process
  (\<open>src/RiskGuardv0.0.2/limits/limits_watch.py\<close>) calls
  \<open>enforce_aggregate_risk\<close> of \<open>src/RiskguardV1.1/limits/limits.py\<close> in a loop:
  when the account's total risk exceeds the threshold it closes every position
  opened since the last within-threshold observation (the baseline), counts one
  attempt per such position, and at the maximum sets a risk block and arms the
  kill switch for the block window. The news process (\<open>run_daemon\<close> of
  \<open>src/RiskGuardv0.0.2/news/news_windows0.2.py\<close>, earlier revision
  \<open>news_windows0.1.py\<close>) re-enables AutoTrading when the kill switch expires
  and closes positions opened shortly before scheduled economic events of their
  symbol's currencies, arming the kill switch until the event plus the window.

  \<^bold>\<open>Theories and what they model.\<close>
  \<^item> \<open>RG_Prelude\<close>: timestamps (whole seconds), tickets, the position and
    snapshot records returned by the engine reader, \<open>timedelta(minutes)\<close>, the
    optional maximum used for expiries, and shared list and \<open>Max\<close> lemmas.
  \<^item> \<open>State_Store\<close>: \<open>_load_state\<close>/\<open>_save_state\<close> of \<open>limits.py\<close>; the state
    file is missing, unreadable or a dictionary; an unreadable file reads as
    \<open>{}\<close>; a write interrupted half-way leaves an unreadable file.
  \<^item> \<open>Kill_Switch\<close> and \<open>Broker\<close>: \<open>limits/kill_switch.py\<close>,
    \<open>limits/guard.py\<close> (\<open>close_position_full\<close>) and \<open>limits/uia.py\<close>
    (\<open>ensure_autotrading_on/off\<close>) are not among the repository's files; they
    are modelled from the specification: arming keeps the later expiry, the
    switch is active strictly before its expiry, re-enabling fires once and
    clears it; a close succeeds or fails by the broker's answer, a parameter
    \<open>closer\<close> of every enforcer.
  \<^item> \<open>World\<close>: the state one tick changes (limits file, kill switch, engine)
    and the three effects the enforcers call.
  \<^item> \<open>Risk_Limits\<close>: \<open>enforce_aggregate_risk\<close> step by step (\<open>decay_attempts\<close>,
    \<open>initial_report\<close>, \<open>first_run\<close>, \<open>risk_ok_branch\<close>, \<open>new_tickets\<close>,
    \<open>close_new_tickets\<close>, \<open>risk_exceeded_branch\<close>), \<open>risk_block_status\<close>,
    and \<open>limits_run\<close>, the loop of \<open>limits_watch.py\<close>. Claims C1--C12.
  \<^item> \<open>Calendar\<close> and \<open>Iso_Time\<close>: the proleptic Gregorian calendar of
    Python's \<open>datetime\<close> (\<open>_days_before_year\<close>, \<open>_ymd2ord\<close> and the date
    of an ordinal), \<open>isoformat()\<close> of the aware UTC datetime the enforcer
    writes (\<open>isoformat_utc\<close>) and \<open>datetime.fromisoformat\<close> of Python 3.7 to
    3.10 (\<open>fromisoformat\<close>: date, time with up to three fields and a fraction,
    offset), returning the instant in microseconds and whether it is aware.
  \<^item> \<open>State_Json\<close>: the aggregate enforcer over the JSON value \<open>json.load\<close>
    returns: \<open>dict.get\<close>, \<open>int()\<close>, truthiness, iteration and
    \<open>_from_iso_any\<close> on JSON values with Python's exceptions as values
    (\<open>py_error\<close>), one call \<open>enforce_json\<close> reading and writing the
    dictionary key by key, the abstraction \<open>abs_file\<close> to the record of
    \<open>State_Store\<close>, the typing \<open>file_typed\<close> of a state file,
    \<open>risk_block_status\<close> over the file, and \<open>main\<close> of \<open>limits_watch.py\<close>
    (\<open>watch_loop\<close>: enforcer, status, change detection, and the exception
    that ends the loop). Claims C13--C17.
  \<^item> \<open>Limits_Main\<close>: the entry points around the enforcer: the parameters
    read from the configuration (\<open>limits_defaults\<close>, \<open>watch_params\<close>;
    \<open>rg_config\<close> is not among the files and is modelled by its use), the
    self-test of \<open>limits.py\<close> (\<open>limits_selftest\<close>, with \<open>should_log\<close>)
    and \<open>main\<close> of \<open>limits_watch.py\<close> with its connection assertion
    (\<open>watch_main\<close>). Its lemmas show that the watcher uses the enforcer's
    defaults and that on a typed file the self-test runs to its end.
  \<^item> \<open>News\<close>: \<open>map_symbol_currencies\<close> (with Python's ASCII \<open>upper\<close> and
    \<open>isalpha\<close>), \<open>find_events\<close>, the per-position test \<open>news_matches\<close>, and
    \<open>enforce_news_window\<close> of both revisions (\<open>news_loop\<close>, \<open>news_loop_v01\<close>).
    Claims C18 and C20.
  \<^item> \<open>Daemon\<close>: one pass of \<open>run_daemon\<close> of revision 0.2 (\<open>reenable_phase\<close>,
    \<open>in_cooldown\<close>, \<open>reload_phase\<close>, \<open>daemon_tick\<close>, \<open>daemon_run\<close>) and of
    revision 0.1 with its confirmation barrier (\<open>wait_for_closure\<close>,
    \<open>news_tick_v01\<close>). Claims C21--C27.
  \<^item> \<open>Calendar_Cache\<close>: the calendar of the news daemon.
    \<open>load_cached_calendar\<close> of both revisions reads \<open>ff_cache.json\<close> (a
    JSON value as in \<open>State_Json\<close>) into the rows of a frame (\<open>row_ts\<close>,
    \<open>load_rows\<close>, \<open>sort_frame\<close>) with the behaviour of \<open>pandas\<close> the
    code relies on; \<open>frame_events\<close> gives the events \<open>find_events\<close> can
    match. \<open>auto_update_calendar\<close> (and \<open>auto_update_calendar_v01\<close>)
    starts the downloader once per Sunday, with the downloader as an
    environment (\<open>updater_env\<close>: present, raising, the file it leaves);
    \<open>daemon_tick_cal\<close> is a tick of revision 0.2 with the refresh and the
    reload from the file, \<open>daemon_try_v01\<close> the \<open>try\<close> body of a tick of
    revision 0.1. Claims C37 and C38.
  \<^item> \<open>News_Process\<close>: the news daemon of each revision as a process: the
    module-level \<open>auto_update_calendar()\<close> (\<open>startup_refresh\<close>; in 0.1 an
    exception there ends the process), \<open>run_daemon\<close>'s connection check with
    \<open>sys.exit(2)\<close>, its initial state (\<open>initial_cal_state\<close>) and its loop
    over a list of iterations (\<open>cal_daemon_run\<close>, \<open>daemon_run_v01\<close> with
    the outer \<open>except\<close> and a barrier that may hang), composed in
    \<open>news_main\<close> and \<open>news_main_v01\<close>. Claim C39.
  \<^item> \<open>News_Revisions\<close>: the two revisions of the daemon side by side: the
    state without its AutoTrading flag (\<open>cal_abs\<close>), caches both loaders
    read alike (\<open>cache_agree\<close>), frame lemmas showing that no enforcement
    step reads the flag, and the simulation of a tick of revision 0.2 by an
    iteration of revision 0.1, lifted to whole runs. Claim C19.
  \<^item> \<open>System\<close>: the two processes and the environment interleaved
    (\<open>sys_event\<close>, \<open>sys_step\<close>), the states reachable from a fresh
    installation (\<open>sys_reachable\<close>, an inductive predicate), the state-file
    invariant \<open>limits_inv\<close> and the kill-switch order \<open>kill_extends\<close>.
    Claims C28--C31 below.
  \<^item> \<open>Updater\<close>: \<open>main\<close> of \<open>src/RiskguardV1.1/update_riskguard.py\<close> as a
    decision chain over the results of the git and pip commands it runs (an
    environment function), returning the exit code, the status written and the
    commands run; a restart carries the interpreter \<open>_find_python\<close> picks
    and, for \<open>main.py\<close>, the terminal path \<open>_load_terminal_path\<close> reads
    (\<open>str()\<close> of a non-string value other than a boolean, integer or
    \<open>None\<close> is left to the environment); Python's \<open>strip\<close> and
    \<open>splitlines\<close> on characters below 256. Claims C32--C36.
  \<^item> \<open>AutoTrading_Script\<close>: \<open>src/RiskGuardv0.0.2/limits/autotrading.py\<close>,
    which posts the AutoTrading toggle to the first window whose title
    contains the connected account's login and server. The desktop
    (terminals, connection, windows in \<open>EnumWindows\<close> order) is a record;
    \<open>target_window\<close> and \<open>autotrading_script\<close> give the window and the
    terminals afterwards. Claim C40.

  \<^bold>\<open>What the lemmas show.\<close> Functional behaviour of each branch of the
  aggregate enforcer (what it closes, counts, saves and arms: C1, C2, C6), its
  safety (first observations tolerated, closed tickets never in the baseline,
  an active kill switch always reads as a block: C3--C5), idempotence of
  within-threshold calls (C7) and the specification's scenarios A--C; the news
  enforcer's contract (C18, C20), the agreement of its two revisions as a
  simulation of one daemon's run by the other's, which differ only in
  AutoTrading (C19), bounds of the currency heuristic
  (proved, not a claim); the daemon's exactly-once re-enable and cool-down
  (C21--C23), the barrier returning at the first poll that ends it (C24) and
  hanging on a stuck ticket (C25), the tick of revision 0.1 switching
  AutoTrading off only after a confirmed barrier (C26) and the tick of
  revision 0.2 never switching it off (C27); and, over every interleaving, the
  state-file invariant (C28), a kill switch no step can shorten (C29), the
  specification's reset rule (C30) and its decay property (C31); for the
  updater, its exit codes and status (C32), that the working tree changes only
  after every check passed (C33), the newest tag being checked out (C34);
  restarts only after success and the \<open>splitlines\<close> round trip are proved
  as lemmas of \<open>Updater\<close>. For the calendar: a cache written as the reader
  expects reads back as its events, sorted by time (C37), the downloader runs
  at most once per Sunday (C38). On a Sunday on which the downloader raises, a
  process of revision 0.1 started that day dies before connecting and one
  already running enforces nothing all day, while revision 0.2 runs its plain
  loop on the old cache and retries the download at each tick (C39).
  The AutoTrading script changes at most the owner of the first matching
  window, which need not be the connected terminal (C40).
  At the level of the JSON file, the enforcer refines the record-level one
  (C13: on a typed file the call never raises and commutes with the
  abstraction), typing is exactly the absence of exceptions and is kept by every
  call (C14), a watcher on a typed file runs as the abstract \<open>limits_run\<close>
  (C15), and the datetime a call writes is read back at the same instant (C17).
  Several theorems state behaviour the
  specification does not want (the empty-baseline first run, a failed close
  counted again, the non-atomic save, the barrier without timeout, the
  updater's unreachable exit code 3 (C36) and its missing rollback when pip
  fails (C35), a state file of the wrong shape ending the watcher (C16), a
  failing downloader (C39), the toggle of another terminal (C40)): each
  is a finding of the manifest.

  \<^bold>\<open>Choices of the model.\<close> Python's floats are reals read without
  rounding; \<open>time.time()\<close> and \<open>_now_utc()\<close> are one integer instant per call
  or tick; a Python set iterated by the code is taken in ascending order;
  reports keep tickets and omit the broker's payloads. The confirmation barrier
  is a \<open>while_option\<close> over the poll index with the polls as an environment
  function, so that a barrier that never returns is \<open>None\<close> and its return is
  proved as such (C24, C25); every other loop of the code runs over a finite
  list and is a structural recursion, so no fuel is needed. The search for the
  year and the month of an ordinal is a \<open>function\<close> with a measure
  (\<open>year_up\<close>, \<open>year_down\<close>, \<open>md_search\<close>). JSON strings are lists of
  characters below 256 and floats are reals (no \<open>NaN\<close> or infinity); a
  dictionary is the list of its entries in insertion order. The datetime read
  from the file keeps its microseconds; the abstraction rounds it up to the
  second, which keeps the decay's comparison with a whole number of seconds
  exact. The instants of the calls lie in the years 1 to 9999
  (\<open>datetime_range\<close>), the range of \<open>datetime\<close>.

  The calendar cache is read with the \<open>pandas\<close> behaviour listed in
  \<open>Calendar_Cache\<close> (missing cells, \<open>NaT\<close>, the epoch for zero, sorting
  with \<open>NaT\<close> last); since \<open>sort_values\<close> is not stable, its properties
  are stated on the multiset and the order of the times. A day is
  \<open>utcnow().date()\<close>, the ordinal of the instant's UTC date.

  \<^bold>\<open>Not modelled.\<close> The downloader \<open>update_news.py\<close> is not among the
  repository's files: its effect is an input (whether it starts, the file it
  leaves). Notifications and logs are output only: the modules
  \<open>notify\<close> and \<open>logger\<close> that the daemons import are not among the
  repository's files, and what the call sites decide is modelled (the
  outputs of \<open>watch_loop\<close>, the \<open>should_log\<close> flag, the news reports); so are the prints of
  \<open>autotrading.py\<close>, its one-second sleep and its re-initialisation, which
  only print the new state. The sleeps and the initial connection and
  environment dump of the daemons, the updater's log file and the spawning of
  the restarted processes beyond the command that starts them are not
  modelled.
\<close>

section \<open>Properties of the whole system\<close>

text \<open>
  C28. In every state the two processes and the environment can reach from a
  fresh installation, the limits state file, read as the enforcer reads it,
  holds a sorted baseline without duplicates and a non-negative attempt
  counter, and a positive counter comes with the instant of the last attempt.
\<close>

theorem reachable_state_file_wellformed:
  assumes "sys_reachable ds"
  defines "st \<equiv> load_state (w_limits (ds_world ds))"
  shows "sorted (baseline_tickets st) \<and> distinct (baseline_tickets st) \<and> 0 \<le> block_attempts st
    \<and> (0 < block_attempts st \<longrightarrow> last_attempt_at st \<noteq> None)"
  using reachable_limits_inv [OF assms(1)] unfolding st_def limits_inv_def by auto

theorem reachable_state_file_wellformed_witness:
  "sorted (baseline_tickets (load_state (w_limits (ds_world (sys_step (LimitsTick ex_params 1000
      (ex_snap 3 [2, 1]) (\<lambda>_. True)) (ex_daemon_state None [] True))))))"
proof -
  have "sys_reachable (sys_step (LimitsTick ex_params 1000 (ex_snap 3 [2, 1]) (\<lambda>_. True))
      (ex_daemon_state None [] True))"
    by (intro sys_reachable.step sys_reachable.init) (simp add: sys_init_def ex_daemon_state_def)
  from reachable_state_file_wellformed [OF this] show ?thesis by simp
qed

text \<open>
  C29. No step of either process or of the environment shortens the kill
  switch: an expiry is kept or moved later, and it is cleared only by a tick of
  the news daemon at or after the expiry (its re-enable). A block armed by the
  aggregate enforcer cannot be cut short by the news enforcer, nor the reverse.
\<close>

theorem kill_switch_never_shortened:
  assumes "ks_until (w_kill (ds_world ds)) = Some u"
  shows "(\<exists>u'. ks_until (w_kill (ds_world (sys_step e ds))) = Some u' \<and> u \<le> u')
    \<or> (\<exists>prm rf c t cache snap. e = NewsTick prm rf c t cache snap \<and> u \<le> t)"
proof (cases e)
  case (LimitsTick prm now snap c)
  have "kill_extends (w_kill (ds_world ds)) (w_kill (ds_world (sys_step e ds)))"
    using enforce_kill_extends [OF surjective_pairing, where prm = prm and now = now and snap = snap
        and c = c and w = "ds_world ds"] LimitsTick
    by (simp add: sys_step_def)
  with assms show ?thesis by (auto simp: kill_extends_def split: option.splits)
next
  case (NewsTick prm rf c t cache snap)
  have "tick_reenabled (fst (daemon_tick prm rf c t cache snap ds))
      \<or> kill_extends (w_kill (ds_world ds)) (w_kill (ds_world (snd (daemon_tick prm rf c t cache snap ds))))"
    by (rule daemon_tick_kill_extends [OF surjective_pairing])
  moreover have "tick_reenabled (fst (daemon_tick prm rf c t cache snap ds)) =
      (\<exists>u. ks_until (w_kill (ds_world ds)) = Some u \<and> u \<le> t)"
    using daemon_tick_autotrading [OF surjective_pairing] by blast
  ultimately show ?thesis
    using assms NewsTick by (auto simp: sys_step_def kill_extends_def split: option.splits)
qed (insert assms, simp_all add: sys_step_def)

theorem kill_switch_never_shortened_witness:
  "\<exists>u'. ks_until (w_kill (ds_world (sys_step (LimitsTick ex_params 1000 (ex_snap 7 [1]) (\<lambda>_. True))
      (ex_daemon_state (Some 5000) [] True)))) = Some u' \<and> 5000 \<le> u'"
  using kill_switch_never_shortened [of "ex_daemon_state (Some 5000) [] True" 5000
      "LimitsTick ex_params 1000 (ex_snap 7 [1]) (\<lambda>_. True)"]
  by (simp add: ex_daemon_state_def)


text \<open>
  C30. The specification's reset invariant, checked against every step of the
  system: a positive attempt counter drops to zero only in a call of the
  aggregate enforcer that finds the last attempt at least the block window old,
  or that finds the risk within the threshold with the kill switch inactive,
  or when the enforcer's own write of its state file is interrupted (which the
  specification excludes by requiring an atomic write).
\<close>

theorem attempts_reset_only_as_specified:
  assumes pos: "0 < block_attempts (load_state (w_limits (ds_world ds)))"
    and zero: "block_attempts (load_state (w_limits (ds_world (sys_step e ds)))) = 0"
  shows "e = SaveInterrupted
    \<or> (\<exists>prm now snap c. e = LimitsTick prm now snap c
         \<and> ((\<exists>t. last_attempt_at (load_state (w_limits (ds_world ds))) = Some t
                 \<and> block_window (block_minutes prm) \<le> now - t)
            \<or> (total_risk_pct snap \<le> threshold_pct prm + risk_epsilon
                 \<and> \<not> kill_active now (w_kill (ds_world ds)))))"
proof (cases e)
  case (LimitsTick prm now snap c)
  have "block_attempts (load_state (w_limits (snd (enforce_aggregate_risk prm now snap c (ds_world ds))))) = 0"
    using zero LimitsTick by (simp add: sys_step_def)
  from enforce_attempts_reset [OF surjective_pairing pos this] LimitsTick show ?thesis by blast
next
  case (NewsTick prm rf c t cache snap)
  have "w_limits (ds_world (sys_step e ds)) = w_limits (ds_world ds)"
    using daemon_tick_limits [OF surjective_pairing] NewsTick by (simp add: sys_step_def)
  with pos zero show ?thesis by simp
qed (insert pos zero, simp_all add: sys_step_def)

theorem attempts_reset_only_as_specified_witness:
  "LimitsTick ex_params 100000 (ex_snap 1 [1]) (\<lambda>_. True) = SaveInterrupted
    \<or> (\<exists>prm now snap c. LimitsTick ex_params 100000 (ex_snap 1 [1]) (\<lambda>_. True) = LimitsTick prm now snap c
         \<and> ((\<exists>t. last_attempt_at (load_state (w_limits (ex_world_at (ex_state [1] 2 (Some 0) False) ks_empty [1])))
                   = Some t \<and> block_window (block_minutes prm) \<le> now - t)
            \<or> (total_risk_pct snap \<le> threshold_pct prm + risk_epsilon
                 \<and> \<not> kill_active now (w_kill (ex_world_at (ex_state [1] 2 (Some 0) False) ks_empty [1])))))"
proof -
  let ?ds = "(ex_daemon_state None [] True)\<lparr>ds_world := ex_world_at (ex_state [1] 2 (Some 0) False) ks_empty [1]\<rparr>"
  let ?e = "LimitsTick ex_params 100000 (ex_snap 1 [1]) (\<lambda>_. True)"
  have h1: "0 < block_attempts (load_state (w_limits (ds_world ?ds)))"
    by (simp add: ex_world_at_def ex_state_def)
  have h2: "block_attempts (load_state (w_limits (ds_world (sys_step ?e ?ds)))) = 0"
    by code_simp
  from attempts_reset_only_as_specified [OF h1 h2] show ?thesis by simp
qed



end
